theory Spec2Isabelle
  imports Complex_Main "HOL-Library.Multiset"
begin

section \<open>SQL values, aggregates and relational operators\<close>

text \<open>
  The models of the repository are SQL queries (dbt models for Snowflake).  A relation is
  a list of rows: the bag of its rows in the order in which they are stored or produced.
  SQL gives no meaning to that order, so a query result is read as the bag of its rows.
  Where a statement leaves a choice to the engine (the order of rows that tie on the
  \<open>order by\<close> key of a window, the winner of a tied \<open>mode\<close>), the choice is a parameter of
  the model, of type \<open>engine\<close>: no definition below makes it.

  A nullable column has type \<open>'a option\<close> with \<open>None\<close> for NULL.  Integer columns are
  \<open>int\<close>; quotients and averages are exact rationals (the engine's fixed decimal scale is
  not modelled).  A failing statement is a value of type \<open>sql_error\<close>.
\<close>

datatype sql_error = DivisionByZero | CompilationError

definition nullif :: "'a option \<Rightarrow> 'a \<Rightarrow> 'a option" where
  "nullif x y = (case x of None \<Rightarrow> None | Some v \<Rightarrow> if v = y then None else Some v)"

definition coalesce :: "'a option \<Rightarrow> 'a \<Rightarrow> 'a" where
  "coalesce x d = (case x of None \<Rightarrow> d | Some v \<Rightarrow> v)"

text \<open>Division \<open>x / y\<close>: NULL when an operand is NULL, an error when the divisor is 0
  (Snowflake raises "Division by zero").\<close>

definition sql_div :: "rat option \<Rightarrow> rat option \<Rightarrow> sql_error + rat option" where
  "sql_div x y =
     (case x of None \<Rightarrow> Inr None
      | Some a \<Rightarrow> (case y of None \<Rightarrow> Inr None
                   | Some b \<Rightarrow> if b = 0 then Inl DivisionByZero else Inr (Some (a / b))))"

text \<open>The guarded form \<open>x / nullif(y, 0)\<close> used by most ratios of the pipeline.\<close>

definition div_nullif :: "rat option \<Rightarrow> rat option \<Rightarrow> sql_error + rat option" where
  "div_nullif x y = sql_div x (nullif y 0)"

definition sql_minus :: "('a::minus) option \<Rightarrow> 'a option \<Rightarrow> 'a option" where
  "sql_minus x y = (case x of None \<Rightarrow> None
                    | Some a \<Rightarrow> (case y of None \<Rightarrow> None | Some b \<Rightarrow> Some (a - b)))"

definition rat_of :: "int \<Rightarrow> rat option" where
  "rat_of n = Some (of_int n)"

definition between :: "int \<Rightarrow> int \<Rightarrow> int \<Rightarrow> bool" where
  "between x lo hi = (lo \<le> x \<and> x \<le> hi)"

text \<open>Aggregates skip NULLs; over no non-NULL value \<open>sum\<close>, \<open>avg\<close>, \<open>min\<close> and \<open>max\<close>
  are NULL and \<open>count\<close> is 0.\<close>

fun non_null :: "'a option list \<Rightarrow> 'a list" where
  "non_null [] = []"
| "non_null (None # xs) = non_null xs"
| "non_null (Some v # xs) = v # non_null xs"

definition sql_count :: "'a option list \<Rightarrow> int" where
  "sql_count xs = int (length (non_null xs))"

definition sql_count_distinct :: "'a option list \<Rightarrow> int" where
  "sql_count_distinct xs = int (length (remdups (non_null xs)))"

definition sql_sum :: "('a::monoid_add) option list \<Rightarrow> 'a option" where
  "sql_sum xs = (case non_null xs of [] \<Rightarrow> None | v # vs \<Rightarrow> Some (sum_list (v # vs)))"

definition sql_avg :: "rat option list \<Rightarrow> rat option" where
  "sql_avg xs = (case non_null xs of [] \<Rightarrow> None
                 | v # vs \<Rightarrow> Some (sum_list (v # vs) / of_nat (length (v # vs))))"

definition sql_max :: "('a::linorder) option list \<Rightarrow> 'a option" where
  "sql_max xs = (case non_null xs of [] \<Rightarrow> None | v # vs \<Rightarrow> Some (fold max vs v))"

definition sql_min :: "('a::linorder) option list \<Rightarrow> 'a option" where
  "sql_min xs = (case non_null xs of [] \<Rightarrow> None | v # vs \<Rightarrow> Some (fold min vs v))"

text \<open>\<open>sum(case when c then 1 else 0 end)\<close> over the rows of a group.  Every group of a
  GROUP BY holds at least one row, so this sum is never NULL.\<close>

definition sum_case :: "('a \<Rightarrow> bool) \<Rightarrow> 'a list \<Rightarrow> int" where
  "sum_case c g = sum_list (map (\<lambda>r. if c r then 1 else 0) g)"

text \<open>Joins on a condition; a left join keeps an unmatched left row once, with NULLs.\<close>

definition inner_join :: "'a list \<Rightarrow> 'b list \<Rightarrow> ('a \<Rightarrow> 'b \<Rightarrow> bool) \<Rightarrow> ('a \<times> 'b) list" where
  "inner_join xs ys on = concat (map (\<lambda>a. map (Pair a) (filter (on a) ys)) xs)"

definition left_join :: "'a list \<Rightarrow> 'b list \<Rightarrow> ('a \<Rightarrow> 'b \<Rightarrow> bool) \<Rightarrow> ('a \<times> 'b option) list" where
  "left_join xs ys on =
     concat (map (\<lambda>a. case filter (on a) ys of
                         [] \<Rightarrow> [(a, None)]
                       | b # bs \<Rightarrow> map (\<lambda>m. (a, Some m)) (b # bs)) xs)"

text \<open>GROUP BY: one entry per distinct key, with the rows of the group.\<close>

definition group_by :: "('a \<Rightarrow> 'k) \<Rightarrow> 'a list \<Rightarrow> ('k \<times> 'a list) list" where
  "group_by key xs = map (\<lambda>k. (k, filter (\<lambda>r. key r = k) xs)) (remdups (map key xs))"

text \<open>The order in which the engine takes up the rows of a relation when it evaluates a
  window or an aggregate.  The statement does not fix it: every row, numbered by its
  position in the relation, is given a rank by the engine, and the rows are taken up by
  ascending rank.  Every order of the rows is the order of some ranks (lemma
  \<open>arrange_complete\<close>).\<close>

definition arrange :: "(nat \<Rightarrow> int) \<Rightarrow> 'a list \<Rightarrow> 'a list" where
  "arrange rank xs = map snd (sort_key (\<lambda>(i, r). rank i) (zip [0..<length xs] xs))"

text \<open>Window functions: the partitions of \<open>partition by part order by key\<close>, each sorted
  ascending on the key.  Rows of a partition with equal keys stay in the order in which
  the engine took them up; \<open>row_number()\<close> and \<open>lag(...)\<close> work inside one sorted
  partition.\<close>

definition sorted_partitions :: "('a \<Rightarrow> 'p) \<Rightarrow> ('a \<Rightarrow> 'k::linorder) \<Rightarrow> 'a list \<Rightarrow> 'a list list" where
  "sorted_partitions part key xs =
     map (\<lambda>p. sort_key key (filter (\<lambda>r. part r = p) xs)) (remdups (map part xs))"

definition window_partitions ::
  "(nat \<Rightarrow> int) \<Rightarrow> ('a \<Rightarrow> 'p) \<Rightarrow> ('a \<Rightarrow> 'k::linorder) \<Rightarrow> 'a list \<Rightarrow> 'a list list" where
  "window_partitions rank part key xs = sorted_partitions part key (arrange rank xs)"

definition row_number :: "'a list \<Rightarrow> ('a \<times> nat) list" where
  "row_number xs = zip xs [1..<Suc (length xs)]"

definition lag :: "'a list \<Rightarrow> ('a \<times> 'a option) list" where
  "lag xs = zip xs (None # map Some xs)"

text \<open>The places of the pipeline where a statement leaves the order of rows to the engine:
  the windows of \<open>prev_order_metrics\<close>, \<open>last_orders\<close>, \<open>department_rankings\<close>,
  \<open>aisle_rankings\<close>, \<open>product_peak_hours\<close>, \<open>product_peak_days\<close> and
  \<open>user_product_recency\<close>, each ordered by a single key, and the \<open>mode\<close> of
  \<open>user_metrics\<close>.  An engine gives its ranks for each of them.  Two engines are named
  for the examples: one takes the rows up as they are stored, the other in the opposite
  order.\<close>

datatype choice_site =
    Prev_order_window | Last_order_window | Department_rank_window | Aisle_rank_window
  | Peak_hour_window | Peak_day_window | Purchase_recency_window | Preferred_day_mode

type_synonym engine = "choice_site \<Rightarrow> nat \<Rightarrow> int"

definition scan_order :: engine where
  "scan_order site i = int i"


section \<open>Source tables and staging models\<close>

text \<open>
  The raw Instacart tables, with the column types of the data model: integer identifiers
  and codes, and a nullable day gap.  The staging models only rename columns
  (\<open>ADD_TO_CART_ORDER\<close> to \<open>cart_position\<close>, \<open>REORDERED\<close> to \<open>is_reordered\<close>), so the rows
  carry the staged names, prefixed with the table alias the queries use.
\<close>

record order_row =
  o_order_id :: int
  o_user_id :: int
  o_order_number :: int
  o_order_dow :: int
  o_order_hour_of_day :: int
  o_days_since_prior_order :: "rat option"
  o_eval_set :: string

record order_product_row =
  op_order_id :: int
  op_product_id :: int
  op_cart_position :: int
  op_is_reordered :: int

record product_row =
  p_product_id :: int
  p_product_name :: string
  p_aisle_id :: int
  p_department_id :: int

record aisle_row =
  a_aisle_id :: int
  a_aisle_name :: string

record department_row =
  d_department_id :: int
  d_department_name :: string

record instacart_raw =
  ORDERS :: "order_row list"
  ORDER_PRODUCTS :: "order_product_row list"
  PRODUCTS :: "product_row list"
  AISLES :: "aisle_row list"
  DEPARTMENTS :: "department_row list"

definition stg_instacart__orders :: "instacart_raw \<Rightarrow> order_row list" where
  "stg_instacart__orders db = ORDERS db"

definition stg_instacart__order_products :: "instacart_raw \<Rightarrow> order_product_row list" where
  "stg_instacart__order_products db = ORDER_PRODUCTS db"

definition stg_instacart__products :: "instacart_raw \<Rightarrow> product_row list" where
  "stg_instacart__products db = PRODUCTS db"

definition stg_instacart__aisles :: "instacart_raw \<Rightarrow> aisle_row list" where
  "stg_instacart__aisles db = AISLES db"

definition stg_instacart__departments :: "instacart_raw \<Rightarrow> department_row list" where
  "stg_instacart__departments db = DEPARTMENTS db"

text \<open>The project variables \<open>eval_set\<close> and \<open>min_orders\<close>, with the defaults of
  \<open>dbt_project.yml\<close> (which are also the defaults written in the models).\<close>

record vars =
  var_eval_set :: string
  var_min_orders :: int

definition default_vars :: vars where
  "default_vars = \<lparr> var_eval_set = ''prior'', var_min_orders = 4 \<rparr>"

text \<open>The CTE \<open>orders\<close> of the models that filter on the evaluation partition.\<close>

definition orders_in_eval_set :: "vars \<Rightarrow> instacart_raw \<Rightarrow> order_row list" where
  "orders_in_eval_set v db =
     filter (\<lambda>od. o_eval_set od = var_eval_set v) (stg_instacart__orders db)"


section \<open>Order features (\<open>instacart__order_features\<close>)\<close>

record order_metrics_row =
  om_order_id :: int
  om_user_id :: int
  om_order_number :: int
  om_order_dow :: int
  om_order_hour_of_day :: int
  om_days_since_prior_order :: "rat option"
  om_basket_size :: int
  om_num_reordered_items :: int
  om_reorder_ratio :: "rat option"
  om_avg_cart_position :: "rat option"
  om_min_cart_position :: "int option"
  om_max_cart_position :: "int option"

text \<open>A ratio written \<open>x / nullif(y, 0)\<close>.  The error branch is never taken
  (lemma \<open>div_nullif_Inr\<close> below).\<close>

definition ratio_nullif :: "rat option \<Rightarrow> rat option \<Rightarrow> rat option" where
  "ratio_nullif x y = (case div_nullif x y of Inr q \<Rightarrow> q | Inl e \<Rightarrow> None)"

text \<open>CTE \<open>order_metrics\<close>: \<open>orders o left join order_products op\<close>, grouped by the six
  order columns.  For an order without lines the single joined row has NULL line columns.\<close>

definition order_metrics :: "vars \<Rightarrow> instacart_raw \<Rightarrow> order_metrics_row list" where
  "order_metrics v db =
     map (\<lambda>(k, g). case k of (oid, uid, num, dow, hour, dsp) \<Rightarrow>
            \<lparr> om_order_id = oid, om_user_id = uid, om_order_number = num, om_order_dow = dow,
              om_order_hour_of_day = hour, om_days_since_prior_order = dsp,
              om_basket_size = sql_count (map (\<lambda>(od, ol). map_option op_product_id ol) g),
              om_num_reordered_items =
                sum_case (\<lambda>(od, ol). map_option op_is_reordered ol = Some 1) g,
              om_reorder_ratio =
                ratio_nullif
                  (rat_of (sum_case (\<lambda>(od, ol). map_option op_is_reordered ol = Some 1) g))
                  (rat_of (sql_count (map (\<lambda>(od, ol). map_option op_product_id ol) g))),
              om_avg_cart_position =
                sql_avg (map (\<lambda>(od, ol). map_option (\<lambda>l. of_int (op_cart_position l)) ol) g),
              om_min_cart_position = sql_min (map (\<lambda>(od, ol). map_option op_cart_position ol) g),
              om_max_cart_position = sql_max (map (\<lambda>(od, ol). map_option op_cart_position ol) g) \<rparr>)
       (group_by (\<lambda>(od, ol). (o_order_id od, o_user_id od, o_order_number od, o_order_dow od,
                               o_order_hour_of_day od, o_days_since_prior_order od))
          (left_join (orders_in_eval_set v db) (stg_instacart__order_products db)
             (\<lambda>od ol. o_order_id od = op_order_id ol)))"

record prev_order_metrics_row =
  pom_user_id :: int
  pom_order_number :: int
  pom_order_id :: int
  pom_prev_basket_size :: "int option"
  pom_prev_reorder_ratio :: "rat option"
  pom_prev_order_dow :: "int option"
  pom_prev_order_hour :: "int option"

text \<open>CTE \<open>prev_order_metrics\<close>: the four \<open>lag(...)\<close> share one window,
  \<open>partition by o.user_id order by o.order_number\<close>.\<close>

definition prev_order_metrics :: "engine \<Rightarrow> vars \<Rightarrow> instacart_raw \<Rightarrow> prev_order_metrics_row list" where
  "prev_order_metrics eng v db =
     map (\<lambda>(cur, prev).
            \<lparr> pom_user_id = o_user_id (fst cur), pom_order_number = o_order_number (fst cur),
              pom_order_id = o_order_id (fst cur),
              pom_prev_basket_size = map_option (\<lambda>r. om_basket_size (snd r)) prev,
              pom_prev_reorder_ratio = Option.bind prev (\<lambda>r. om_reorder_ratio (snd r)),
              pom_prev_order_dow = map_option (\<lambda>r. o_order_dow (fst r)) prev,
              pom_prev_order_hour = map_option (\<lambda>r. o_order_hour_of_day (fst r)) prev \<rparr>)
       (concat (map lag
          (window_partitions (eng Prev_order_window) (\<lambda>(od, om). o_user_id od) (\<lambda>(od, om). o_order_number od)
             (inner_join (orders_in_eval_set v db) (order_metrics v db)
                (\<lambda>od om. o_order_id od = om_order_id om)))))"

record product_diversity_row =
  pd_order_id :: int
  pd_unique_aisles :: int
  pd_unique_departments :: int

definition product_diversity :: "vars \<Rightarrow> instacart_raw \<Rightarrow> product_diversity_row list" where
  "product_diversity v db =
     map (\<lambda>(k, g).
            \<lparr> pd_order_id = k,
              pd_unique_aisles = sql_count_distinct (map (\<lambda>(j, p). Some (p_aisle_id p)) g),
              pd_unique_departments =
                sql_count_distinct (map (\<lambda>(j, p). Some (p_department_id p)) g) \<rparr>)
       (group_by (\<lambda>(j, p). o_order_id (fst j))
          (inner_join
             (inner_join (orders_in_eval_set v db) (stg_instacart__order_products db)
                (\<lambda>od ol. o_order_id od = op_order_id ol))
             (stg_instacart__products db)
             (\<lambda>j p. op_product_id (snd j) = p_product_id p)))"

text \<open>The \<open>day_part\<close> CASE of the final select.\<close>

definition day_part :: "int \<Rightarrow> string" where
  "day_part hour =
     (if between hour 5 9 then ''morning''
      else if between hour 10 14 then ''midday''
      else if between hour 15 19 then ''evening''
      else ''night'')"

record order_features_row =
  of_order_id :: int
  of_user_id :: int
  of_order_number :: int
  of_order_dow :: int
  of_order_hour_of_day :: int
  of_days_since_prior_order :: "rat option"
  of_basket_size :: int
  of_num_reordered_items :: int
  of_reorder_ratio :: "rat option"
  of_avg_cart_position :: "rat option"
  of_min_cart_position :: "int option"
  of_max_cart_position :: "int option"
  of_unique_aisles :: "int option"
  of_unique_departments :: "int option"
  of_aisle_diversity_ratio :: "rat option"
  of_department_diversity_ratio :: "rat option"
  of_basket_size_delta :: "int option"
  of_reorder_ratio_delta :: "rat option"
  of_same_day_as_last_order :: int
  of_similar_hour_as_last_order :: int
  of_day_part :: string

definition order_features_final ::
  "(order_metrics_row \<times> prev_order_metrics_row option) \<times> product_diversity_row option
     \<Rightarrow> order_features_row" where
  "order_features_final j =
     (case j of ((om, pom), pd) \<Rightarrow>
        \<lparr> of_order_id = om_order_id om, of_user_id = om_user_id om,
          of_order_number = om_order_number om, of_order_dow = om_order_dow om,
          of_order_hour_of_day = om_order_hour_of_day om,
          of_days_since_prior_order = om_days_since_prior_order om,
          of_basket_size = om_basket_size om,
          of_num_reordered_items = om_num_reordered_items om,
          of_reorder_ratio = om_reorder_ratio om,
          of_avg_cart_position = om_avg_cart_position om,
          of_min_cart_position = om_min_cart_position om,
          of_max_cart_position = om_max_cart_position om,
          of_unique_aisles = map_option pd_unique_aisles pd,
          of_unique_departments = map_option pd_unique_departments pd,
          of_aisle_diversity_ratio =
            ratio_nullif (map_option (\<lambda>r. of_int (pd_unique_aisles r)) pd)
              (rat_of (om_basket_size om)),
          of_department_diversity_ratio =
            ratio_nullif (map_option (\<lambda>r. of_int (pd_unique_departments r)) pd)
              (rat_of (om_basket_size om)),
          of_basket_size_delta =
            sql_minus (Some (om_basket_size om)) (Option.bind pom pom_prev_basket_size),
          of_reorder_ratio_delta =
            sql_minus (om_reorder_ratio om) (Option.bind pom pom_prev_reorder_ratio),
          of_same_day_as_last_order =
            (if map_option abs (sql_minus (Some (om_order_dow om)) (Option.bind pom pom_prev_order_dow))
                = Some 0 then 1 else 0),
          of_similar_hour_as_last_order =
            (case map_option abs
                    (sql_minus (Some (om_order_hour_of_day om)) (Option.bind pom pom_prev_order_hour)) of
               None \<Rightarrow> 0 | Some d \<Rightarrow> if d \<le> 3 then 1 else 0),
          of_day_part = day_part (om_order_hour_of_day om) \<rparr>)"

definition instacart__order_features :: "engine \<Rightarrow> vars \<Rightarrow> instacart_raw \<Rightarrow> order_features_row list" where
  "instacart__order_features eng v db =
     map order_features_final
       (left_join
          (left_join (order_metrics v db) (prev_order_metrics eng v db)
             (\<lambda>om pom. om_order_id om = pom_order_id pom))
          (product_diversity v db)
          (\<lambda>j pd. om_order_id (fst j) = pd_order_id pd))"


section \<open>Intermediate metrics\<close>

text \<open>Further aggregates of the metric models.  \<open>median\<close> averages the two middle values
  of an even number of values.  \<open>mode\<close> returns a most frequent value; among several, the
  engine may return any: here the first one in the order in which the rows are given.  The sample standard deviation
  is represented by its square, the sample variance (NULL for fewer than two values).\<close>

definition sql_median :: "rat option list \<Rightarrow> rat option" where
  "sql_median xs =
     (case sort (non_null xs) of [] \<Rightarrow> None
      | v # vs \<Rightarrow>
          (let n = length (v # vs) in
           if even n then Some (((v # vs) ! (n div 2 - 1) + (v # vs) ! (n div 2)) / 2)
           else Some ((v # vs) ! (n div 2))))"

definition sql_mode :: "'a option list \<Rightarrow> 'a option" where
  "sql_mode xs =
     (case filter (\<lambda>x. list_all (\<lambda>y. count_list (non_null xs) y \<le> count_list (non_null xs) x)
                          (non_null xs)) (non_null xs) of
        [] \<Rightarrow> None | v # vs \<Rightarrow> Some v)"

definition sql_var_samp :: "rat option list \<Rightarrow> rat option" where
  "sql_var_samp xs =
     (case non_null xs of [] \<Rightarrow> None | [v] \<Rightarrow> None
      | v # w # vs \<Rightarrow>
          (let n = of_nat (length (v # w # vs)); m = sum_list (v # w # vs) / n in
           Some (sum_list (map (\<lambda>x. (x - m) * (x - m)) (v # w # vs)) / (n - 1))))"

text \<open>A model fails as soon as the expression of one of its rows fails.\<close>

fun sequence_rows :: "(sql_error + 'a) list \<Rightarrow> sql_error + 'a list" where
  "sequence_rows [] = Inr []"
| "sequence_rows (x # xs) =
     (case x of Inl e \<Rightarrow> Inl e
      | Inr r \<Rightarrow> (case sequence_rows xs of Inl e \<Rightarrow> Inl e | Inr rs \<Rightarrow> Inr (r # rs)))"

definition bind_rows :: "sql_error + 'a \<Rightarrow> ('a \<Rightarrow> sql_error + 'b) \<Rightarrow> sql_error + 'b" where
  "bind_rows m f = (case m of Inl e \<Rightarrow> Inl e | Inr t \<Rightarrow> f t)"

subsection \<open>\<open>int_instacart__user_order_metrics\<close>\<close>

record orders_joined_row =
  oj_order_id :: int
  oj_user_id :: int
  oj_order_number :: int
  oj_order_dow :: int
  oj_order_hour_of_day :: int
  oj_days_since_prior_order :: "rat option"
  oj_basket_size :: int
  oj_reordered_items :: int

definition orders_joined :: "vars \<Rightarrow> instacart_raw \<Rightarrow> orders_joined_row list" where
  "orders_joined v db =
     map (\<lambda>(k, g). case k of (oid, uid, num, dow, hour, dsp) \<Rightarrow>
            \<lparr> oj_order_id = oid, oj_user_id = uid, oj_order_number = num, oj_order_dow = dow,
              oj_order_hour_of_day = hour, oj_days_since_prior_order = dsp,
              oj_basket_size = sql_count (map (\<lambda>(od, ol). map_option op_product_id ol) g),
              oj_reordered_items =
                sum_case (\<lambda>(od, ol). map_option op_is_reordered ol = Some 1) g \<rparr>)
       (group_by (\<lambda>(od, ol). (o_order_id od, o_user_id od, o_order_number od, o_order_dow od,
                               o_order_hour_of_day od, o_days_since_prior_order od))
          (left_join (orders_in_eval_set v db) (stg_instacart__order_products db)
             (\<lambda>od ol. o_order_id od = op_order_id ol)))"

record user_metrics_row =
  um_user_id :: int
  um_user_total_orders :: "int option"
  um_avg_days_between_orders :: "rat option"
  um_var_days_between_orders :: "rat option"
  um_typical_order_hour :: "rat option"
  um_preferred_order_day :: "int option"
  um_avg_order_hour :: "rat option"
  um_avg_basket_size :: "rat option"
  um_total_items_ordered :: "int option"
  um_total_orders :: int
  um_overall_reorder_rate :: "rat option"

text \<open>The row of one user group.  \<open>overall_reorder_rate\<close> is the unguarded quotient
  \<open>sum(reordered_items) / sum(basket_size)\<close>.\<close>

definition user_metrics_group :: "int \<times> orders_joined_row list \<Rightarrow> sql_error + user_metrics_row" where
  "user_metrics_group kg =
     (case kg of (uid, g) \<Rightarrow>
        (case sql_div (sql_sum (map (\<lambda>r. Some (of_int (oj_reordered_items r))) g))
                      (sql_sum (map (\<lambda>r. Some (of_int (oj_basket_size r))) g)) of
           Inl e \<Rightarrow> Inl e
         | Inr rate \<Rightarrow>
             Inr \<lparr> um_user_id = uid,
                   um_user_total_orders = sql_max (map (\<lambda>r. Some (oj_order_number r)) g),
                   um_avg_days_between_orders = sql_avg (map oj_days_since_prior_order g),
                   um_var_days_between_orders = sql_var_samp (map oj_days_since_prior_order g),
                   um_typical_order_hour =
                     sql_median (map (\<lambda>r. Some (of_int (oj_order_hour_of_day r))) g),
                   um_preferred_order_day = sql_mode (map (\<lambda>r. Some (oj_order_dow r)) g),
                   um_avg_order_hour = sql_avg (map (\<lambda>r. Some (of_int (oj_order_hour_of_day r))) g),
                   um_avg_basket_size = sql_avg (map (\<lambda>r. Some (of_int (oj_basket_size r))) g),
                   um_total_items_ordered = sql_sum (map (\<lambda>r. Some (oj_basket_size r)) g),
                   um_total_orders = sql_count_distinct (map (\<lambda>r. Some (oj_order_id r)) g),
                   um_overall_reorder_rate = rate \<rparr>))"

text \<open>The model groups the joined orders from \<open>min_orders\<close> on by user.  The rows of a
  group reach its aggregates in the order in which the engine takes them up; only \<open>mode\<close>
  depends on it.\<close>

definition int_instacart__user_order_metrics ::
  "engine \<Rightarrow> vars \<Rightarrow> instacart_raw \<Rightarrow> sql_error + user_metrics_row list" where
  "int_instacart__user_order_metrics eng v db =
     sequence_rows (map user_metrics_group
       (group_by oj_user_id
          (arrange (eng Preferred_day_mode)
             (filter (\<lambda>r. oj_order_number r \<ge> var_min_orders v) (orders_joined v db)))))"

subsection \<open>\<open>int_instacart__product_metrics\<close>\<close>

record product_metrics_row =
  pm_product_id :: int
  pm_aisle_id :: int
  pm_department_id :: int
  pm_product_orders :: int
  pm_product_reorders :: int
  pm_product_reorder_rate :: "rat option"
  pm_product_avg_cart_position :: "rat option"

definition product_metrics_group ::
  "(int \<times> int \<times> int) \<times> ((order_product_row \<times> order_row) \<times> product_row) list
     \<Rightarrow> sql_error + product_metrics_row" where
  "product_metrics_group kg =
     (case kg of ((pid, aid, did), g) \<Rightarrow>
        (case sql_div (rat_of (sum_case (\<lambda>(j, p). op_is_reordered (fst j) = 1) g))
                      (rat_of (sql_count_distinct (map (\<lambda>(j, p). Some (op_order_id (fst j))) g))) of
           Inl e \<Rightarrow> Inl e
         | Inr rate \<Rightarrow>
             Inr \<lparr> pm_product_id = pid, pm_aisle_id = aid, pm_department_id = did,
                   pm_product_orders =
                     sql_count_distinct (map (\<lambda>(j, p). Some (op_order_id (fst j))) g),
                   pm_product_reorders = sum_case (\<lambda>(j, p). op_is_reordered (fst j) = 1) g,
                   pm_product_reorder_rate = rate,
                   pm_product_avg_cart_position =
                     sql_avg (map (\<lambda>(j, p). Some (of_int (op_cart_position (fst j)))) g) \<rparr>))"

definition int_instacart__product_metrics ::
  "vars \<Rightarrow> instacart_raw \<Rightarrow> sql_error + product_metrics_row list" where
  "int_instacart__product_metrics v db =
     sequence_rows (map product_metrics_group
       (group_by (\<lambda>(j, p). (op_product_id (fst j), p_aisle_id p, p_department_id p))
          (inner_join
             (inner_join (stg_instacart__order_products db) (orders_in_eval_set v db)
                (\<lambda>ol od. op_order_id ol = o_order_id od))
             (stg_instacart__products db)
             (\<lambda>j p. op_product_id (fst j) = p_product_id p))))"

subsection \<open>\<open>int_instacart__user_product_metrics\<close>\<close>

record user_product_metrics_row =
  upm_user_id :: int
  upm_product_id :: int
  upm_up_orders :: int
  upm_up_last_order_id :: "int option"
  upm_up_sum_pos_in_cart :: "int option"
  upm_up_avg_cart_position :: "rat option"
  upm_up_last_order_hour :: "int option"
  upm_up_orders_ratio :: "rat option"
  upm_up_orders_since_last :: "int option"
  upm_up_delta_hour_vs_last :: "int option"

text \<open>CTE \<open>user_orders\<close>: \<open>orders o inner join order_products op\<close>.\<close>

definition user_orders :: "vars \<Rightarrow> instacart_raw \<Rightarrow> (order_row \<times> order_product_row) list" where
  "user_orders v db =
     inner_join (orders_in_eval_set v db) (stg_instacart__order_products db)
       (\<lambda>od ol. o_order_id od = op_order_id ol)"

definition int_instacart__user_product_metrics ::
  "vars \<Rightarrow> instacart_raw \<Rightarrow> user_product_metrics_row list" where
  "int_instacart__user_product_metrics v db =
     map (\<lambda>(k, g).
            \<lparr> upm_user_id = fst k, upm_product_id = snd k,
              upm_up_orders = sql_count_distinct (map (\<lambda>(od, ol). Some (o_order_id od)) g),
              upm_up_last_order_id = sql_max (map (\<lambda>(od, ol). Some (o_order_number od)) g),
              upm_up_sum_pos_in_cart = sql_sum (map (\<lambda>(od, ol). Some (op_cart_position ol)) g),
              upm_up_avg_cart_position =
                sql_avg (map (\<lambda>(od, ol). Some (of_int (op_cart_position ol))) g),
              upm_up_last_order_hour = sql_max (map (\<lambda>(od, ol). Some (o_order_hour_of_day od)) g),
              upm_up_orders_ratio =
                ratio_nullif (rat_of (sql_count_distinct (map (\<lambda>(od, ol). Some (o_order_id od)) g)))
                  (map_option of_int (sql_max (map (\<lambda>(od, ol). Some (o_order_number od)) g))),
              upm_up_orders_since_last = sql_max (map (\<lambda>(od, ol). Some (o_order_number od)) g),
              upm_up_delta_hour_vs_last =
                map_option abs
                  (sql_minus (sql_max (map (\<lambda>(od, ol). Some (o_order_hour_of_day od)) g))
                             (sql_min (map (\<lambda>(od, ol). Some (o_order_hour_of_day od)) g))) \<rparr>)
       (group_by (\<lambda>(od, ol). (o_user_id od, op_product_id ol)) (user_orders v db))"


section \<open>User features (\<open>instacart__user_features\<close>)\<close>

text \<open>In this model the CTE \<open>orders\<close> is the whole staged table; each CTE that reads it
  filters on the evaluation partition in its own WHERE clause.\<close>

record last_orders_row =
  lo_user_id :: int
  lo_order_id :: int
  lo_order_number :: int
  lo_order_dow :: int
  lo_order_hour_of_day :: int
  lo_days_since_prior_order :: "rat option"
  lo_rn :: nat

definition last_orders :: "engine \<Rightarrow> vars \<Rightarrow> instacart_raw \<Rightarrow> last_orders_row list" where
  "last_orders eng v db =
     map (\<lambda>(od, n).
            \<lparr> lo_user_id = o_user_id od, lo_order_id = o_order_id od,
              lo_order_number = o_order_number od, lo_order_dow = o_order_dow od,
              lo_order_hour_of_day = o_order_hour_of_day od,
              lo_days_since_prior_order = o_days_since_prior_order od, lo_rn = n \<rparr>)
       (concat (map row_number
          (window_partitions (eng Last_order_window) o_user_id (\<lambda>od. - o_order_number od)
             (filter (\<lambda>od. o_eval_set od = var_eval_set v) (stg_instacart__orders db)))))"

definition last_order_per_user :: "engine \<Rightarrow> vars \<Rightarrow> instacart_raw \<Rightarrow> last_orders_row list" where
  "last_order_per_user eng v db = filter (\<lambda>r. lo_rn r = 1) (last_orders eng v db)"

record distinct_products_row =
  dp_user_id :: int
  dp_distinct_products_count :: int

definition distinct_products :: "vars \<Rightarrow> instacart_raw \<Rightarrow> distinct_products_row list" where
  "distinct_products v db =
     map (\<lambda>(k, g).
            \<lparr> dp_user_id = k,
              dp_distinct_products_count =
                sql_count_distinct (map (\<lambda>(od, ol). Some (op_product_id ol)) g) \<rparr>)
       (group_by (\<lambda>(od, ol). o_user_id od)
          (filter (\<lambda>(od, ol). o_eval_set od = var_eval_set v)
             (inner_join (stg_instacart__orders db) (stg_instacart__order_products db)
                (\<lambda>od ol. o_order_id od = op_order_id ol))))"

record reorder_stats_row =
  rs_user_id :: int
  rs_total_reordered_products :: "int option"
  rs_reorder_rate :: "rat option"

definition reorder_stats :: "vars \<Rightarrow> instacart_raw \<Rightarrow> reorder_stats_row list" where
  "reorder_stats v db =
     map (\<lambda>(k, g).
            \<lparr> rs_user_id = k,
              rs_total_reordered_products = sql_sum (map (\<lambda>(od, ol). Some (op_is_reordered ol)) g),
              rs_reorder_rate =
                ratio_nullif
                  (map_option of_int (sql_sum (map (\<lambda>(od, ol). Some (op_is_reordered ol)) g)))
                  (rat_of (sql_count (map (\<lambda>(od, ol). Some (op_product_id ol)) g))) \<rparr>)
       (group_by (\<lambda>(od, ol). o_user_id od)
          (filter (\<lambda>(od, ol). o_eval_set od = var_eval_set v)
             (inner_join (stg_instacart__orders db) (stg_instacart__order_products db)
                (\<lambda>od ol. o_order_id od = op_order_id ol))))"

record user_features_row =
  uf_user_id :: int
  uf_user_total_orders :: "int option"
  uf_avg_days_between_orders :: "rat option"
  uf_var_days_between_orders :: "rat option"
  uf_typical_order_hour :: "rat option"
  uf_preferred_order_day :: "int option"
  uf_avg_order_hour :: "rat option"
  uf_avg_basket_size :: "rat option"
  uf_total_items_ordered :: "int option"
  uf_distinct_products_count :: int
  uf_avg_unique_products_per_order :: "rat option"
  uf_total_reordered_products :: "int option"
  uf_reorder_rate :: "rat option"
  uf_last_order_dow :: int
  uf_last_order_hour :: int
  uf_last_order_days_since_prior :: "rat option"

definition user_features_final ::
  "((user_metrics_row \<times> distinct_products_row) \<times> reorder_stats_row) \<times> last_orders_row
     \<Rightarrow> user_features_row" where
  "user_features_final j =
     (case j of (((um, dp), rs), lo) \<Rightarrow>
        \<lparr> uf_user_id = um_user_id um,
          uf_user_total_orders = um_user_total_orders um,
          uf_avg_days_between_orders = um_avg_days_between_orders um,
          uf_var_days_between_orders = um_var_days_between_orders um,
          uf_typical_order_hour = um_typical_order_hour um,
          uf_preferred_order_day = um_preferred_order_day um,
          uf_avg_order_hour = um_avg_order_hour um,
          uf_avg_basket_size = um_avg_basket_size um,
          uf_total_items_ordered = um_total_items_ordered um,
          uf_distinct_products_count = dp_distinct_products_count dp,
          uf_avg_unique_products_per_order =
            ratio_nullif (rat_of (dp_distinct_products_count dp)) (rat_of (um_total_orders um)),
          uf_total_reordered_products = rs_total_reordered_products rs,
          uf_reorder_rate = rs_reorder_rate rs,
          uf_last_order_dow = lo_order_dow lo,
          uf_last_order_hour = lo_order_hour_of_day lo,
          uf_last_order_days_since_prior = lo_days_since_prior_order lo \<rparr>)"

definition instacart__user_features ::
  "engine \<Rightarrow> vars \<Rightarrow> instacart_raw \<Rightarrow> sql_error + user_features_row list" where
  "instacart__user_features eng v db =
     bind_rows (int_instacart__user_order_metrics eng v db) (\<lambda>user_metrics.
       Inr (map user_features_final
         (inner_join
            (inner_join
               (inner_join user_metrics (distinct_products v db)
                  (\<lambda>um dp. um_user_id um = dp_user_id dp))
               (reorder_stats v db)
               (\<lambda>j rs. um_user_id (fst j) = rs_user_id rs))
            (last_order_per_user eng v db)
            (\<lambda>j lo. um_user_id (fst (fst j)) = lo_user_id lo))))"

section \<open>Product features (\<open>instacart__product_features\<close>)\<close>

text \<open>\<open>row_number() over (partition by ... order by product_orders desc)\<close>: the only
  ordering key is \<open>product_orders\<close>; the order of tied products is the engine's.\<close>

definition department_rankings :: "engine \<Rightarrow> product_metrics_row list \<Rightarrow> (product_metrics_row \<times> nat) list" where
  "department_rankings eng product_metrics =
     concat (map row_number
       (window_partitions (eng Department_rank_window) pm_department_id (\<lambda>pm. - pm_product_orders pm) product_metrics))"

definition aisle_rankings :: "engine \<Rightarrow> product_metrics_row list \<Rightarrow> (product_metrics_row \<times> nat) list" where
  "aisle_rankings eng product_metrics =
     concat (map row_number
       (window_partitions (eng Aisle_rank_window) pm_aisle_id (\<lambda>pm. - pm_product_orders pm) product_metrics))"

record product_peak_row =
  pp_product_id :: int
  pp_peak :: int
  pp_orders_in :: int
  pp_rn :: nat

text \<open>CTEs \<open>product_peak_hours\<close> and \<open>product_peak_days\<close> differ only in the order column
  they group on (\<open>order_hour_of_day\<close> or \<open>order_dow\<close>).  First the grouped select: lines
  joined to the orders of the evaluation partition, with \<open>count(*)\<close> per (product, value).\<close>

definition product_value_counts ::
  "(order_row \<Rightarrow> int) \<Rightarrow> vars \<Rightarrow> instacart_raw \<Rightarrow> ((int \<times> int) \<times> int) list" where
  "product_value_counts col v db =
     map (\<lambda>(k, g). (k, int (length g)))
       (group_by (\<lambda>(ol, od). (op_product_id ol, col od))
          (filter (\<lambda>(ol, od). o_eval_set od = var_eval_set v)
             (inner_join (stg_instacart__order_products db) (stg_instacart__orders db)
                (\<lambda>ol od. op_order_id ol = o_order_id od))))"

text \<open>Then \<open>row_number() over (partition by op.product_id order by count(*) desc)\<close> over
  the grouped rows, and \<open>qualify rn = 1\<close>.\<close>

definition product_peaks ::
  "(nat \<Rightarrow> int) \<Rightarrow> (order_row \<Rightarrow> int) \<Rightarrow> vars \<Rightarrow> instacart_raw \<Rightarrow> product_peak_row list" where
  "product_peaks rank col v db =
     filter (\<lambda>r. pp_rn r = 1)
       (map (\<lambda>((k, c), n). \<lparr> pp_product_id = fst k, pp_peak = snd k, pp_orders_in = c, pp_rn = n \<rparr>)
          (concat (map row_number
             (window_partitions rank (\<lambda>(k, c). fst k) (\<lambda>(k, c). - c)
                (product_value_counts col v db)))))"

definition product_peak_hours :: "engine \<Rightarrow> vars \<Rightarrow> instacart_raw \<Rightarrow> product_peak_row list" where
  "product_peak_hours eng = product_peaks (eng Peak_hour_window) o_order_hour_of_day"

definition product_peak_days :: "engine \<Rightarrow> vars \<Rightarrow> instacart_raw \<Rightarrow> product_peak_row list" where
  "product_peak_days eng = product_peaks (eng Peak_day_window) o_order_dow"

record department_stats_row =
  ds_department_id :: int
  ds_avg_dept_orders :: "rat option"
  ds_avg_dept_reorder_rate :: "rat option"

definition department_stats :: "product_metrics_row list \<Rightarrow> department_stats_row list" where
  "department_stats product_metrics =
     map (\<lambda>(k, g).
            \<lparr> ds_department_id = k,
              ds_avg_dept_orders = sql_avg (map (\<lambda>pm. Some (of_int (pm_product_orders pm))) g),
              ds_avg_dept_reorder_rate = sql_avg (map pm_product_reorder_rate g) \<rparr>)
       (group_by pm_department_id product_metrics)"

record product_features_row =
  pf_product_id :: int
  pf_product_name :: string
  pf_aisle_id :: int
  pf_aisle_name :: string
  pf_department_id :: int
  pf_department_name :: string
  pf_product_orders :: int
  pf_product_reorders :: int
  pf_product_reorder_rate :: "rat option"
  pf_product_avg_cart_position :: "rat option"
  pf_department_popularity_rank :: nat
  pf_aisle_popularity_rank :: nat
  pf_peak_hour :: "int option"
  pf_peak_day :: "int option"
  pf_department_order_ratio :: "rat option"
  pf_department_reorder_ratio :: "rat option"

text \<open>The joined row of the final select, in join order: \<open>p\<close>, \<open>pm\<close>, \<open>a\<close>, \<open>d\<close>, \<open>dr\<close>,
  \<open>ar\<close>, \<open>ds\<close>, then the two left joins \<open>pph\<close> and \<open>ppd\<close>.\<close>

type_synonym product_features_join =
  "(((((((product_row \<times> product_metrics_row) \<times> aisle_row) \<times> department_row)
        \<times> (product_metrics_row \<times> nat)) \<times> (product_metrics_row \<times> nat)) \<times> department_stats_row)
      \<times> product_peak_row option) \<times> product_peak_row option"

definition product_features_final :: "product_features_join \<Rightarrow> product_features_row" where
  "product_features_final j =
     (case j of ((((((((p, pm), a), d), dr), ar), ds), pph), ppd) \<Rightarrow>
        \<lparr> pf_product_id = p_product_id p, pf_product_name = p_product_name p,
          pf_aisle_id = a_aisle_id a, pf_aisle_name = a_aisle_name a,
          pf_department_id = d_department_id d, pf_department_name = d_department_name d,
          pf_product_orders = pm_product_orders pm,
          pf_product_reorders = pm_product_reorders pm,
          pf_product_reorder_rate = pm_product_reorder_rate pm,
          pf_product_avg_cart_position = pm_product_avg_cart_position pm,
          pf_department_popularity_rank = snd dr,
          pf_aisle_popularity_rank = snd ar,
          pf_peak_hour = map_option pp_peak pph,
          pf_peak_day = map_option pp_peak ppd,
          pf_department_order_ratio =
            ratio_nullif (rat_of (pm_product_orders pm)) (ds_avg_dept_orders ds),
          pf_department_reorder_ratio =
            ratio_nullif (pm_product_reorder_rate pm) (ds_avg_dept_reorder_rate ds) \<rparr>)"

definition product_features_joins ::
  "engine \<Rightarrow> vars \<Rightarrow> instacart_raw \<Rightarrow> product_metrics_row list \<Rightarrow> product_features_join list" where
  "product_features_joins eng v db product_metrics =
     left_join
       (left_join
          (inner_join
             (inner_join
                (inner_join
                   (inner_join
                      (inner_join
                         (inner_join (stg_instacart__products db) product_metrics
                            (\<lambda>p pm. p_product_id p = pm_product_id pm))
                         (stg_instacart__aisles db)
                         (\<lambda>(p, pm) a. p_aisle_id p = a_aisle_id a))
                      (stg_instacart__departments db)
                      (\<lambda>((p, pm), a) d. p_department_id p = d_department_id d))
                   (department_rankings eng product_metrics)
                   (\<lambda>(((p, pm), a), d) dr. p_product_id p = pm_product_id (fst dr)))
                (aisle_rankings eng product_metrics)
                (\<lambda>((((p, pm), a), d), dr) ar. p_product_id p = pm_product_id (fst ar)))
             (department_stats product_metrics)
             (\<lambda>(((((p, pm), a), d), dr), ar) ds. p_department_id p = ds_department_id ds))
          (product_peak_hours eng v db)
          (\<lambda>((((((p, pm), a), d), dr), ar), ds) pph. p_product_id p = pp_product_id pph))
       (product_peak_days eng v db)
       (\<lambda>(((((((p, pm), a), d), dr), ar), ds), pph) ppd. p_product_id p = pp_product_id ppd)"

definition instacart__product_features ::
  "engine \<Rightarrow> vars \<Rightarrow> instacart_raw \<Rightarrow> sql_error + product_features_row list" where
  "instacart__product_features eng v db =
     bind_rows (int_instacart__product_metrics v db) (\<lambda>product_metrics.
       Inr (map product_features_final (product_features_joins eng v db product_metrics)))"


section \<open>User-product features (\<open>instacart__user_product_features\<close>)\<close>

record user_product_recency_row =
  upr_user_id :: int
  upr_product_id :: int
  upr_order_number :: int
  upr_rn :: nat

definition user_product_recency :: "engine \<Rightarrow> vars \<Rightarrow> instacart_raw \<Rightarrow> user_product_recency_row list" where
  "user_product_recency eng v db =
     map (\<lambda>((od, ol), n).
            \<lparr> upr_user_id = o_user_id od, upr_product_id = op_product_id ol,
              upr_order_number = o_order_number od, upr_rn = n \<rparr>)
       (concat (map row_number
          (window_partitions (eng Purchase_recency_window) (\<lambda>(od, ol). (o_user_id od, op_product_id ol))
             (\<lambda>(od, ol). - o_order_number od)
             (inner_join (orders_in_eval_set v db) (stg_instacart__order_products db)
                (\<lambda>od ol. o_order_id od = op_order_id ol)))))"

record last_purchase_row =
  lp_user_id :: int
  lp_product_id :: int
  lp_last_purchase_order_number :: int

definition last_purchase :: "engine \<Rightarrow> vars \<Rightarrow> instacart_raw \<Rightarrow> last_purchase_row list" where
  "last_purchase eng v db =
     map (\<lambda>r. \<lparr> lp_user_id = upr_user_id r, lp_product_id = upr_product_id r,
                lp_last_purchase_order_number = upr_order_number r \<rparr>)
       (filter (\<lambda>r. upr_rn r = 1) (user_product_recency eng v db))"

record user_product_time_patterns_row =
  uptp_user_id :: int
  uptp_product_id :: int
  uptp_dow_0_purchases :: int
  uptp_dow_1_purchases :: int
  uptp_dow_2_purchases :: int
  uptp_dow_3_purchases :: int
  uptp_dow_4_purchases :: int
  uptp_dow_5_purchases :: int
  uptp_dow_6_purchases :: int
  uptp_morning_purchases :: int
  uptp_midday_purchases :: int
  uptp_evening_purchases :: int
  uptp_night_purchases :: int

definition user_product_time_patterns ::
  "vars \<Rightarrow> instacart_raw \<Rightarrow> user_product_time_patterns_row list" where
  "user_product_time_patterns v db =
     map (\<lambda>(k, g).
            \<lparr> uptp_user_id = fst k, uptp_product_id = snd k,
              uptp_dow_0_purchases = sum_case (\<lambda>(od, ol). o_order_dow od = 0) g,
              uptp_dow_1_purchases = sum_case (\<lambda>(od, ol). o_order_dow od = 1) g,
              uptp_dow_2_purchases = sum_case (\<lambda>(od, ol). o_order_dow od = 2) g,
              uptp_dow_3_purchases = sum_case (\<lambda>(od, ol). o_order_dow od = 3) g,
              uptp_dow_4_purchases = sum_case (\<lambda>(od, ol). o_order_dow od = 4) g,
              uptp_dow_5_purchases = sum_case (\<lambda>(od, ol). o_order_dow od = 5) g,
              uptp_dow_6_purchases = sum_case (\<lambda>(od, ol). o_order_dow od = 6) g,
              uptp_morning_purchases =
                sum_case (\<lambda>(od, ol). between (o_order_hour_of_day od) 5 9) g,
              uptp_midday_purchases =
                sum_case (\<lambda>(od, ol). between (o_order_hour_of_day od) 10 14) g,
              uptp_evening_purchases =
                sum_case (\<lambda>(od, ol). between (o_order_hour_of_day od) 15 19) g,
              uptp_night_purchases =
                sum_case (\<lambda>(od, ol). o_order_hour_of_day od \<ge> 20 \<or> o_order_hour_of_day od < 5) g \<rparr>)
       (group_by (\<lambda>(od, ol). (o_user_id od, op_product_id ol))
          (inner_join (orders_in_eval_set v db) (stg_instacart__order_products db)
             (\<lambda>od ol. o_order_id od = op_order_id ol)))"

record user_product_normalized_row =
  upn_user_id :: int
  upn_product_id :: int
  upn_up_orders :: int
  upn_user_relative_frequency :: "rat option"
  upn_product_relative_frequency :: "rat option"
  upn_relative_cart_position :: "rat option"

text \<open>CTEs \<open>user_avg_stats\<close> and \<open>product_features\<close> project the upstream feature tables
  on the columns the normalisation reads.\<close>

definition user_avg_stats :: "user_features_row list \<Rightarrow> (int \<times> rat option) list" where
  "user_avg_stats user_features = map (\<lambda>uf. (uf_user_id uf, uf_avg_basket_size uf)) user_features"

definition product_features_cte :: "product_features_row list \<Rightarrow> (int \<times> int \<times> rat option) list" where
  "product_features_cte product_features =
     map (\<lambda>pf. (pf_product_id pf, pf_product_orders pf, pf_product_reorder_rate pf)) product_features"

definition user_product_normalized ::
  "user_product_metrics_row list \<Rightarrow> user_features_row list \<Rightarrow> (int \<times> int \<times> rat option) list
     \<Rightarrow> user_product_normalized_row list" where
  "user_product_normalized user_product_metrics user_features product_features =
     map (\<lambda>((upm, uas), pf).
            \<lparr> upn_user_id = upm_user_id upm, upn_product_id = upm_product_id upm,
              upn_up_orders = upm_up_orders upm,
              upn_user_relative_frequency = ratio_nullif (rat_of (upm_up_orders upm)) (snd uas),
              upn_product_relative_frequency =
                ratio_nullif (rat_of (upm_up_orders upm)) (rat_of (fst (snd pf))),
              upn_relative_cart_position = ratio_nullif (upm_up_avg_cart_position upm) (snd uas) \<rparr>)
       (inner_join
          (inner_join user_product_metrics (user_avg_stats user_features)
             (\<lambda>upm uas. upm_user_id upm = fst uas))
          product_features
          (\<lambda>j pf. upm_product_id (fst j) = fst pf))"

text \<open>\<open>greatest(x, ...)\<close> of non-NULL integers, and the two \<open>case greatest(...) when ...\<close>
  chains of \<open>dominant_day_parts\<close> and \<open>dominant_dows\<close>.\<close>

definition greatest :: "int \<Rightarrow> int list \<Rightarrow> int" where
  "greatest x xs = fold max xs x"

definition dominant_day_part :: "int \<Rightarrow> int \<Rightarrow> int \<Rightarrow> int \<Rightarrow> string" where
  "dominant_day_part morning midday evening night =
     (if greatest morning [midday, evening, night] = morning then ''morning''
      else if greatest morning [midday, evening, night] = midday then ''midday''
      else if greatest morning [midday, evening, night] = evening then ''evening''
      else ''night'')"

definition dominant_dow :: "int \<Rightarrow> int \<Rightarrow> int \<Rightarrow> int \<Rightarrow> int \<Rightarrow> int \<Rightarrow> int \<Rightarrow> int" where
  "dominant_dow d0 d1 d2 d3 d4 d5 d6 =
     (if greatest d0 [d1, d2, d3, d4, d5, d6] = d0 then 0
      else if greatest d0 [d1, d2, d3, d4, d5, d6] = d1 then 1
      else if greatest d0 [d1, d2, d3, d4, d5, d6] = d2 then 2
      else if greatest d0 [d1, d2, d3, d4, d5, d6] = d3 then 3
      else if greatest d0 [d1, d2, d3, d4, d5, d6] = d4 then 4
      else if greatest d0 [d1, d2, d3, d4, d5, d6] = d5 then 5
      else 6)"

record dominant_day_parts_row =
  ddp_user_id :: int
  ddp_product_id :: int
  ddp_dominant_day_part :: string

definition dominant_day_parts :: "vars \<Rightarrow> instacart_raw \<Rightarrow> dominant_day_parts_row list" where
  "dominant_day_parts v db =
     map (\<lambda>r. \<lparr> ddp_user_id = uptp_user_id r, ddp_product_id = uptp_product_id r,
                ddp_dominant_day_part =
                  dominant_day_part (uptp_morning_purchases r) (uptp_midday_purchases r)
                    (uptp_evening_purchases r) (uptp_night_purchases r) \<rparr>)
       (user_product_time_patterns v db)"

record dominant_dows_row =
  dd_user_id :: int
  dd_product_id :: int
  dd_dominant_dow :: int

definition dominant_dows :: "vars \<Rightarrow> instacart_raw \<Rightarrow> dominant_dows_row list" where
  "dominant_dows v db =
     map (\<lambda>r. \<lparr> dd_user_id = uptp_user_id r, dd_product_id = uptp_product_id r,
                dd_dominant_dow =
                  dominant_dow (uptp_dow_0_purchases r) (uptp_dow_1_purchases r)
                    (uptp_dow_2_purchases r) (uptp_dow_3_purchases r) (uptp_dow_4_purchases r)
                    (uptp_dow_5_purchases r) (uptp_dow_6_purchases r) \<rparr>)
       (user_product_time_patterns v db)"

text \<open>\<open>concat(user_id, '_', product_id)\<close>: the integers are cast to their decimal text.\<close>

definition digit_char :: "nat \<Rightarrow> char" where
  "digit_char d = ''0123456789'' ! d"

fun string_of_nat :: "nat \<Rightarrow> string" where
  "string_of_nat n =
     (if n < 10 then [digit_char n] else string_of_nat (n div 10) @ [digit_char (n mod 10)])"

declare string_of_nat.simps [simp del]

definition to_varchar :: "int \<Rightarrow> string" where
  "to_varchar i = (if i < 0 then CHR ''-'' # string_of_nat (nat (- i)) else string_of_nat (nat i))"

record user_product_features_row =
  upf_user_id :: int
  upf_product_id :: int
  upf_user_product_id :: string
  upf_up_orders :: int
  upf_up_last_order_id :: "int option"
  upf_up_sum_pos_in_cart :: "int option"
  upf_up_avg_cart_position :: "rat option"
  upf_up_last_order_hour :: "int option"
  upf_up_orders_ratio :: "rat option"
  upf_up_orders_since_last :: "int option"
  upf_up_delta_hour_vs_last :: "int option"
  upf_last_purchase_order_number :: "int option"
  upf_orders_since_last_purchase :: "int option"
  upf_dow_0_purchases :: "int option"
  upf_dow_1_purchases :: "int option"
  upf_dow_2_purchases :: "int option"
  upf_dow_3_purchases :: "int option"
  upf_dow_4_purchases :: "int option"
  upf_dow_5_purchases :: "int option"
  upf_dow_6_purchases :: "int option"
  upf_morning_purchases :: "int option"
  upf_midday_purchases :: "int option"
  upf_evening_purchases :: "int option"
  upf_night_purchases :: "int option"
  upf_dominant_day_part :: "string option"
  upf_dominant_dow :: "int option"
  upf_user_relative_frequency :: "rat option"
  upf_product_relative_frequency :: "rat option"
  upf_relative_cart_position :: "rat option"

text \<open>The joined row of the final select, in join order: \<open>upm\<close>, \<open>uf\<close>, \<open>pf\<close>, then the
  left joins \<open>lp\<close>, \<open>uptp\<close>, \<open>upn\<close>, \<open>ddp\<close>, \<open>dd\<close>.\<close>

type_synonym user_product_features_join =
  "((((((user_product_metrics_row \<times> user_features_row) \<times> (int \<times> int \<times> rat option))
        \<times> last_purchase_row option) \<times> user_product_time_patterns_row option)
      \<times> user_product_normalized_row option) \<times> dominant_day_parts_row option)
    \<times> dominant_dows_row option"

definition user_product_features_final :: "user_product_features_join \<Rightarrow> user_product_features_row" where
  "user_product_features_final j =
     (case j of (((((((upm, uf), pf), lp), uptp), upn), ddp), dd) \<Rightarrow>
        \<lparr> upf_user_id = upm_user_id upm, upf_product_id = upm_product_id upm,
          upf_user_product_id =
            to_varchar (upm_user_id upm) @ ''_'' @ to_varchar (upm_product_id upm),
          upf_up_orders = upm_up_orders upm,
          upf_up_last_order_id = upm_up_last_order_id upm,
          upf_up_sum_pos_in_cart = upm_up_sum_pos_in_cart upm,
          upf_up_avg_cart_position = upm_up_avg_cart_position upm,
          upf_up_last_order_hour = upm_up_last_order_hour upm,
          upf_up_orders_ratio = upm_up_orders_ratio upm,
          upf_up_orders_since_last = upm_up_orders_since_last upm,
          upf_up_delta_hour_vs_last = upm_up_delta_hour_vs_last upm,
          upf_last_purchase_order_number = map_option lp_last_purchase_order_number lp,
          upf_orders_since_last_purchase =
            sql_minus (uf_user_total_orders uf) (map_option lp_last_purchase_order_number lp),
          upf_dow_0_purchases = map_option uptp_dow_0_purchases uptp,
          upf_dow_1_purchases = map_option uptp_dow_1_purchases uptp,
          upf_dow_2_purchases = map_option uptp_dow_2_purchases uptp,
          upf_dow_3_purchases = map_option uptp_dow_3_purchases uptp,
          upf_dow_4_purchases = map_option uptp_dow_4_purchases uptp,
          upf_dow_5_purchases = map_option uptp_dow_5_purchases uptp,
          upf_dow_6_purchases = map_option uptp_dow_6_purchases uptp,
          upf_morning_purchases = map_option uptp_morning_purchases uptp,
          upf_midday_purchases = map_option uptp_midday_purchases uptp,
          upf_evening_purchases = map_option uptp_evening_purchases uptp,
          upf_night_purchases = map_option uptp_night_purchases uptp,
          upf_dominant_day_part = map_option ddp_dominant_day_part ddp,
          upf_dominant_dow = map_option dd_dominant_dow dd,
          upf_user_relative_frequency = Option.bind upn upn_user_relative_frequency,
          upf_product_relative_frequency = Option.bind upn upn_product_relative_frequency,
          upf_relative_cart_position = Option.bind upn upn_relative_cart_position \<rparr>)"

definition user_product_features_joins ::
  "engine \<Rightarrow> vars \<Rightarrow> instacart_raw \<Rightarrow> user_features_row list \<Rightarrow> (int \<times> int \<times> rat option) list
     \<Rightarrow> user_product_features_join list" where
  "user_product_features_joins eng v db user_features product_features =
     left_join
       (left_join
          (left_join
             (left_join
                (left_join
                   (inner_join
                      (inner_join (int_instacart__user_product_metrics v db) user_features
                         (\<lambda>upm uf. upm_user_id upm = uf_user_id uf))
                      product_features
                      (\<lambda>(upm, uf) pf. upm_product_id upm = fst pf))
                   (last_purchase eng v db)
                   (\<lambda>((upm, uf), pf) lp.
                      upm_user_id upm = lp_user_id lp \<and> upm_product_id upm = lp_product_id lp))
                (user_product_time_patterns v db)
                (\<lambda>(((upm, uf), pf), lp) uptp.
                   upm_user_id upm = uptp_user_id uptp \<and> upm_product_id upm = uptp_product_id uptp))
             (user_product_normalized (int_instacart__user_product_metrics v db) user_features
                product_features)
             (\<lambda>((((upm, uf), pf), lp), uptp) upn.
                upm_user_id upm = upn_user_id upn \<and> upm_product_id upm = upn_product_id upn))
          (dominant_day_parts v db)
          (\<lambda>(((((upm, uf), pf), lp), uptp), upn) ddp.
             upm_user_id upm = ddp_user_id ddp \<and> upm_product_id upm = ddp_product_id ddp))
       (dominant_dows v db)
       (\<lambda>((((((upm, uf), pf), lp), uptp), upn), ddp) dd.
          upm_user_id upm = dd_user_id dd \<and> upm_product_id upm = dd_product_id dd)"

definition instacart__user_product_features ::
  "engine \<Rightarrow> vars \<Rightarrow> instacart_raw \<Rightarrow> sql_error + user_product_features_row list" where
  "instacart__user_product_features eng v db =
     bind_rows (instacart__user_features eng v db) (\<lambda>user_features.
       bind_rows (instacart__product_features eng v db) (\<lambda>product_features.
         Inr (map user_product_features_final
                (user_product_features_joins eng v db user_features
                   (product_features_cte product_features)))))"


section \<open>Window aggregation macro (\<open>calculate_time_window_aggs\<close>)\<close>

text \<open>
  The macro renders one query from its parameters.  A row of the base relation gives a
  nullable number to every column name; a date or timestamp is its day number, possibly
  with a fraction for the time of day.  The group columns, the metrics and the timestamp
  column are names of columns of the relation.  \<open>current_date()\<close> is read when the
  rendered statement runs, so the day number it returns is a parameter of the model.

  The template builds the names of the statement by concatenation: the CTE of a window
  \<open>W\<close> is \<open>window_W\<close>, and the aggregates of a metric \<open>m\<close> in it are aliased \<open>m_W_day\<close> and
  \<open>avg_m_W_day\<close>, with \<open>W\<close> printed as a decimal integer.
\<close>

type_synonym sql_row = "string \<Rightarrow> rat option"

definition cte_name :: "int \<Rightarrow> string" where
  "cte_name window = ''window_'' @ to_varchar window"

definition sum_alias :: "string \<Rightarrow> int \<Rightarrow> string" where
  "sum_alias metric window = metric @ ''_'' @ to_varchar window @ ''_day''"

definition avg_alias :: "string \<Rightarrow> int \<Rightarrow> string" where
  "avg_alias metric window = ''avg_'' @ metric @ ''_'' @ to_varchar window @ ''_day''"

text \<open>A row of a window CTE: the values of the group columns, in the order of
  \<open>group_by_cols\<close>, then the aliased aggregates in the order of the select list.\<close>

type_synonym window_row = "rat option list \<times> (string \<times> rat option) list"

definition datediff_day :: "rat \<Rightarrow> int \<Rightarrow> int" where
  "datediff_day ts cur = cur - \<lfloor>ts\<rfloor>"

text \<open>The WHERE clause of a window CTE; a NULL timestamp does not satisfy it.\<close>

definition in_window :: "int \<Rightarrow> string \<Rightarrow> int \<Rightarrow> sql_row \<Rightarrow> bool" where
  "in_window current_date timestamp_col window r =
     (case r timestamp_col of None \<Rightarrow> False | Some ts \<Rightarrow> datediff_day ts current_date \<le> window)"

text \<open>CTE \<open>window_W\<close>.\<close>

definition window_cte ::
  "int \<Rightarrow> sql_row list \<Rightarrow> string list \<Rightarrow> string \<Rightarrow> string list \<Rightarrow> int \<Rightarrow> window_row list" where
  "window_cte current_date source_data group_by_cols timestamp_col metric_cols window =
     map (\<lambda>(k, g).
            (k, concat (map (\<lambda>metric.
                  [(sum_alias metric window, sql_sum (map (\<lambda>r. r metric) g)),
                   (avg_alias metric window, sql_avg (map (\<lambda>r. r metric) g))]) metric_cols)))
       (group_by (\<lambda>r. map r group_by_cols)
          (filter (in_window current_date timestamp_col window) source_data))"

text \<open>A reference \<open>window_W.name\<close> to a column of the CTE.  Its select list may give one
  name to two columns (a group column or a metric listed twice, a metric named
  \<open>avg_m\<close> beside the metric \<open>m\<close>); the reference then denotes the first column of that
  name in the select list.\<close>

definition cte_column :: "string list \<Rightarrow> window_row \<Rightarrow> string \<Rightarrow> rat option" where
  "cte_column group_by_cols wr name =
     (case map_of (zip group_by_cols (fst wr) @ snd wr) name of None \<Rightarrow> None | Some x \<Rightarrow> x)"

text \<open>The join condition \<open>source_data.col = window_W.col and ...\<close> over the group columns:
  SQL equality, which a NULL on either side does not satisfy.\<close>

definition sql_eq :: "'a option \<Rightarrow> 'a option \<Rightarrow> bool" where
  "sql_eq x y = (case x of None \<Rightarrow> False | Some a \<Rightarrow> (case y of None \<Rightarrow> False | Some b \<Rightarrow> a = b))"

definition keys_match :: "string list \<Rightarrow> sql_row \<Rightarrow> window_row \<Rightarrow> bool" where
  "keys_match group_by_cols r wr =
     list_all (\<lambda>col. sql_eq (r col) (cte_column group_by_cols wr col)) group_by_cols"

text \<open>The chain \<open>from source_data left join window_W1 ... left join window_Wn ...\<close>: each
  joined row carries its source row and the matched row (or NULLs) of every window so far.\<close>

fun left_join_windows ::
  "(sql_row \<times> window_row option list) list \<Rightarrow> window_row list list \<Rightarrow> string list
     \<Rightarrow> (sql_row \<times> window_row option list) list" where
  "left_join_windows joined [] group_by_cols = joined"
| "left_join_windows joined (cte # ctes) group_by_cols =
     left_join_windows
       (map (\<lambda>((r, ms), m). (r, ms @ [m]))
          (left_join joined cte (\<lambda>(r, ms) wr. keys_match group_by_cols r wr)))
       ctes group_by_cols"

definition window_column :: "string list \<Rightarrow> window_row option \<Rightarrow> string \<Rightarrow> rat option" where
  "window_column group_by_cols m name =
     (case m of None \<Rightarrow> None | Some wr \<Rightarrow> cte_column group_by_cols wr name)"

text \<open>The select list: the group columns of the source row, then for every window and
  every metric the two coalesced aggregates under their aliases.\<close>

definition window_select ::
  "string list \<Rightarrow> string list \<Rightarrow> int list \<Rightarrow> sql_row \<times> window_row option list
     \<Rightarrow> rat option list \<times> (string \<times> rat) list" where
  "window_select group_by_cols metric_cols windows j =
     (map (fst j) group_by_cols,
      concat (map (\<lambda>(window, m).
        concat (map (\<lambda>metric.
          [(sum_alias metric window,
              coalesce (window_column group_by_cols m (sum_alias metric window)) 0),
           (avg_alias metric window,
              coalesce (window_column group_by_cols m (avg_alias metric window)) 0)])
          metric_cols))
        (zip windows (snd j))))"

text \<open>Whether the template renders a statement the engine accepts.  Without a group
  column it renders \<open>select , ...\<close> and an empty \<open>group by\<close>; without a window, a \<open>with\<close>
  clause and no select.  A negative window length renders the CTE name \<open>window_-W\<close>, which
  is no identifier, and a repeated one defines the same CTE twice.  Without a metric the
  select lists end in a comma, which the engine accepts, but from the second window on the
  outer list holds two commas in a row.\<close>

definition statement_renders :: "string list \<Rightarrow> string list \<Rightarrow> int list \<Rightarrow> bool" where
  "statement_renders group_by_cols metric_cols windows =
     (group_by_cols \<noteq> [] \<and> windows \<noteq> [] \<and> list_all (\<lambda>window. 0 \<le> window) windows
      \<and> distinct (map cte_name windows)
      \<and> (metric_cols = [] \<longrightarrow> length windows = 1))"

text \<open>The rendered statement.  \<open>time_windows\<close> left undefined selects the default windows.\<close>

definition default_windows :: "int list" where
  "default_windows = [7, 30, 90]"

definition calculate_time_window_aggs ::
  "int \<Rightarrow> sql_row list \<Rightarrow> string list \<Rightarrow> string \<Rightarrow> string list \<Rightarrow> int list option
     \<Rightarrow> sql_error + (rat option list \<times> (string \<times> rat) list) list" where
  "calculate_time_window_aggs current_date relation group_by_cols timestamp_col metric_cols
       time_windows =
     (let windows = (case time_windows of Some ws \<Rightarrow> ws | None \<Rightarrow> default_windows) in
      if \<not> statement_renders group_by_cols metric_cols windows
      then Inl CompilationError
      else Inr (map (window_select group_by_cols metric_cols windows)
                  (left_join_windows (map (\<lambda>r. (r, [])) relation)
                     (map (window_cte current_date relation group_by_cols timestamp_col metric_cols)
                        windows)
                     group_by_cols)))"

section \<open>Training assembler (\<open>instacart__training_features\<close>)\<close>

text \<open>
  Modelled from the spec: the query of \<open>models/marts/ml/instacart__training_features.sql\<close>
  is missing from the sources (\<open>create-files.sh\<close> only creates the empty file, and the
  schema declares its columns \<open>user_id\<close>, \<open>product_id\<close>, \<open>order_id\<close>, \<open>reordered\<close>).
  Following sections 3 and 4.5 of the specification, the label pass yields one row per
  order line of an order in the target partition, carrying the label \<open>reordered\<close>, and the
  assembler joins onto it the four feature tables of the feature pass on their keys.  The
  joins are left joins, so that no labelled row is dropped.
\<close>

record label_row =
  lb_user_id :: int
  lb_product_id :: int
  lb_order_id :: int
  lb_order_number :: int
  lb_reordered :: int

definition training_labels :: "string \<Rightarrow> instacart_raw \<Rightarrow> label_row list" where
  "training_labels target db =
     map (\<lambda>(od, ol).
            \<lparr> lb_user_id = o_user_id od, lb_product_id = op_product_id ol,
              lb_order_id = o_order_id od, lb_order_number = o_order_number od,
              lb_reordered = op_is_reordered ol \<rparr>)
       (inner_join (filter (\<lambda>od. o_eval_set od = target) (stg_instacart__orders db))
          (stg_instacart__order_products db)
          (\<lambda>od ol. o_order_id od = op_order_id ol))"

record feature_tables =
  ft_user_features :: "user_features_row list"
  ft_product_features :: "product_features_row list"
  ft_order_features :: "order_features_row list"
  ft_user_product_features :: "user_product_features_row list"

text \<open>The feature pass: the four feature tables of one evaluation partition.\<close>

definition feature_pass :: "engine \<Rightarrow> vars \<Rightarrow> instacart_raw \<Rightarrow> sql_error + feature_tables" where
  "feature_pass eng v db =
     bind_rows (instacart__user_features eng v db) (\<lambda>uf.
       bind_rows (instacart__product_features eng v db) (\<lambda>pf.
         bind_rows (instacart__user_product_features eng v db) (\<lambda>upf.
           Inr \<lparr> ft_user_features = uf, ft_product_features = pf,
                 ft_order_features = instacart__order_features eng v db,
                 ft_user_product_features = upf \<rparr>)))"

type_synonym training_features_row =
  "(((label_row \<times> user_features_row option) \<times> product_features_row option)
      \<times> order_features_row option) \<times> user_product_features_row option"

definition join_features :: "feature_tables \<Rightarrow> label_row list \<Rightarrow> training_features_row list" where
  "join_features ft labels =
     left_join
       (left_join
          (left_join
             (left_join labels (ft_user_features ft) (\<lambda>lb uf. lb_user_id lb = uf_user_id uf))
             (ft_product_features ft)
             (\<lambda>(lb, uf) pf. lb_product_id lb = pf_product_id pf))
          (ft_order_features ft)
          (\<lambda>((lb, uf), pf) ofr. lb_order_id lb = of_order_id ofr))
       (ft_user_product_features ft)
       (\<lambda>(((lb, uf), pf), ofr) upf.
          lb_user_id lb = upf_user_id upf \<and> lb_product_id lb = upf_product_id upf)"

definition instacart__training_features ::
  "engine \<Rightarrow> vars \<Rightarrow> string \<Rightarrow> instacart_raw \<Rightarrow> sql_error + training_features_row list" where
  "instacart__training_features eng v target db =
     bind_rows (feature_pass eng v db) (\<lambda>ft. Inr (join_features ft (training_labels target db)))"


section \<open>Specification-side notions and example inputs\<close>

text \<open>The dominant-bucket rule in the specification's words: among the buckets, in their
  listed order, the first one whose count is maximal.\<close>

definition first_listed_max :: "(int \<times> 'a) list \<Rightarrow> 'a option" where
  "first_listed_max buckets =
     (case filter (\<lambda>b. list_all (\<lambda>b'. fst b' \<le> fst b) buckets) buckets of
        [] \<Rightarrow> None | b # bs \<Rightarrow> Some (snd b))"

definition order_of :: "int \<Rightarrow> int \<Rightarrow> int \<Rightarrow> int \<Rightarrow> int \<Rightarrow> rat option \<Rightarrow> string \<Rightarrow> order_row" where
  "order_of oid uid num dow hour gap es =
     \<lparr> o_order_id = oid, o_user_id = uid, o_order_number = num, o_order_dow = dow,
       o_order_hour_of_day = hour, o_days_since_prior_order = gap, o_eval_set = es \<rparr>"

definition line_of :: "int \<Rightarrow> int \<Rightarrow> int \<Rightarrow> int \<Rightarrow> order_product_row" where
  "line_of oid pid pos re =
     \<lparr> op_order_id = oid, op_product_id = pid, op_cart_position = pos, op_is_reordered = re \<rparr>"

definition product_of :: "int \<Rightarrow> string \<Rightarrow> int \<Rightarrow> int \<Rightarrow> product_row" where
  "product_of pid name aid did =
     \<lparr> p_product_id = pid, p_product_name = name, p_aisle_id = aid, p_department_id = did \<rparr>"

definition example_aisles :: "aisle_row list" where
  "example_aisles =
     [\<lparr> a_aisle_id = 1, a_aisle_name = ''dairy'' \<rparr>, \<lparr> a_aisle_id = 2, a_aisle_name = ''bakery'' \<rparr>,
      \<lparr> a_aisle_id = 3, a_aisle_name = ''cleaning'' \<rparr>]"

definition example_departments :: "department_row list" where
  "example_departments =
     [\<lparr> d_department_id = 1, d_department_name = ''food'' \<rparr>,
      \<lparr> d_department_id = 2, d_department_name = ''household'' \<rparr>]"

definition example_products :: "product_row list" where
  "example_products =
     [product_of 11 ''milk'' 1 1, product_of 12 ''bread'' 2 1, product_of 13 ''soap'' 3 2]"

text \<open>The end-to-end scenario: user 1 has five orders numbered 1 to 5, the first four in
  the partition \<open>prior\<close> and the fifth in \<open>train\<close>.\<close>

definition scenario_orders :: "order_row list" where
  "scenario_orders =
     [order_of 101 1 1 2 8 None ''prior'', order_of 102 1 2 3 9 (Some 7) ''prior'',
      order_of 103 1 3 2 12 (Some 7) ''prior'', order_of 104 1 4 2 8 (Some 14) ''prior'',
      order_of 105 1 5 4 21 (Some 3) ''train'']"

definition scenario_db :: instacart_raw where
  "scenario_db =
     \<lparr> ORDERS = scenario_orders,
       ORDER_PRODUCTS =
         [line_of 101 11 1 0, line_of 101 12 2 0, line_of 102 11 1 1, line_of 103 11 1 1,
          line_of 103 12 2 1, line_of 103 13 3 0, line_of 104 11 1 1, line_of 105 11 1 1,
          line_of 105 13 2 1],
       PRODUCTS = example_products, AISLES = example_aisles,
       DEPARTMENTS = example_departments \<rparr>"

text \<open>The same scenario, except that order 104 (number 4) has no order line.\<close>

definition empty_basket_db :: instacart_raw where
  "empty_basket_db =
     \<lparr> ORDERS = scenario_orders,
       ORDER_PRODUCTS =
         [line_of 101 11 1 0, line_of 101 12 2 0, line_of 102 11 1 1, line_of 103 11 1 1,
          line_of 103 12 2 1, line_of 103 13 3 0, line_of 105 11 1 1, line_of 105 13 2 1],
       PRODUCTS = example_products, AISLES = example_aisles,
       DEPARTMENTS = example_departments \<rparr>"

text \<open>Notions used to state the properties of the window macro: the window row matched
  by a source row in the left join, the rows of a group-key combination whose age is within
  a window, and the aggregate columns the select list gives a source row.\<close>

definition window_match :: "string list \<Rightarrow> sql_row \<Rightarrow> window_row list \<Rightarrow> window_row option" where
  "window_match cols r cte =
     (case filter (keys_match cols r) cte of [] \<Rightarrow> None | b # bs \<Rightarrow> Some b)"

definition window_group :: "int \<Rightarrow> sql_row list \<Rightarrow> string list \<Rightarrow> string \<Rightarrow> int \<Rightarrow> rat option list \<Rightarrow> sql_row list" where
  "window_group cur rel cols ts w ks = filter (\<lambda>r. map r cols = ks) (filter (in_window cur ts w) rel)"

definition window_cells :: "int \<Rightarrow> sql_row list \<Rightarrow> string list \<Rightarrow> string \<Rightarrow> string list \<Rightarrow> int list \<Rightarrow> sql_row \<Rightarrow> (string \<times> rat) list" where
  "window_cells cur rel cols ts ms ws r =
     snd (window_select cols ms ws (r, map (\<lambda>w. window_match cols r (window_cte cur rel cols ts ms w)) ws))"



text \<open>A row of an example relation, from its non-NULL columns.\<close>

definition row_of :: "(string \<times> rat) list \<Rightarrow> sql_row" where
  "row_of cs = map_of cs"

definition example_relation :: "sql_row list" where
  "example_relation =
     [row_of [(''user_id'', 1), (''ts'', 98), (''amount'', 5)],
      row_of [(''user_id'', 1), (''ts'', 80), (''amount'', 10)],
      row_of [(''user_id'', 2), (''ts'', 60), (''amount'', 4)]]"

















text \<open>Reading a decimal text back, to show that the cast to text loses nothing.\<close>

definition digit_val :: "char \<Rightarrow> nat" where
  "digit_val c = length (takeWhile (\<lambda>d. d \<noteq> c) ''0123456789'')"

definition nat_of_string :: "string \<Rightarrow> nat" where
  "nat_of_string s = foldl (\<lambda>a c. 10 * a + digit_val c) 0 s"

definition int_of_varchar :: "string \<Rightarrow> int" where
  "int_of_varchar s =
     (case s of [] \<Rightarrow> 0
      | c # cs \<Rightarrow> if c = CHR ''-'' then - int (nat_of_string cs) else int (nat_of_string s))"

text \<open>The data of the evaluation partition: its orders and the order lines of these
  orders.  Two databases have the same prior data when they agree on these and on the
  reference tables; they may differ in any order outside the partition and in the order
  lines of such orders.\<close>

definition lines_of_eval_set :: "vars \<Rightarrow> instacart_raw \<Rightarrow> order_product_row list" where
  "lines_of_eval_set v db =
     filter (\<lambda>ol. list_ex (\<lambda>od. o_order_id od = op_order_id ol) (orders_in_eval_set v db))
       (stg_instacart__order_products db)"

definition same_prior_data :: "vars \<Rightarrow> instacart_raw \<Rightarrow> instacart_raw \<Rightarrow> bool" where
  "same_prior_data v db db' =
     (orders_in_eval_set v db = orders_in_eval_set v db'
      \<and> lines_of_eval_set v db = lines_of_eval_set v db'
      \<and> PRODUCTS db = PRODUCTS db' \<and> AISLES db = AISLES db' \<and> DEPARTMENTS db = DEPARTMENTS db')"

text \<open>The scenario with its labelled order 105 changed: another number, day, hour and
  day gap, and other order lines.\<close>

definition scenario_db_modified :: instacart_raw where
  "scenario_db_modified =
     \<lparr> ORDERS =
         [order_of 101 1 1 2 8 None ''prior'', order_of 102 1 2 3 9 (Some 7) ''prior'',
          order_of 103 1 3 2 12 (Some 7) ''prior'', order_of 104 1 4 2 8 (Some 14) ''prior'',
          order_of 105 1 7 0 6 (Some 9) ''train''],
       ORDER_PRODUCTS =
         [line_of 101 11 1 0, line_of 101 12 2 0, line_of 102 11 1 1, line_of 103 11 1 1,
          line_of 103 12 2 1, line_of 103 13 3 0, line_of 104 11 1 1, line_of 105 12 1 1],
       PRODUCTS = example_products, AISLES = example_aisles,
       DEPARTMENTS = example_departments \<rparr>"

text \<open>A user whose labelled order (504, number 4, partition \<open>train\<close>) is followed by an
  order of the partition \<open>prior\<close> (505, number 5); and the same data with the hour of
  order 505 changed from 9 to 20.\<close>

definition leak_lines :: "order_product_row list" where
  "leak_lines =
     [line_of 501 11 1 0, line_of 502 11 1 1, line_of 503 12 1 0, line_of 504 11 1 1,
      line_of 505 11 1 1]"

definition leak_db :: instacart_raw where
  "leak_db =
     \<lparr> ORDERS =
         [order_of 501 1 1 2 8 None ''prior'', order_of 502 1 2 3 8 (Some 7) ''prior'',
          order_of 503 1 3 2 8 (Some 7) ''prior'', order_of 504 1 4 2 8 (Some 14) ''train'',
          order_of 505 1 5 2 9 (Some 6) ''prior''],
       ORDER_PRODUCTS = leak_lines,
       PRODUCTS = example_products, AISLES = example_aisles,
       DEPARTMENTS = example_departments \<rparr>"

definition leak_db_modified :: instacart_raw where
  "leak_db_modified =
     \<lparr> ORDERS =
         [order_of 501 1 1 2 8 None ''prior'', order_of 502 1 2 3 8 (Some 7) ''prior'',
          order_of 503 1 3 2 8 (Some 7) ''prior'', order_of 504 1 4 2 8 (Some 14) ''train'',
          order_of 505 1 5 2 20 (Some 6) ''prior''],
       ORDER_PRODUCTS = leak_lines,
       PRODUCTS = example_products, AISLES = example_aisles,
       DEPARTMENTS = example_departments \<rparr>"

text \<open>Of a training row: its order, the sequence number of that order, and the user
  features \<open>user_total_orders\<close> and \<open>last_order_hour\<close> joined onto it.\<close>

definition leak_columns :: "training_features_row \<Rightarrow> int \<times> int \<times> int option \<times> int option" where
  "leak_columns r =
     (case r of ((((lb, uf), pf), ofr), upf) \<Rightarrow>
        (lb_order_id lb, lb_order_number lb, Option.bind uf uf_user_total_orders,
         map_option uf_last_order_hour uf))"

text \<open>Columns of the end-to-end scenario.\<close>

definition total_orders_columns :: "user_features_row \<Rightarrow> int \<times> int option" where
  "total_orders_columns r = (uf_user_id r, uf_user_total_orders r)"

definition basket_delta_columns :: "order_features_row \<Rightarrow> int \<times> int \<times> int \<times> int option" where
  "basket_delta_columns r =
     (of_order_id r, of_order_number r, of_basket_size r, of_basket_size_delta r)"

section \<open>Basic facts about the relational operators\<close>

lemma div_nullif_Inr: "div_nullif x y = Inr (ratio_nullif x y)"
  by (simp add: ratio_nullif_def div_nullif_def sql_div_def nullif_def split: option.splits)

lemma ratio_nullif_zero: "ratio_nullif x (Some 0) = None"
  by (simp add: ratio_nullif_def div_nullif_def sql_div_def nullif_def split: option.splits)

lemma filter_eq_distinct:
  "distinct ys \<Longrightarrow> filter (\<lambda>x. x = k) ys = (if k \<in> set ys then [k] else [])"
  by (induction ys) auto

lemma group_by_lookup:
  "filter (\<lambda>e. fst e = k) (group_by key xs)
     = (if k \<in> set (map key xs) then [(k, filter (\<lambda>r. key r = k) xs)] else [])"
proof -
  have "filter (\<lambda>e. fst e = k) (group_by key xs)
      = map (\<lambda>k. (k, filter (\<lambda>r. key r = k) xs)) (filter (\<lambda>x. x = k) (remdups (map key xs)))"
    by (simp add: group_by_def filter_map comp_def)
  then show ?thesis by (simp add: filter_eq_distinct)
qed

lemma group_by_mem:
  "(k, g) \<in> set (group_by key xs) \<longleftrightarrow> k \<in> set (map key xs) \<and> g = filter (\<lambda>r. key r = k) xs"
  by (auto simp: group_by_def)

lemma group_by_distinct: "distinct (map fst (group_by key xs))"
  by (simp add: group_by_def comp_def)

section \<open>Day parts and dominant buckets\<close>

lemma sum_case4:
  assumes "\<And>r. (if a r then 1 else 0) + (if b r then 1 else 0) + (if c r then 1 else 0)
               + (if d r then 1 else 0) = (1::int)"
  shows "sum_case a g + sum_case b g + sum_case c g + sum_case d g = int (length g)"
proof (induction g)
  case Nil
  show ?case by (simp add: sum_case_def)
next
  case (Cons r g)
  from assms[of r] Cons show ?case by (simp add: sum_case_def)
qed

lemma time_patterns_total:
  assumes "r \<in> set (user_product_time_patterns v db)"
  shows "uptp_morning_purchases r + uptp_midday_purchases r + uptp_evening_purchases r
           + uptp_night_purchases r
         = int (length (filter (\<lambda>(od, ol). (o_user_id od, op_product_id ol)
                                             = (uptp_user_id r, uptp_product_id r))
                          (user_orders v db)))"
proof -
  from assms obtain k g where
    kg: "(k, g) \<in> set (group_by (\<lambda>(od, ol). (o_user_id od, op_product_id ol)) (user_orders v db))"
    and r: "uptp_morning_purchases r = sum_case (\<lambda>(od, ol). between (o_order_hour_of_day od) 5 9) g"
      "uptp_midday_purchases r = sum_case (\<lambda>(od, ol). between (o_order_hour_of_day od) 10 14) g"
      "uptp_evening_purchases r = sum_case (\<lambda>(od, ol). between (o_order_hour_of_day od) 15 19) g"
      "uptp_night_purchases r
         = sum_case (\<lambda>(od, ol). o_order_hour_of_day od \<ge> 20 \<or> o_order_hour_of_day od < 5) g"
      "uptp_user_id r = fst k" "uptp_product_id r = snd k"
    unfolding user_product_time_patterns_def user_orders_def by auto
  from kg have g: "g = filter (\<lambda>(od, ol). (o_user_id od, op_product_id ol) = k) (user_orders v db)"
    by (auto simp: group_by_mem case_prod_unfold)
  have "sum_case (\<lambda>(od, ol). between (o_order_hour_of_day od) 5 9) g
      + sum_case (\<lambda>(od, ol). between (o_order_hour_of_day od) 10 14) g
      + sum_case (\<lambda>(od, ol). between (o_order_hour_of_day od) 15 19) g
      + sum_case (\<lambda>(od, ol). o_order_hour_of_day od \<ge> 20 \<or> o_order_hour_of_day od < 5) g
      = int (length g)"
    by (rule sum_case4) (auto simp: between_def)
  with r g show ?thesis by (simp add: case_prod_unfold)
qed

lemma order_features_day_part:
  "r \<in> set (instacart__order_features eng v db) \<Longrightarrow> of_day_part r = day_part (of_order_hour_of_day r)"
  unfolding instacart__order_features_def order_features_final_def by auto

text \<open>
  Claim C10.  The four day-part conditions of \<open>user_product_time_patterns\<close> partition the
  hours: every integer hour (in particular every hour from 0 to 23) satisfies exactly one
  of them, and the \<open>day_part\<close> label of the order features names that one.  Hence in every
  (user, product) group the morning, midday, evening and night counts add up to the number
  of purchase rows of the group, and \<open>day_part\<close> of every order-feature row is one of the
  four labels.
\<close>

theorem day_part_buckets_partition:
  "((if between h 5 9 then 1 else 0) + (if between h 10 14 then 1 else 0)
      + (if between h 15 19 then 1 else 0) + (if h \<ge> 20 \<or> h < 5 then 1 else 0) = (1::int))
   \<and> (day_part h = ''morning'') = between h 5 9
   \<and> (day_part h = ''midday'') = between h 10 14
   \<and> (day_part h = ''evening'') = between h 15 19
   \<and> (day_part h = ''night'') = (h \<ge> 20 \<or> h < 5)
   \<and> (\<forall>r \<in> set (user_product_time_patterns v db).
         uptp_morning_purchases r + uptp_midday_purchases r + uptp_evening_purchases r
           + uptp_night_purchases r
         = int (length (filter (\<lambda>(od, ol). (o_user_id od, op_product_id ol)
                                             = (uptp_user_id r, uptp_product_id r))
                          (user_orders v db))))
   \<and> (\<forall>r \<in> set (instacart__order_features eng v db).
         of_day_part r = day_part (of_order_hour_of_day r)
         \<and> of_day_part r \<in> {''morning'', ''midday'', ''evening'', ''night''})"
proof -
  have "day_part x \<in> {''morning'', ''midday'', ''evening'', ''night''}" for x
    by (simp add: day_part_def)
  moreover have "(if between h 5 9 then 1 else 0) + (if between h 10 14 then 1 else 0)
      + (if between h 15 19 then 1 else 0) + (if h \<ge> 20 \<or> h < 5 then 1 else 0) = (1::int)"
    by (simp add: between_def)
  moreover have "(day_part h = ''morning'') = between h 5 9"
    "(day_part h = ''midday'') = between h 10 14"
    "(day_part h = ''evening'') = between h 15 19"
    "(day_part h = ''night'') = (h \<ge> 20 \<or> h < 5)"
    by (auto simp: day_part_def between_def)
  moreover have "\<forall>r \<in> set (user_product_time_patterns v db).
         uptp_morning_purchases r + uptp_midday_purchases r + uptp_evening_purchases r
           + uptp_night_purchases r
         = int (length (filter (\<lambda>(od, ol). (o_user_id od, op_product_id ol)
                                             = (uptp_user_id r, uptp_product_id r))
                          (user_orders v db)))"
    using time_patterns_total by blast
  moreover have "\<forall>r \<in> set (instacart__order_features eng v db).
         of_day_part r = day_part (of_order_hour_of_day r)"
    using order_features_day_part by blast
  ultimately show ?thesis by simp
qed

theorem day_part_buckets_partition_witness:
  "user_product_time_patterns default_vars scenario_db \<noteq> []
   \<and> instacart__order_features scan_order default_vars scenario_db \<noteq> []
   \<and> day_part 12 = ''midday''
   \<and> list_all (\<lambda>r. uptp_morning_purchases r + uptp_midday_purchases r
                     + uptp_evening_purchases r + uptp_night_purchases r
                     = int (length (filter (\<lambda>(od, ol). (o_user_id od, op_product_id ol)
                                                        = (uptp_user_id r, uptp_product_id r))
                                      (user_orders default_vars scenario_db))))
        (user_product_time_patterns default_vars scenario_db)
   \<and> list_all (\<lambda>r. of_day_part r \<in> {''morning'', ''midday'', ''evening'', ''night''})
        (instacart__order_features scan_order default_vars scenario_db)"
proof -
  have ne: "user_product_time_patterns default_vars scenario_db \<noteq> []"
    "instacart__order_features scan_order default_vars scenario_db \<noteq> []"
    by code_simp+
  have "between 12 10 14" by (simp add: between_def)
  with day_part_buckets_partition [of 12 default_vars scenario_db scan_order]
  have "day_part 12 = ''midday''"
    and "\<forall>r \<in> set (user_product_time_patterns default_vars scenario_db).
         uptp_morning_purchases r + uptp_midday_purchases r + uptp_evening_purchases r
           + uptp_night_purchases r
         = int (length (filter (\<lambda>(od, ol). (o_user_id od, op_product_id ol)
                                             = (uptp_user_id r, uptp_product_id r))
                          (user_orders default_vars scenario_db)))"
    and "\<forall>r \<in> set (instacart__order_features scan_order default_vars scenario_db).
         of_day_part r \<in> {''morning'', ''midday'', ''evening'', ''night''}"
    by blast+
  with ne show ?thesis unfolding list_all_iff by blast
qed

text \<open>
  Claim C6.  The CASE chains of \<open>dominant_day_parts\<close> and \<open>dominant_dows\<close> return, for every
  (user, product) group, the first-listed bucket among those with the maximal count:
  morning before midday before evening before night, and the smallest day of week.  The
  result is a function of the counts alone; the counts 5, 5, 2, 1 give \<open>morning\<close>.
\<close>

theorem dominant_bucket_first_listed:
  "first_listed_max [(m, ''morning''), (md, ''midday''), (e, ''evening''), (n, ''night'')]
     = Some (dominant_day_part m md e n)
   \<and> first_listed_max [(d0, 0::int), (d1, 1), (d2, 2), (d3, 3), (d4, 4), (d5, 5), (d6, 6)]
     = Some (dominant_dow d0 d1 d2 d3 d4 d5 d6)
   \<and> map (\<lambda>r. Some (ddp_dominant_day_part r)) (dominant_day_parts v db)
     = map (\<lambda>r. first_listed_max
                   [(uptp_morning_purchases r, ''morning''), (uptp_midday_purchases r, ''midday''),
                    (uptp_evening_purchases r, ''evening''), (uptp_night_purchases r, ''night'')])
         (user_product_time_patterns v db)
   \<and> map (\<lambda>r. Some (dd_dominant_dow r)) (dominant_dows v db)
     = map (\<lambda>r. first_listed_max
                   [(uptp_dow_0_purchases r, 0), (uptp_dow_1_purchases r, 1),
                    (uptp_dow_2_purchases r, 2), (uptp_dow_3_purchases r, 3),
                    (uptp_dow_4_purchases r, 4), (uptp_dow_5_purchases r, 5),
                    (uptp_dow_6_purchases r, 6)])
         (user_product_time_patterns v db)"
proof -
  have a: "first_listed_max [(m, ''morning''), (md, ''midday''), (e, ''evening''), (n, ''night'')]
      = Some (dominant_day_part m md e n)" for m md e n
    unfolding first_listed_max_def dominant_day_part_def greatest_def
    by (simp add: max_def)
  have b: "first_listed_max [(d0, 0::int), (d1, 1), (d2, 2), (d3, 3), (d4, 4), (d5, 5), (d6, 6)]
      = Some (dominant_dow d0 d1 d2 d3 d4 d5 d6)" for d0 d1 d2 d3 d4 d5 d6
    unfolding first_listed_max_def dominant_dow_def greatest_def
    by (simp add: max_def)
  show ?thesis
    by (simp add: a b dominant_day_parts_def dominant_dows_def comp_def)
qed

theorem dominant_bucket_first_listed_witness:
  "dominant_day_part 5 5 2 1 = ''morning'' \<and> dominant_dow 0 3 1 3 0 2 3 = 1"
proof -
  have "first_listed_max [(5, ''morning''), (5, ''midday''), (2, ''evening''), (1, ''night'')]
      = Some ''morning''"
    by (simp add: first_listed_max_def)
  moreover have "first_listed_max [(0, 0::int), (3, 1), (1, 2), (3, 3), (0, 4), (2, 5), (3, 6)]
      = Some 1"
    by (simp add: first_listed_max_def)
  ultimately show ?thesis
    using dominant_bucket_first_listed [of 5 5 2 1 0 3 1 3 0 2 3 default_vars scenario_db]
    by simp
qed

section \<open>Safe division\<close>

lemma arrange_short: "length xs \<le> 1 \<Longrightarrow> arrange rank xs = xs"
proof (cases xs)
  case Nil
  then show ?thesis by (simp add: arrange_def)
next
  case (Cons x ys)
  assume "length xs \<le> 1"
  with Cons have "xs = [x]" by simp
  then show ?thesis by (simp add: arrange_def)
qed

text \<open>In \<open>empty_basket_db\<close> one joined order passes \<open>order_number >= min_orders\<close>, so the
  engine has no choice to make, and its basket is empty.\<close>

lemma empty_basket_metrics_fail:
  "int_instacart__user_order_metrics eng default_vars empty_basket_db = Inl DivisionByZero"
proof -
  have l: "length (filter (\<lambda>r. oj_order_number r \<ge> var_min_orders default_vars)
                     (orders_joined default_vars empty_basket_db)) \<le> 1"
    by code_simp
  have "int_instacart__user_order_metrics eng default_vars empty_basket_db
      = sequence_rows (map user_metrics_group
          (group_by oj_user_id
             (filter (\<lambda>r. oj_order_number r \<ge> var_min_orders default_vars)
                (orders_joined default_vars empty_basket_db))))"
    unfolding int_instacart__user_order_metrics_def by (simp only: arrange_short[OF l])
  also have "\<dots> = Inl DivisionByZero" by code_simp
  finally show ?thesis .
qed

text \<open>
  Claim C2.  Every ratio written with \<open>nullif(denominator, 0)\<close> is NULL on a zero
  denominator and never fails (lemmas \<open>div_nullif_Inr\<close>, \<open>ratio_nullif_zero\<close>).  The quotient
  \<open>overall_reorder_rate\<close> of \<open>int_instacart__user_order_metrics\<close> is not guarded: for a user
  whose orders numbered at least \<open>min_orders\<close> have no order line, both sums are 0, the
  statement fails with a division by zero, and so does every model built on it.
\<close>

theorem overall_reorder_rate_division_by_zero:
  "int_instacart__user_order_metrics eng default_vars empty_basket_db = Inl DivisionByZero
   \<and> instacart__user_features eng default_vars empty_basket_db = Inl DivisionByZero
   \<and> instacart__user_product_features eng default_vars empty_basket_db = Inl DivisionByZero"
  using empty_basket_metrics_fail[of eng]
  by (simp add: instacart__user_features_def instacart__user_product_features_def bind_rows_def)



lemma digit_cases: "d < 10 \<Longrightarrow> d \<in> {0, 1, 2, 3, 4, 5, 6, 7, 8, 9::nat}"
  by auto

lemma digit_val_char: "d < 10 \<Longrightarrow> digit_val (digit_char d) = d"
  by (drule digit_cases) (auto simp: digit_val_def digit_char_def)

lemma digit_char_in: "d < 10 \<Longrightarrow> digit_char d \<in> set ''0123456789''"
  by (drule digit_cases) (auto simp: digit_char_def)

lemma string_of_nat_digits: "set (string_of_nat n) \<subseteq> set ''0123456789''"
proof (induction n rule: string_of_nat.induct)
  case (1 n)
  show ?case
  proof (cases "n < 10")
    case True
    then show ?thesis
      using digit_char_in[of n] by (subst string_of_nat.simps) simp
  next
    case False
    have "n mod 10 < 10" by simp
    then have "digit_char (n mod 10) \<in> set ''0123456789''" by (rule digit_char_in)
    with False 1 show ?thesis by (subst string_of_nat.simps) simp
  qed
qed

lemma string_of_nat_nonempty: "string_of_nat n \<noteq> []"
  by (subst string_of_nat.simps) simp

lemma nat_of_string_of_nat: "nat_of_string (string_of_nat n) = n"
proof (induction n rule: string_of_nat.induct)
  case (1 n)
  show ?case
  proof (cases "n < 10")
    case True
    then show ?thesis
      by (subst string_of_nat.simps) (simp add: nat_of_string_def digit_val_char)
  next
    case False
    with 1 have IH: "nat_of_string (string_of_nat (n div 10)) = n div 10" by simp
    have "nat_of_string (string_of_nat n)
        = 10 * nat_of_string (string_of_nat (n div 10)) + digit_val (digit_char (n mod 10))"
      using False by (subst string_of_nat.simps) (simp add: nat_of_string_def)
    also have "\<dots> = 10 * (n div 10) + n mod 10"
      by (simp add: IH digit_val_char)
    finally show ?thesis by simp
  qed
qed

lemma int_of_to_varchar: "int_of_varchar (to_varchar i) = i"
proof (cases "i < 0")
  case True
  then show ?thesis
    by (simp add: int_of_varchar_def to_varchar_def nat_of_string_of_nat)
next
  case False
  obtain c cs where s: "string_of_nat (nat i) = c # cs"
    using string_of_nat_nonempty[of "nat i"] by (cases "string_of_nat (nat i)") auto
  then have "c \<in> set ''0123456789''"
    using string_of_nat_digits[of "nat i"] by auto
  then have "c \<noteq> CHR ''-''" by auto
  with False s nat_of_string_of_nat[of "nat i"] show ?thesis
    by (simp add: int_of_varchar_def to_varchar_def)
qed

lemma to_varchar_no_underscore: "CHR ''_'' \<notin> set (to_varchar i)"
  using string_of_nat_digits[of "nat i"] string_of_nat_digits[of "nat (- i)"]
  by (auto simp: to_varchar_def)

lemma split_at_separator:
  assumes "xs @ c # ys = xs' @ c # ys'" "c \<notin> set xs" "c \<notin> set xs'"
  shows "xs = xs' \<and> ys = ys'"
proof -
  have tw: "takeWhile (\<lambda>x. x \<noteq> c) (zs @ c # ws) = zs" if "c \<notin> set zs" for zs ws
    using that by (induction zs) auto
  from assms(1) have "takeWhile (\<lambda>x. x \<noteq> c) (xs @ c # ys) = takeWhile (\<lambda>x. x \<noteq> c) (xs' @ c # ys')"
    by simp
  then have "xs = xs'" using tw[OF assms(2)] tw[OF assms(3)] by simp
  with assms(1) show ?thesis by simp
qed

lemma user_product_id_inj:
  assumes "to_varchar u @ ''_'' @ to_varchar p = to_varchar u' @ ''_'' @ to_varchar p'"
  shows "u = u' \<and> p = p'"
proof -
  from assms have "to_varchar u @ CHR ''_'' # to_varchar p = to_varchar u' @ CHR ''_'' # to_varchar p'"
    by simp
  then have "to_varchar u = to_varchar u' \<and> to_varchar p = to_varchar p'"
    by (rule split_at_separator) (rule to_varchar_no_underscore)+
  then show ?thesis by (metis int_of_to_varchar)
qed

section \<open>The window aggregation macro\<close>

lemma left_join_single:
  assumes "\<And>a. a \<in> set xs \<Longrightarrow> length (filter (on a) ys) \<le> 1"
  shows "left_join xs ys on
       = map (\<lambda>a. (a, case filter (on a) ys of [] \<Rightarrow> None | b # bs \<Rightarrow> Some b)) xs"
proof -
  have "(case filter (on a) ys of [] \<Rightarrow> [(a, None)] | b # bs \<Rightarrow> map (\<lambda>m. (a, Some m)) (b # bs))
      = [(a, case filter (on a) ys of [] \<Rightarrow> None | b # bs \<Rightarrow> Some b)]" if "a \<in> set xs" for a
    using assms[OF that] by (cases "filter (on a) ys") auto
  then show ?thesis
    unfolding left_join_def by (induction xs) auto
qed

lemma sql_eq_iff: "sql_eq x y \<longleftrightarrow> x = y \<and> x \<noteq> None"
  by (simp add: sql_eq_def split: option.splits)

text \<open>The rendered names.  The decimal text of a window length holds no underscore, so an
  alias determines its metric and its window.\<close>

lemma to_varchar_inj: "to_varchar i = to_varchar j \<Longrightarrow> i = j"
  by (metis int_of_to_varchar)

lemma cte_name_inj: "distinct ws \<Longrightarrow> distinct (map cte_name ws)"
  by (simp add: distinct_map inj_on_def cte_name_def to_varchar_inj)

lemma cte_name_distinct: "distinct (map cte_name ws) = distinct ws"
  using cte_name_inj[of ws] distinct_map[of cte_name ws] by blast




lemma map_of_zip_map: "map_of (zip xs (map f xs)) x = (if x \<in> set xs then Some (f x) else None)"
  by (induction xs) auto

lemma cte_column_group:
  assumes "c \<in> set cols"
  shows "cte_column cols (map r cols, cells) c = r c"
  using assms by (simp add: cte_column_def map_of_zip_map map_add_def)

lemma keys_match_iff:
  "keys_match cols r (map r' cols, cells) \<longleftrightarrow> map r' cols = map r cols \<and> None \<notin> set (map r cols)"
proof -
  have "keys_match cols r (map r' cols, cells) \<longleftrightarrow> (\<forall>c \<in> set cols. sql_eq (r c) (r' c))"
    unfolding keys_match_def list_all_iff by (simp add: cte_column_group)
  also have "\<dots> \<longleftrightarrow> (\<forall>c \<in> set cols. r' c = r c \<and> r c \<noteq> None)"
    by (auto simp: sql_eq_iff)
  also have "\<dots> \<longleftrightarrow> map r' cols = map r cols \<and> None \<notin> set (map r cols)"
    by (auto simp: image_iff) (metis option.exhaust)
  finally show ?thesis .
qed

lemma window_cte_rows:
  assumes "wr \<in> set (window_cte cur src cols ts ms w)"
  shows "\<exists>r' \<in> set src. fst wr = map r' cols"
  using assms unfolding window_cte_def by (auto simp: group_by_mem)

lemma window_cte_filter:
  "filter (keys_match cols r) (window_cte cur src cols ts ms w)
     = (if None \<notin> set (map r cols)
        then filter (\<lambda>wr. fst wr = map r cols) (window_cte cur src cols ts ms w) else [])"
proof -
  have "keys_match cols r wr \<longleftrightarrow> fst wr = map r cols \<and> None \<notin> set (map r cols)"
    if "wr \<in> set (window_cte cur src cols ts ms w)" for wr
  proof -
    from window_cte_rows[OF that] obtain r' where "fst wr = map r' cols" by blast
    then have wr: "wr = (map r' cols, snd wr)" by (metis prod.collapse)
    have "keys_match cols r wr \<longleftrightarrow> keys_match cols r (map r' cols, snd wr)"
      using wr by simp
    also have "\<dots> \<longleftrightarrow> map r' cols = map r cols \<and> None \<notin> set (map r cols)"
      by (rule keys_match_iff)
    also have "\<dots> \<longleftrightarrow> fst wr = map r cols \<and> None \<notin> set (map r cols)"
      by (subst wr) (simp only: fst_conv)
    finally show ?thesis .
  qed
  then show ?thesis by (auto intro: filter_cong)
qed

lemma window_cte_lookup:
  "filter (\<lambda>wr. fst wr = k) (window_cte cur src cols ts ms w)
     = (if k \<in> set (map (\<lambda>r. map r cols) (filter (in_window cur ts w) src))
        then [(k, concat (map (\<lambda>metric.
                  [(sum_alias metric w, sql_sum (map (\<lambda>r. r metric)
                       (filter (\<lambda>r. map r cols = k) (filter (in_window cur ts w) src)))),
                   (avg_alias metric w, sql_avg (map (\<lambda>r. r metric)
                       (filter (\<lambda>r. map r cols = k) (filter (in_window cur ts w) src))))]) ms))]
        else [])"
proof -
  have "filter (\<lambda>wr. fst wr = k) (window_cte cur src cols ts ms w)
      = map (\<lambda>(k, g). (k, concat (map (\<lambda>metric.
                  [(sum_alias metric w, sql_sum (map (\<lambda>r. r metric) g)),
                   (avg_alias metric w, sql_avg (map (\<lambda>r. r metric) g))]) ms)))
          (filter (\<lambda>e. fst e = k) (group_by (\<lambda>r. map r cols) (filter (in_window cur ts w) src)))"
    unfolding window_cte_def by (simp add: filter_map comp_def case_prod_unfold)
  then show ?thesis by (simp add: group_by_lookup)
qed

lemma window_cte_single:
  "length (filter (keys_match cols r) (window_cte cur src cols ts ms w)) \<le> 1"
  by (simp add: window_cte_filter window_cte_lookup)

lemma left_join_windows_eq:
  assumes "\<And>cte r. cte \<in> set ctes \<Longrightarrow> length (filter (keys_match cols r) cte) \<le> 1"
  shows "left_join_windows joined ctes cols
       = map (\<lambda>(r, ms). (r, ms @ map (window_match cols r) ctes)) joined"
  using assms
proof (induction ctes arbitrary: joined)
  case Nil
  show ?case by (simp add: case_prod_unfold)
next
  case (Cons cte ctes)
  have one: "length (filter ((\<lambda>p wr. keys_match cols (fst p) wr) a) cte) \<le> 1" for a
    using Cons.prems[of cte "fst a"] by simp
  have "left_join joined cte (\<lambda>(r, ms) wr. keys_match cols r wr)
      = left_join joined cte (\<lambda>p wr. keys_match cols (fst p) wr)"
    by (simp add: case_prod_unfold)
  also have "\<dots> = map (\<lambda>a. (a, window_match cols (fst a) cte)) joined"
    unfolding window_match_def by (rule left_join_single) (rule one)
  finally have "left_join_windows joined (cte # ctes) cols
      = left_join_windows (map (\<lambda>(r, ms). (r, ms @ [window_match cols r cte])) joined) ctes cols"
    by (simp add: comp_def case_prod_unfold)
  also have "\<dots> = map (\<lambda>(r, ms). (r, ms @ map (window_match cols r) ctes))
                    (map (\<lambda>(r, ms). (r, ms @ [window_match cols r cte])) joined)"
    using Cons.prems by (intro Cons.IH) simp
  finally show ?case by (simp add: comp_def case_prod_unfold)
qed

lemma window_match_cte:
  "window_match cols r (window_cte cur rel cols ts ms w)
     = (if None \<notin> set (map r cols) \<and> window_group cur rel cols ts w (map r cols) \<noteq> []
        then Some (map r cols, concat (map (\<lambda>metric.
                  [(sum_alias metric w, sql_sum (map (\<lambda>r'. r' metric) (window_group cur rel cols ts w (map r cols)))),
                   (avg_alias metric w, sql_avg (map (\<lambda>r'. r' metric) (window_group cur rel cols ts w (map r cols))))]) ms))
        else None)"
proof -
  have "(map r cols \<in> set (map (\<lambda>r. map r cols) (filter (in_window cur ts w) rel)))
      = (window_group cur rel cols ts w (map r cols) \<noteq> [])"
  proof
    assume "map r cols \<in> set (map (\<lambda>r. map r cols) (filter (in_window cur ts w) rel))"
    then obtain x where "x \<in> set (filter (in_window cur ts w) rel)" "map x cols = map r cols"
      by auto
    then show "window_group cur rel cols ts w (map r cols) \<noteq> []"
      unfolding window_group_def filter_empty_conv by blast
  next
    assume "window_group cur rel cols ts w (map r cols) \<noteq> []"
    then obtain x where "x \<in> set (filter (in_window cur ts w) rel)" "map x cols = map r cols"
      unfolding window_group_def filter_empty_conv by blast
    then have "map r cols \<in> (\<lambda>r. map r cols) ` set (filter (in_window cur ts w) rel)"
      by (metis imageI)
    then show "map r cols \<in> set (map (\<lambda>r. map r cols) (filter (in_window cur ts w) rel))"
      by (simp only: set_map)
  qed
  then show ?thesis
    unfolding window_match_def window_cte_filter window_cte_lookup window_group_def
    by simp
qed








lemma calculate_normal_form:
  "calculate_time_window_aggs cur rel cols ts ms (Some ws)
     = (if statement_renders cols ms ws
        then Inr (map (\<lambda>r. (map r cols, window_cells cur rel cols ts ms ws r)) rel)
        else Inl CompilationError)"
proof -
  have "left_join_windows (map (\<lambda>r. (r, [])) rel) (map (window_cte cur rel cols ts ms) ws) cols
      = map (\<lambda>(r, xs). (r, xs @ map (window_match cols r) (map (window_cte cur rel cols ts ms) ws)))
          (map (\<lambda>r. (r, [])) rel)"
    by (rule left_join_windows_eq) (use window_cte_single in auto)
  then show ?thesis
    by (simp add: calculate_time_window_aggs_def window_cells_def window_select_def comp_def)
qed




lemma mset_non_null: "mset (non_null xs) = image_mset the (filter_mset (\<lambda>x. x \<noteq> None) (mset xs))"
  by (induction xs rule: non_null.induct) auto

lemma non_null_cong: "mset xs = mset ys \<Longrightarrow> mset (non_null xs) = mset (non_null ys)"
  by (simp add: mset_non_null)

lemma sql_sum_alt: "sql_sum xs = (if non_null xs = [] then None else Some (sum_list (non_null xs)))"
  by (simp add: sql_sum_def split: list.splits)

lemma sql_avg_alt:
  "sql_avg xs = (if non_null xs = [] then None
                 else Some (sum_list (non_null xs) / of_nat (length (non_null xs))))"
  by (simp add: sql_avg_def split: list.splits)

lemma sql_sum_mset:
  fixes xs :: "rat option list"
  assumes "mset xs = mset ys" shows "sql_sum xs = sql_sum ys"
proof -
  from assms have m: "mset (non_null xs) = mset (non_null ys)" by (rule non_null_cong)
  then have "sum_list (non_null xs) = sum_list (non_null ys)"
    by (metis sum_mset_sum_list)
  moreover from m have "(non_null xs = []) = (non_null ys = [])"
    by (metis mset_zero_iff)
  ultimately show ?thesis by (simp add: sql_sum_alt)
qed

lemma sql_avg_mset:
  assumes "mset xs = mset ys" shows "sql_avg xs = sql_avg ys"
proof -
  from assms have m: "mset (non_null xs) = mset (non_null ys)" by (rule non_null_cong)
  then have "sum_list (non_null xs) = sum_list (non_null ys)"
    by (metis sum_mset_sum_list)
  moreover from m have "(non_null xs = []) = (non_null ys = [])"
    by (metis mset_zero_iff)
  moreover from m have "length (non_null xs) = length (non_null ys)"
    by (metis size_mset)
  ultimately show ?thesis by (simp add: sql_avg_alt)
qed

lemma window_group_mset:
  "mset rel = mset rel' \<Longrightarrow> mset (window_group cur rel cols ts w ks) = mset (window_group cur rel' cols ts w ks)"
  by (simp add: window_group_def)

lemma window_match_mset:
  assumes "mset rel = mset rel'"
  shows "window_match cols r (window_cte cur rel cols ts ms w)
       = window_match cols r (window_cte cur rel' cols ts ms w)"
proof -
  have g: "mset (window_group cur rel cols ts w (map r cols))
         = mset (window_group cur rel' cols ts w (map r cols))"
    using assms by (rule window_group_mset)
  then have e: "(window_group cur rel cols ts w (map r cols) = [])
         = (window_group cur rel' cols ts w (map r cols) = [])"
    by (metis mset_zero_iff)
  have s: "sql_sum (map (\<lambda>r'. r' m) (window_group cur rel cols ts w (map r cols)))
         = sql_sum (map (\<lambda>r'. r' m) (window_group cur rel' cols ts w (map r cols)))" for m
    by (rule sql_sum_mset) (simp add: g)
  have a: "sql_avg (map (\<lambda>r'. r' m) (window_group cur rel cols ts w (map r cols)))
         = sql_avg (map (\<lambda>r'. r' m) (window_group cur rel' cols ts w (map r cols)))" for m
    by (rule sql_avg_mset) (simp add: g)
  show ?thesis unfolding window_match_cte by (simp add: e s a)
qed

lemma window_cells_mset:
  "mset rel = mset rel' \<Longrightarrow> window_cells cur rel cols ts ms ws r = window_cells cur rel' cols ts ms ws r"
  unfolding window_cells_def by (simp add: window_match_mset[of rel rel'])




text \<open>Parameter lists the template still renders to a statement that runs: a group
  column or a metric listed twice, and an empty metric list with a single window.\<close>

lemma window_aggs_lenient_parameters:
  "calculate_time_window_aggs 100 example_relation [''user_id'', ''user_id''] ''ts'' [''amount'']
       (Some [7])
     = Inr [([Some 1, Some 1], [(''amount_7_day'', 5), (''avg_amount_7_day'', 5)]),
            ([Some 1, Some 1], [(''amount_7_day'', 5), (''avg_amount_7_day'', 5)]),
            ([Some 2, Some 2], [(''amount_7_day'', 0), (''avg_amount_7_day'', 0)])]"
  "calculate_time_window_aggs 100 example_relation [''user_id''] ''ts'' [''amount'', ''amount'']
       (Some [7])
     = Inr [([Some 1], [(''amount_7_day'', 5), (''avg_amount_7_day'', 5),
                        (''amount_7_day'', 5), (''avg_amount_7_day'', 5)]),
            ([Some 1], [(''amount_7_day'', 5), (''avg_amount_7_day'', 5),
                        (''amount_7_day'', 5), (''avg_amount_7_day'', 5)]),
            ([Some 2], [(''amount_7_day'', 0), (''avg_amount_7_day'', 0),
                        (''amount_7_day'', 0), (''avg_amount_7_day'', 0)])]"
  "calculate_time_window_aggs 100 example_relation [''user_id''] ''ts'' [] (Some [7])
     = Inr [([Some 1], []), ([Some 1], []), ([Some 2], [])]"
  "calculate_time_window_aggs 100 example_relation [''user_id''] ''ts'' [] (Some [7, 30])
     = Inl CompilationError"
  by code_simp+






text \<open>
  Claim C8, as amended.  The macro has no reference-instant parameter: each rendered
  statement reads \<open>current_date()\<close> when it runs, and all window lengths of that statement
  are measured against this one date.  Two executions over the same rows (stored in any
  order) that read the same date produce the same rows; the date itself is a clock read
  of each statement, not a value fixed for the pipeline run.
\<close>

theorem window_aggs_same_date_same_result:
  assumes "mset rel = mset rel'"
  shows "map_sum id mset (calculate_time_window_aggs cur rel group_by_cols ts metric_cols time_windows)
       = map_sum id mset (calculate_time_window_aggs cur rel' group_by_cols ts metric_cols time_windows)"
proof -
  define ws where "ws = (case time_windows of Some ws \<Rightarrow> ws | None \<Rightarrow> default_windows)"
  have eq: "calculate_time_window_aggs cur rl group_by_cols ts metric_cols time_windows
          = calculate_time_window_aggs cur rl group_by_cols ts metric_cols (Some ws)" for rl
    by (simp add: calculate_time_window_aggs_def ws_def)
  have "mset (map (\<lambda>r. (map r group_by_cols, window_cells cur rel group_by_cols ts metric_cols ws r)) rel)
      = mset (map (\<lambda>r. (map r group_by_cols, window_cells cur rel' group_by_cols ts metric_cols ws r)) rel')"
    using assms by (simp add: window_cells_mset[OF assms])
  then show ?thesis by (simp add: eq calculate_normal_form)
qed

theorem window_aggs_same_date_same_result_witness:
  "mset example_relation = mset (rev example_relation)
   \<and> map_sum id mset
       (calculate_time_window_aggs 100 example_relation [''user_id''] ''ts'' [''amount''] None)
     = map_sum id mset
         (calculate_time_window_aggs 100 (rev example_relation) [''user_id''] ''ts'' [''amount''] None)"
proof -
  have h: "mset example_relation = mset (rev example_relation)" by simp
  show ?thesis
    by (intro conjI h window_aggs_same_date_same_result [OF h])
qed

text \<open>The claim as stated fails: the same statement over the same rows, executed on day
  100 and on day 200, reports different aggregates.\<close>

theorem window_aggs_clock_counterexample:
  "calculate_time_window_aggs 100 example_relation [''user_id''] ''ts'' [''amount''] None
     = Inr [([Some 1], [(''amount_7_day'', 5), (''avg_amount_7_day'', 5),
                        (''amount_30_day'', 15), (''avg_amount_30_day'', 15 / 2),
                        (''amount_90_day'', 15), (''avg_amount_90_day'', 15 / 2)]),
            ([Some 1], [(''amount_7_day'', 5), (''avg_amount_7_day'', 5),
                        (''amount_30_day'', 15), (''avg_amount_30_day'', 15 / 2),
                        (''amount_90_day'', 15), (''avg_amount_90_day'', 15 / 2)]),
            ([Some 2], [(''amount_7_day'', 0), (''avg_amount_7_day'', 0),
                        (''amount_30_day'', 0), (''avg_amount_30_day'', 0),
                        (''amount_90_day'', 4), (''avg_amount_90_day'', 4)])]
   \<and> calculate_time_window_aggs 200 example_relation [''user_id''] ''ts'' [''amount''] None
     = Inr [([Some 1], [(''amount_7_day'', 0), (''avg_amount_7_day'', 0),
                        (''amount_30_day'', 0), (''avg_amount_30_day'', 0),
                        (''amount_90_day'', 0), (''avg_amount_90_day'', 0)]),
            ([Some 1], [(''amount_7_day'', 0), (''avg_amount_7_day'', 0),
                        (''amount_30_day'', 0), (''avg_amount_30_day'', 0),
                        (''amount_90_day'', 0), (''avg_amount_90_day'', 0)]),
            ([Some 2], [(''amount_7_day'', 0), (''avg_amount_7_day'', 0),
                        (''amount_30_day'', 0), (''avg_amount_30_day'', 0),
                        (''amount_90_day'', 0), (''avg_amount_90_day'', 0)])]"
  by code_simp

section \<open>Rankings and peak selections\<close>

text \<open>The engine takes up the rows of a relation in some order: the same rows.\<close>

lemma mset_arrange: "mset (arrange rank xs) = mset xs"
proof -
  have "mset (arrange rank xs) = mset (map snd (zip [0..<length xs] xs))"
    unfolding arrange_def by (simp only: mset_map mset_sort)
  also have "map snd (zip [0..<length xs] xs) = xs" by (rule map_snd_zip) simp
  finally show ?thesis .
qed

lemma set_arrange: "set (arrange rank xs) = set xs"
  using mset_arrange[of rank xs] by (rule mset_eq_setD)

lemma length_arrange: "length (arrange rank xs) = length xs"
  using mset_arrange[of rank xs] by (rule mset_eq_length)

lemma distinct_map_arrange: "distinct (map f (arrange rank xs)) = distinct (map f xs)"
  by (rule mset_eq_imp_distinct_iff) (simp add: mset_arrange)

text \<open>Conversely every order of the rows is the order of some ranks, and every numbering
  of a partition that respects its \<open>order by\<close> key is the numbering of some engine: a
  statement proved for every engine covers every way of ordering tied rows.\<close>

lemma permuted_preimage:
  "mset (map f zs) = mset ys \<Longrightarrow> \<exists>ps. mset ps = mset zs \<and> map f ps = ys"
proof (induction ys arbitrary: zs)
  case Nil
  then show ?case by simp
next
  case (Cons y ys)
  from Cons.prems have "set (map f zs) = set (y # ys)" by (rule mset_eq_setD)
  then have "y \<in> f ` set zs" by simp
  then obtain z where z: "z \<in> set zs" "f z = y" by blast
  define zs' where "zs' = remove1 z zs"
  from z(1) have m: "mset zs = add_mset z (mset zs')" unfolding zs'_def by simp
  have "add_mset y (mset (map f zs')) = mset (map f zs)"
    unfolding mset_map m by (simp only: image_mset_add_mset z(2))
  also have "\<dots> = add_mset y (mset ys)" using Cons.prems by (simp only: mset.simps)
  finally have "mset (map f zs') = mset ys" by simp
  from Cons.IH[OF this] obtain ps where ps: "mset ps = mset zs'" "map f ps = ys"
    by blast
  have "mset (z # ps) = mset zs" unfolding m by (simp only: mset.simps ps(1))
  moreover have "map f (z # ps) = y # ys" by (simp only: list.map ps(2) z(2))
  ultimately have "mset (z # ps) = mset zs \<and> map f (z # ps) = y # ys" by (rule conjI)
  then show ?case by (rule exI)
qed

lemma position_of_nth:
  "distinct (map g ps) \<Longrightarrow> k < length ps
     \<Longrightarrow> length (takeWhile (\<lambda>p. g p \<noteq> g (ps ! k)) ps) = k"
proof (induction ps arbitrary: k)
  case Nil
  then show ?case by simp
next
  case (Cons p ps)
  show ?case
  proof (cases k)
    case 0
    then show ?thesis by simp
  next
    case (Suc j)
    with Cons.prems have j: "j < length ps" "distinct (map g ps)" by simp_all
    then have "ps ! j \<in> set ps" by simp
    with Cons.prems(1) have "g p \<noteq> g (ps ! j)" by auto
    with Cons.IH[OF j(2,1)] Suc show ?thesis by simp
  qed
qed

lemma arrange_complete:
  assumes "mset ys = mset xs"
  shows "\<exists>rank. arrange rank xs = ys"
proof -
  let ?zs = "zip [0..<length xs] xs"
  have sz: "map snd ?zs = xs" and fz: "map fst ?zs = [0..<length xs]" by simp_all
  from assms sz have "mset (map snd ?zs) = mset ys" by simp
  from permuted_preimage[OF this] obtain ps where ps: "mset ps = mset ?zs" "map snd ps = ys"
    by (elim exE conjE)
  define rank where "rank i = int (length (takeWhile (\<lambda>p. fst p \<noteq> i) ps))" for i
  let ?key = "\<lambda>(i, r). rank i"
  from ps(1) have "image_mset fst (mset ps) = image_mset fst (mset ?zs)"
    by (rule arg_cong)
  then have "mset (map fst ps) = mset (map fst ?zs)" by (simp only: mset_map)
  then have "mset (map fst ps) = mset [0..<length xs]" by (simp only: fz)
  then have "distinct (map fst ps) = distinct [0..<length xs]"
    by (rule mset_eq_imp_distinct_iff)
  then have d: "distinct (map fst ps)" by simp
  have key: "?key (ps ! k) = int k" if "k < length ps" for k
  proof -
    have "?key (ps ! k) = rank (fst (ps ! k))" by (simp only: case_prod_unfold)
    also have "\<dots> = int (length (takeWhile (\<lambda>p. fst p \<noteq> fst (ps ! k)) ps))"
      by (simp only: rank_def)
    also have "\<dots> = int k" by (simp only: position_of_nth[OF d that])
    finally show ?thesis .
  qed
  have "map ?key ps = map int [0..<length ps]"
  proof (rule nth_equalityI)
    show "length (map ?key ps) = length (map int [0..<length ps])" by simp
    fix i assume "i < length (map ?key ps)"
    then have i: "i < length ps" by simp
    then show "map ?key ps ! i = map int [0..<length ps] ! i"
      using key[OF i] by simp
  qed
  moreover have "sorted (map int [0..<length ps])"
    by (simp add: sorted_map)
  ultimately have srt: "sorted (map ?key ps)" by (simp only:)
  have sp: "set ps = set ?zs" using ps(1) by (rule mset_eq_setD)
  have inj: "inj_on ?key (set ?zs)"
  proof (rule inj_onI)
    fix a b assume "a \<in> set ?zs" "b \<in> set ?zs" and e: "?key a = ?key b"
    then have a: "a \<in> set ps" and b: "b \<in> set ps" by (simp_all only: sp)
    from a obtain i where i: "i < length ps" "ps ! i = a" unfolding in_set_conv_nth by blast
    from b obtain j where j: "j < length ps" "ps ! j = b" unfolding in_set_conv_nth by blast
    from key[OF i(1)] key[OF j(1)] e have "int i = int j" by (simp only: i(2) j(2))
    then have "i = j" by simp
    with i j show "a = b" by simp
  qed
  have "sort_key ?key ?zs = ps"
    using ps(1)[symmetric] inj srt by (rule sort_key_inj_key_eq)
  then have "arrange rank xs = ys" by (simp only: arrange_def ps(2))
  then show ?thesis by (rule exI[of _ rank])
qed

lemma every_peer_order_possible:
  assumes "mset ys = mset xs" "sorted (map key ys)"
  shows "\<exists>rank. sort_key key (arrange rank xs) = ys"
proof -
  from arrange_complete[OF assms(1)] obtain rank where "arrange rank xs = ys"
    by (elim exE)
  moreover have "sort_key key ys = ys" using assms(2) by (rule sort_key_id_if_sorted)
  ultimately have "sort_key key (arrange rank xs) = ys" by (simp only:)
  then show ?thesis by (rule exI[of _ rank])
qed













lemma row_number_from:
  "filter (\<lambda>(x, n). n = i) (zip xs [j..<j + length xs])
     = (if i = j then (case xs of [] \<Rightarrow> [] | x # _ \<Rightarrow> [(x, i)]) else [])" if "i \<le> j"
  using that
proof (induction xs arbitrary: j)
  case Nil
  show ?case by simp
next
  case (Cons x xs)
  have "[j..<j + length (x # xs)] = j # [Suc j..<Suc j + length xs]"
    by (simp add: upt_rec)
  moreover have "filter (\<lambda>(x, n). n = i) (zip xs [Suc j..<Suc j + length xs]) = []"
    using Cons.IH[of "Suc j"] Cons.prems by simp
  ultimately show ?case by auto
qed

lemma row_number_first:
  "filter (\<lambda>(x, n). n = 1) (row_number xs) = (case xs of [] \<Rightarrow> [] | x # _ \<Rightarrow> [(x, 1)])"
  using row_number_from[of 1 1 xs] by (simp add: row_number_def)

lemma sort_key_head_min:
  assumes "zs \<noteq> []"
  shows "\<exists>a L. sort_key f zs = a # L \<and> a \<in> set zs \<and> (\<forall>x \<in> set zs. f a \<le> f x)"
proof -
  have "sort_key f zs \<noteq> []" using assms by (metis set_sort set_empty)
  then obtain a L where aL: "sort_key f zs = a # L" by (cases "sort_key f zs") auto
  have "a \<in> set zs" by (metis aL list.set_intros(1) set_sort)
  moreover have "f a \<le> f x" if "x \<in> set zs" for x
  proof -
    have "sorted (map f (a # L))" by (metis aL sorted_sort_key)
    moreover have "x \<in> set (a # L)" using that by (metis aL set_sort)
    ultimately show ?thesis by auto
  qed
  ultimately show ?thesis using aL by blast
qed


lemma product_peaks_alt:
  "product_peaks rank col v db =
     map (\<lambda>((k, c), n). \<lparr> pp_product_id = fst k, pp_peak = snd k, pp_orders_in = c, pp_rn = n \<rparr>)
       (concat (map (\<lambda>l. filter (\<lambda>(x, n). n = 1) (row_number l))
          (sorted_partitions (\<lambda>(k, c). fst k) (\<lambda>(k, c). - c)
             (arrange rank (product_value_counts col v db)))))"
  unfolding product_peaks_def window_partitions_def
  by (simp add: filter_map filter_concat comp_def case_prod_unfold)







section \<open>Keys of joins, groups and windows\<close>


lemma filter_key_le1: "distinct (map g ys) \<Longrightarrow> length (filter (\<lambda>b. g b = k) ys) \<le> 1"
proof (induction ys)
  case Nil
  show ?case by simp
next
  case (Cons a ys)
  show ?case
  proof (cases "g a = k")
    case True
    with Cons.prems have "k \<notin> g ` set ys" by auto
    then have "filter (\<lambda>b. g b = k) ys = []"
      unfolding filter_empty_conv by blast
    with True show ?thesis by simp
  next
    case False
    with Cons show ?thesis by simp
  qed
qed

lemma filter_length_mono: "(\<And>b. P b \<Longrightarrow> Q b) \<Longrightarrow> length (filter P ys) \<le> length (filter Q ys)"
  by (induction ys) auto

lemma match_le1:
  assumes "distinct (map g ys)" "\<And>b. on b \<Longrightarrow> g b = k"
  shows "length (filter on ys) \<le> 1"
  using filter_length_mono[of on "\<lambda>b. g b = k" ys] filter_key_le1[OF assms(1), of k] assms(2)
  by fastforce

lemma inner_join_keys_subset:
  "set (map (\<lambda>j. f (fst j)) (inner_join xs ys on)) \<subseteq> f ` set xs"
  by (auto simp: inner_join_def)

lemma inner_join_distinct:
  assumes "distinct (map f xs)" "\<And>a. a \<in> set xs \<Longrightarrow> length (filter (on a) ys) \<le> 1"
  shows "distinct (map (\<lambda>j. f (fst j)) (inner_join xs ys on))"
  using assms
proof (induction xs)
  case Nil
  show ?case by (simp add: inner_join_def)
next
  case (Cons a xs)
  have split: "inner_join (a # xs) ys on = map (Pair a) (filter (on a) ys) @ inner_join xs ys on"
    by (simp add: inner_join_def)
  have "length (filter (on a) ys) \<le> 1" using Cons.prems(2) by simp
  then have d1: "distinct (map (\<lambda>j. f (fst j)) (map (Pair a) (filter (on a) ys)))"
    by (cases "filter (on a) ys") auto
  have d2: "distinct (map (\<lambda>j. f (fst j)) (inner_join xs ys on))"
    using Cons by auto
  have "f a \<notin> f ` set xs" using Cons.prems(1) by auto
  then have d3: "set (map (\<lambda>j. f (fst j)) (map (Pair a) (filter (on a) ys)))
           \<inter> set (map (\<lambda>j. f (fst j)) (inner_join xs ys on)) = {}"
    using inner_join_keys_subset[of f xs ys on] by auto
  show ?case unfolding split map_append distinct_append using d1 d2 d3 by blast
qed

lemma left_join_distinct:
  assumes "distinct (map f xs)" "\<And>a. a \<in> set xs \<Longrightarrow> length (filter (on a) ys) \<le> 1"
  shows "distinct (map (\<lambda>j. f (fst j)) (left_join xs ys on))"
  using assms(1) by (simp add: left_join_single[OF assms(2)] comp_def)

lemma sequence_rows_Inr:
  "sequence_rows xs = Inr t \<Longrightarrow> xs = map Inr t"
proof (induction xs arbitrary: t)
  case Nil
  then show ?case by simp
next
  case (Cons x xs)
  then show ?case by (auto split: sum.splits)
qed

lemma sequence_rows_keys:
  assumes "sequence_rows (map F gs) = Inr t" "\<And>g r. F g = Inr r \<Longrightarrow> key r = fst g"
  shows "map key t = map fst gs"
proof -
  from assms(1) have e: "map F gs = map Inr t" by (rule sequence_rows_Inr)
  then have len: "length gs = length t" by (metis length_map)
  show ?thesis
  proof (rule nth_equalityI)
    show "length (map key t) = length (map fst gs)" using len by simp
    fix i assume "i < length (map key t)"
    then have i: "i < length t" "i < length gs" using len by auto
    from e have "map F gs ! i = map Inr t ! i" by simp
    with i have "F (gs ! i) = Inr (t ! i)" by simp
    from assms(2)[OF this] i show "map key t ! i = map fst gs ! i" by simp
  qed
qed

lemma partition_sum_mset:
  "distinct ps \<Longrightarrow> (\<Sum>p\<leftarrow>ps. filter_mset (\<lambda>r. part r = p) M) = filter_mset (\<lambda>r. part r \<in> set ps) M"
proof (induction ps)
  case Nil
  show ?case by simp
next
  case (Cons p ps)
  then have "(\<Sum>q\<leftarrow>p # ps. filter_mset (\<lambda>r. part r = q) M)
      = filter_mset (\<lambda>r. part r = p) M + filter_mset (\<lambda>r. part r \<in> set ps) M"
    by simp
  also have "\<dots> = filter_mset (\<lambda>r. part r \<in> set (p # ps)) M"
    using Cons.prems by (intro multiset_eqI) auto
  finally show ?case .
qed

lemma window_partitions_concat_mset:
  "mset (concat (sorted_partitions part key xs)) = mset xs"
proof -
  have "mset (concat (sorted_partitions part key xs))
      = (\<Sum>p\<leftarrow>remdups (map part xs). filter_mset (\<lambda>r. part r = p) (mset xs))"
    by (simp add: sorted_partitions_def mset_concat comp_def)
  also have "\<dots> = filter_mset (\<lambda>r. part r \<in> set (remdups (map part xs))) (mset xs)"
    by (rule partition_sum_mset) simp
  also have "\<dots> = mset xs"
    by (intro multiset_eqI) auto
  finally show ?thesis .
qed

lemma map_fst_row_number: "map fst (row_number xs) = xs"
proof -
  have "length [1..<Suc (length xs)] = length xs" by (simp only: length_upt diff_Suc_1)
  then show ?thesis unfolding row_number_def by (metis map_fst_zip)
qed

lemma map_fst_lag: "map fst (lag xs) = xs"
  by (simp add: lag_def map_fst_zip_take)

lemma row_numbers_rows_mset:
  "mset (map fst (concat (map row_number (sorted_partitions part key xs)))) = mset xs"
proof -
  have "map fst (concat (map row_number (sorted_partitions part key xs)))
      = concat (sorted_partitions part key xs)"
    by (simp add: map_concat comp_def map_fst_row_number)
  then show ?thesis by (simp add: window_partitions_concat_mset)
qed

lemma lags_rows_mset:
  "mset (map fst (concat (map lag (sorted_partitions part key xs)))) = mset xs"
proof -
  have "map fst (concat (map lag (sorted_partitions part key xs)))
      = concat (sorted_partitions part key xs)"
    by (simp add: map_concat comp_def map_fst_lag)
  then show ?thesis by (simp add: window_partitions_concat_mset)
qed

lemma distinct_map_mset:
  assumes "mset (map h ys) = mset xs" "distinct (map f xs)"
  shows "distinct (map (\<lambda>y. f (h y)) ys)"
proof -
  have "mset (map f (map h ys)) = mset (map f xs)"
    using assms(1) by (metis mset_map)
  then have "distinct (map f (map h ys))"
    using assms(2) by (metis mset_eq_imp_distinct_iff)
  then show ?thesis by (simp add: comp_def)
qed



lemma match_eq_le1: "distinct (map g ys) \<Longrightarrow> length (filter (\<lambda>b. k = g b) ys) \<le> 1"
  using match_le1[of g ys "\<lambda>b. k = g b" k] by simp

lemma match_eq2_le1:
  "distinct (map (\<lambda>b. (g b, h b)) ys) \<Longrightarrow> length (filter (\<lambda>b. k = g b \<and> l = h b) ys) \<le> 1"
  using match_le1[of "\<lambda>b. (g b, h b)" ys "\<lambda>b. k = g b \<and> l = h b" "(k, l)"] by simp

lemma left_join_fst_subset: "fst ` set (left_join xs ys on) \<subseteq> set xs"
  by (auto simp: left_join_def split: list.splits)

lemma inner_join_fst_subset: "fst ` set (inner_join xs ys on) \<subseteq> set xs"
  by (auto simp: inner_join_def)

lemma inner_join_snd_subset: "snd ` set (inner_join xs ys on) \<subseteq> set ys"
  by (auto simp: inner_join_def)

lemma inner_join_on: "(a, b) \<in> set (inner_join xs ys on) \<Longrightarrow> on a b"
  by (auto simp: inner_join_def)

lemma distinct_orders_in_eval_set:
  "distinct (map o_order_id (ORDERS db)) \<Longrightarrow> distinct (map o_order_id (orders_in_eval_set v db))"
  by (simp add: orders_in_eval_set_def stg_instacart__orders_def distinct_map_filter)

lemma group_by_keys: "map fst (group_by key xs) = remdups (map key xs)"
  by (simp add: group_by_def comp_def)

lemma distinct_group_component:
  assumes "\<And>a b. a \<in> set xs \<Longrightarrow> b \<in> set xs \<Longrightarrow> f (key a) = f (key b) \<Longrightarrow> key a = key b"
  shows "distinct (map (\<lambda>e. f (fst e)) (group_by key xs))"
proof -
  have "inj_on f (set (remdups (map key xs)))"
    using assms by (auto simp: inj_on_def)
  then have "distinct (map f (remdups (map key xs)))"
    by (simp add: distinct_map)
  then show ?thesis
    by (simp add: group_by_keys[symmetric] comp_def)
qed

lemma order_metrics_ids:
  "map om_order_id (order_metrics v db)
     = map (\<lambda>e. fst (fst e))
         (group_by (\<lambda>(od, ol). (o_order_id od, o_user_id od, o_order_number od, o_order_dow od,
                               o_order_hour_of_day od, o_days_since_prior_order od))
          (left_join (orders_in_eval_set v db) (stg_instacart__order_products db)
             (\<lambda>od ol. o_order_id od = op_order_id ol)))"
  unfolding order_metrics_def by (simp add: case_prod_unfold comp_def)

lemma order_metrics_distinct:
  assumes "distinct (map o_order_id (ORDERS db))"
  shows "distinct (map om_order_id (order_metrics v db))"
  unfolding order_metrics_ids
proof (rule distinct_group_component)
  fix a b :: "order_row \<times> order_product_row option"
  let ?J = "left_join (orders_in_eval_set v db) (stg_instacart__order_products db)
             (\<lambda>od ol. o_order_id od = op_order_id ol)"
  let ?K = "\<lambda>(od, ol). (o_order_id od, o_user_id od, o_order_number od, o_order_dow od,
                               o_order_hour_of_day od, o_days_since_prior_order od)"
  assume "a \<in> set ?J" "b \<in> set ?J" "fst (?K a) = fst (?K b)"
  then have "fst a \<in> set (orders_in_eval_set v db)" "fst b \<in> set (orders_in_eval_set v db)"
    "o_order_id (fst a) = o_order_id (fst b)"
    using left_join_fst_subset[of "orders_in_eval_set v db"] by (auto simp: case_prod_unfold)
  with distinct_orders_in_eval_set[OF assms, of v] have "fst a = fst b"
    by (meson distinct_map inj_onD)
  then show "?K a = ?K b" by (simp add: case_prod_unfold)
qed

lemma prev_order_metrics_distinct:
  assumes "distinct (map o_order_id (ORDERS db))"
  shows "distinct (map pom_order_id (prev_order_metrics eng v db))"
proof -
  let ?J = "inner_join (orders_in_eval_set v db) (order_metrics v db)
                (\<lambda>od om. o_order_id od = om_order_id om)"
  let ?A = "arrange (eng Prev_order_window) ?J"
  let ?W = "concat (map lag (sorted_partitions (\<lambda>(od, om). o_user_id od)
                (\<lambda>(od, om). o_order_number od) ?A))"
  have dJ: "distinct (map (\<lambda>j. o_order_id (fst j)) ?J)"
  proof (rule inner_join_distinct)
    show "distinct (map o_order_id (orders_in_eval_set v db))"
      using assms by (rule distinct_orders_in_eval_set)
    show "length (filter (\<lambda>om. o_order_id a = om_order_id om) (order_metrics v db)) \<le> 1" for a
      by (rule match_eq_le1[OF order_metrics_distinct[OF assms]])
  qed
  from dJ have dA: "distinct (map (\<lambda>j. o_order_id (fst j)) ?A)"
    by (simp only: distinct_map_arrange)
  have "distinct (map (\<lambda>y. o_order_id (fst (fst y))) ?W)"
    by (rule distinct_map_mset[where h = fst and xs = ?A and f = "\<lambda>j. o_order_id (fst j)"])
       (rule lags_rows_mset, rule dA)
  moreover have "map pom_order_id (prev_order_metrics eng v db) = map (\<lambda>y. o_order_id (fst (fst y))) ?W"
    unfolding prev_order_metrics_def window_partitions_def by (simp add: case_prod_unfold comp_def)
  ultimately show ?thesis by simp
qed

lemma product_diversity_distinct: "distinct (map pd_order_id (product_diversity v db))"
proof -
  have "map pd_order_id (product_diversity v db)
      = map fst (group_by (\<lambda>(j, p). o_order_id (fst j))
          (inner_join
             (inner_join (orders_in_eval_set v db) (stg_instacart__order_products db)
                (\<lambda>od ol. o_order_id od = op_order_id ol))
             (stg_instacart__products db)
             (\<lambda>j p. op_product_id (snd j) = p_product_id p)))"
    unfolding product_diversity_def by (simp add: case_prod_unfold comp_def)
  then show ?thesis by (simp add: group_by_distinct)
qed

lemma order_features_distinct:
  assumes "distinct (map o_order_id (ORDERS db))"
  shows "distinct (map of_order_id (instacart__order_features eng v db))"
proof -
  let ?J1 = "left_join (order_metrics v db) (prev_order_metrics eng v db)
             (\<lambda>om pom. om_order_id om = pom_order_id pom)"
  let ?J2 = "left_join ?J1 (product_diversity v db) (\<lambda>j pd. om_order_id (fst j) = pd_order_id pd)"
  have d1: "distinct (map (\<lambda>j. om_order_id (fst j)) ?J1)"
    by (rule left_join_distinct[OF order_metrics_distinct[OF assms]])
       (rule match_eq_le1[OF prev_order_metrics_distinct[OF assms]])
  have d2: "distinct (map (\<lambda>j. (\<lambda>j. om_order_id (fst j)) (fst j)) ?J2)"
    by (rule left_join_distinct[OF d1])
       (rule match_eq_le1[OF product_diversity_distinct])
  have "map of_order_id (instacart__order_features eng v db) = map (\<lambda>j. om_order_id (fst (fst j))) ?J2"
    unfolding instacart__order_features_def order_features_final_def
    by (simp add: case_prod_unfold comp_def)
  with d2 show ?thesis by simp
qed



lemma concat_singletons: "(\<And>p. p \<in> set ps \<Longrightarrow> H p = [p]) \<Longrightarrow> concat (map H ps) = ps"
  by (induction ps) auto

lemma first_rows_parts:
  "map (\<lambda>y. part (fst y))
     (concat (map (\<lambda>l. filter (\<lambda>(x, n). n = 1) (row_number l)) (sorted_partitions part key xs)))
   = remdups (map part xs)"
proof -
  have one: "map (\<lambda>y. part (fst y))
        (filter (\<lambda>(x, n). n = 1) (row_number (sort_key key (filter (\<lambda>r. part r = p) xs)))) = [p]"
    if "p \<in> set (remdups (map part xs))" for p
  proof -
    from that have "filter (\<lambda>r. part r = p) xs \<noteq> []"
      by (fastforce simp: filter_empty_conv)
    from sort_key_head_min[OF this, of key]
    obtain a L where a: "sort_key key (filter (\<lambda>r. part r = p) xs) = a # L"
      "a \<in> set (filter (\<lambda>r. part r = p) xs)"
      by blast
    then have "part a = p" by simp
    then show ?thesis unfolding a(1) row_number_first by simp
  qed
  have "map (\<lambda>y. part (fst y))
     (concat (map (\<lambda>l. filter (\<lambda>(x, n). n = 1) (row_number l)) (sorted_partitions part key xs)))
   = concat (map (\<lambda>p. map (\<lambda>y. part (fst y))
        (filter (\<lambda>(x, n). n = 1) (row_number (sort_key key (filter (\<lambda>r. part r = p) xs)))))
        (remdups (map part xs)))"
    by (simp add: sorted_partitions_def map_concat comp_def)
  also have "\<dots> = remdups (map part xs)"
    by (rule concat_singletons) (rule one)
  finally show ?thesis .
qed

lemma sequence_rows_map:
  assumes "sequence_rows (map F gs) = Inr t" "\<And>g r. F g = Inr r \<Longrightarrow> key r = k g"
  shows "map key t = map k gs"
proof -
  from assms(1) have e: "map F gs = map Inr t" by (rule sequence_rows_Inr)
  then have len: "length gs = length t" by (metis length_map)
  show ?thesis
  proof (rule nth_equalityI)
    show "length (map key t) = length (map k gs)" using len by simp
    fix i assume "i < length (map key t)"
    then have i: "i < length t" "i < length gs" using len by auto
    from e have "map F gs ! i = map Inr t ! i" by simp
    with i have "F (gs ! i) = Inr (t ! i)" by simp
    from assms(2)[OF this] i show "map key t ! i = map k gs ! i" by simp
  qed
qed

lemma user_metrics_distinct:
  assumes "int_instacart__user_order_metrics eng v db = Inr um"
  shows "distinct (map um_user_id um)"
proof -
  have "map um_user_id um
      = map fst (group_by oj_user_id
          (arrange (eng Preferred_day_mode)
             (filter (\<lambda>r. oj_order_number r \<ge> var_min_orders v) (orders_joined v db))))"
    using assms unfolding int_instacart__user_order_metrics_def
    by (rule sequence_rows_map) (auto simp: user_metrics_group_def split: sum.splits prod.splits)
  then show ?thesis by (simp add: group_by_distinct)
qed

lemma distinct_products_distinct: "distinct (map dp_user_id (distinct_products v db))"
proof -
  have "map dp_user_id (distinct_products v db)
      = map fst (group_by (\<lambda>(od, ol). o_user_id od)
          (filter (\<lambda>(od, ol). o_eval_set od = var_eval_set v)
             (inner_join (stg_instacart__orders db) (stg_instacart__order_products db)
                (\<lambda>od ol. o_order_id od = op_order_id ol))))"
    unfolding distinct_products_def by (simp add: case_prod_unfold comp_def)
  then show ?thesis by (simp add: group_by_distinct)
qed

lemma reorder_stats_distinct: "distinct (map rs_user_id (reorder_stats v db))"
proof -
  have "map rs_user_id (reorder_stats v db)
      = map fst (group_by (\<lambda>(od, ol). o_user_id od)
          (filter (\<lambda>(od, ol). o_eval_set od = var_eval_set v)
             (inner_join (stg_instacart__orders db) (stg_instacart__order_products db)
                (\<lambda>od ol. o_order_id od = op_order_id ol))))"
    unfolding reorder_stats_def by (simp add: case_prod_unfold comp_def)
  then show ?thesis by (simp add: group_by_distinct)
qed

lemma last_order_per_user_distinct: "distinct (map lo_user_id (last_order_per_user eng v db))"
proof -
  let ?xs = "arrange (eng Last_order_window)
               (filter (\<lambda>od. o_eval_set od = var_eval_set v) (stg_instacart__orders db))"
  have "map lo_user_id (last_order_per_user eng v db)
      = map (\<lambda>y. o_user_id (fst y))
          (concat (map (\<lambda>l. filter (\<lambda>(x, n). n = 1) (row_number l))
             (sorted_partitions o_user_id (\<lambda>od. - o_order_number od) ?xs)))"
    unfolding last_order_per_user_def last_orders_def window_partitions_def
    by (simp add: filter_map filter_concat comp_def case_prod_unfold)
  also have "\<dots> = remdups (map o_user_id ?xs)"
    by (rule first_rows_parts)
  finally show ?thesis by simp
qed

lemma user_features_Inr:
  assumes "instacart__user_features eng v db = Inr t"
  obtains um where "int_instacart__user_order_metrics eng v db = Inr um"
    "t = map user_features_final
         (inner_join
            (inner_join
               (inner_join um (distinct_products v db)
                  (\<lambda>um dp. um_user_id um = dp_user_id dp))
               (reorder_stats v db)
               (\<lambda>j rs. um_user_id (fst j) = rs_user_id rs))
            (last_order_per_user eng v db)
            (\<lambda>j lo. um_user_id (fst (fst j)) = lo_user_id lo))"
  using assms unfolding instacart__user_features_def bind_rows_def
  by (auto split: sum.splits)

lemma user_features_distinct:
  assumes "instacart__user_features eng v db = Inr t"
  shows "distinct (map uf_user_id t)"
proof -
  from assms obtain um where um: "int_instacart__user_order_metrics eng v db = Inr um"
    and t: "t = map user_features_final
         (inner_join
            (inner_join
               (inner_join um (distinct_products v db)
                  (\<lambda>um dp. um_user_id um = dp_user_id dp))
               (reorder_stats v db)
               (\<lambda>j rs. um_user_id (fst j) = rs_user_id rs))
            (last_order_per_user eng v db)
            (\<lambda>j lo. um_user_id (fst (fst j)) = lo_user_id lo))"
    by (rule user_features_Inr)
  let ?J1 = "inner_join um (distinct_products v db) (\<lambda>um dp. um_user_id um = dp_user_id dp)"
  let ?J2 = "inner_join ?J1 (reorder_stats v db) (\<lambda>j rs. um_user_id (fst j) = rs_user_id rs)"
  let ?J3 = "inner_join ?J2 (last_order_per_user eng v db)
               (\<lambda>j lo. um_user_id (fst (fst j)) = lo_user_id lo)"
  have d1: "distinct (map (\<lambda>j. um_user_id (fst j)) ?J1)"
    by (rule inner_join_distinct[OF user_metrics_distinct[OF um]])
       (rule match_eq_le1[OF distinct_products_distinct])
  have d2: "distinct (map (\<lambda>j. (\<lambda>j. um_user_id (fst j)) (fst j)) ?J2)"
    by (rule inner_join_distinct[OF d1]) (rule match_eq_le1[OF reorder_stats_distinct])
  have d3: "distinct (map (\<lambda>j. (\<lambda>j. um_user_id (fst (fst j))) (fst j)) ?J3)"
    by (rule inner_join_distinct) (use d2 in simp, rule match_eq_le1[OF last_order_per_user_distinct])
  have "map uf_user_id t = map (\<lambda>j. um_user_id (fst (fst (fst j)))) ?J3"
    unfolding t user_features_final_def by (simp add: case_prod_unfold comp_def)
  with d3 show ?thesis by simp
qed



lemma product_metrics_distinct:
  assumes "distinct (map p_product_id (PRODUCTS db))"
    and "int_instacart__product_metrics v db = Inr pm"
  shows "distinct (map pm_product_id pm)"
proof -
  let ?J = "inner_join
             (inner_join (stg_instacart__order_products db) (orders_in_eval_set v db)
                (\<lambda>ol od. op_order_id ol = o_order_id od))
             (stg_instacart__products db)
             (\<lambda>j p. op_product_id (fst j) = p_product_id p)"
  let ?K = "\<lambda>(j, p). (op_product_id (fst j), p_aisle_id p, p_department_id p)"
  have "map pm_product_id pm = map (\<lambda>e. fst (fst e)) (group_by ?K ?J)"
    using assms(2) unfolding int_instacart__product_metrics_def
    by (rule sequence_rows_map)
       (auto simp: product_metrics_group_def split: sum.splits prod.splits)
  moreover have "distinct (map (\<lambda>e. fst (fst e)) (group_by ?K ?J))"
  proof (rule distinct_group_component)
    fix a b :: "(order_product_row \<times> order_row) \<times> product_row"
    assume ab: "a \<in> set ?J" "b \<in> set ?J" "fst (?K a) = fst (?K b)"
    then have on: "op_product_id (fst (fst a)) = p_product_id (snd a)"
      "op_product_id (fst (fst b)) = p_product_id (snd b)"
      using inner_join_on[of "fst a" "snd a"] inner_join_on[of "fst b" "snd b"] by auto
    from ab have "snd a \<in> set (PRODUCTS db)" "snd b \<in> set (PRODUCTS db)"
      using inner_join_snd_subset[of _ "stg_instacart__products db"]
      by (auto simp: stg_instacart__products_def)
    moreover from ab on have "p_product_id (snd a) = p_product_id (snd b)"
      by (simp add: case_prod_unfold)
    ultimately have "snd a = snd b"
      using assms(1) by (meson distinct_map inj_onD)
    with ab(3) show "?K a = ?K b" by (simp add: case_prod_unfold)
  qed
  ultimately show ?thesis by simp
qed

lemma rankings_distinct:
  assumes "distinct (map pm_product_id pm)"
  shows "distinct (map (\<lambda>dr. pm_product_id (fst dr)) (department_rankings eng pm))"
    and "distinct (map (\<lambda>ar. pm_product_id (fst ar)) (aisle_rankings eng pm))"
proof -
  have d: "distinct (map pm_product_id (arrange rank pm))" for rank
    using assms by (simp only: distinct_map_arrange)
  show "distinct (map (\<lambda>dr. pm_product_id (fst dr)) (department_rankings eng pm))"
    unfolding department_rankings_def window_partitions_def
    by (rule distinct_map_mset[OF row_numbers_rows_mset d])
  show "distinct (map (\<lambda>ar. pm_product_id (fst ar)) (aisle_rankings eng pm))"
    unfolding aisle_rankings_def window_partitions_def
    by (rule distinct_map_mset[OF row_numbers_rows_mset d])
qed

lemma department_stats_distinct: "distinct (map ds_department_id (department_stats pm))"
proof -
  have "map ds_department_id (department_stats pm) = map fst (group_by pm_department_id pm)"
    unfolding department_stats_def by (simp add: case_prod_unfold comp_def)
  then show ?thesis by (simp add: group_by_distinct)
qed

lemma product_peaks_distinct: "distinct (map pp_product_id (product_peaks rank col v db))"
proof -
  have "map pp_product_id (product_peaks rank col v db)
      = map (\<lambda>y. (\<lambda>(k, c). fst k) (fst y))
          (concat (map (\<lambda>l. filter (\<lambda>(x, n). n = 1) (row_number l))
             (sorted_partitions (\<lambda>(k, c). fst k) (\<lambda>(k, c). - c)
                (arrange rank (product_value_counts col v db)))))"
    unfolding product_peaks_alt by (simp add: case_prod_unfold comp_def)
  also have "\<dots> = remdups (map (\<lambda>(k, c). fst k) (arrange rank (product_value_counts col v db)))"
    by (rule first_rows_parts)
  finally show ?thesis by simp
qed

lemma product_features_joins_distinct:
  assumes "distinct (map p_product_id (PRODUCTS db))"
    and "distinct (map a_aisle_id (AISLES db))"
    and "distinct (map d_department_id (DEPARTMENTS db))"
    and "distinct (map pm_product_id pm)"
  shows "distinct (map (\<lambda>j. p_product_id (fst (fst (fst (fst (fst (fst (fst (fst j)))))))))
                    (product_features_joins eng v db pm))"
proof -
  let ?J1 = "inner_join (stg_instacart__products db) pm (\<lambda>p pm. p_product_id p = pm_product_id pm)"
  let ?J2 = "inner_join ?J1 (stg_instacart__aisles db) (\<lambda>j a. p_aisle_id (fst j) = a_aisle_id a)"
  let ?J3 = "inner_join ?J2 (stg_instacart__departments db)
               (\<lambda>j d. p_department_id (fst (fst j)) = d_department_id d)"
  let ?J4 = "inner_join ?J3 (department_rankings eng pm)
               (\<lambda>j dr. p_product_id (fst (fst (fst j))) = pm_product_id (fst dr))"
  let ?J5 = "inner_join ?J4 (aisle_rankings eng pm)
               (\<lambda>j ar. p_product_id (fst (fst (fst (fst j)))) = pm_product_id (fst ar))"
  let ?J6 = "inner_join ?J5 (department_stats pm)
               (\<lambda>j ds. p_department_id (fst (fst (fst (fst (fst j))))) = ds_department_id ds)"
  let ?J7 = "left_join ?J6 (product_peak_hours eng v db)
               (\<lambda>j pph. p_product_id (fst (fst (fst (fst (fst (fst j)))))) = pp_product_id pph)"
  let ?J8 = "left_join ?J7 (product_peak_days eng v db)
               (\<lambda>j ppd. p_product_id (fst (fst (fst (fst (fst (fst (fst j))))))) = pp_product_id ppd)"
  have e: "product_features_joins eng v db pm = ?J8"
    unfolding product_features_joins_def by (simp add: case_prod_unfold)
  have d1: "distinct (map (\<lambda>j. p_product_id (fst j)) ?J1)"
    by (rule inner_join_distinct) (use assms(1) in \<open>simp add: stg_instacart__products_def\<close>,
        rule match_eq_le1[OF assms(4)])
  have d2: "distinct (map (\<lambda>j. (\<lambda>j. p_product_id (fst j)) (fst j)) ?J2)"
    by (rule inner_join_distinct[OF d1])
       (rule match_eq_le1, use assms(2) in \<open>simp add: stg_instacart__aisles_def\<close>)
  have d3: "distinct (map (\<lambda>j. (\<lambda>j. p_product_id (fst (fst j))) (fst j)) ?J3)"
    by (rule inner_join_distinct) (use d2 in simp,
        rule match_eq_le1, use assms(3) in \<open>simp add: stg_instacart__departments_def\<close>)
  have d4: "distinct (map (\<lambda>j. (\<lambda>j. p_product_id (fst (fst (fst j)))) (fst j)) ?J4)"
    by (rule inner_join_distinct) (use d3 in simp, rule match_eq_le1[OF rankings_distinct(1)[OF assms(4)]])
  have d5: "distinct (map (\<lambda>j. (\<lambda>j. p_product_id (fst (fst (fst (fst j))))) (fst j)) ?J5)"
    by (rule inner_join_distinct) (use d4 in simp, rule match_eq_le1[OF rankings_distinct(2)[OF assms(4)]])
  have d6: "distinct (map (\<lambda>j. (\<lambda>j. p_product_id (fst (fst (fst (fst (fst j)))))) (fst j)) ?J6)"
    by (rule inner_join_distinct) (use d5 in simp, rule match_eq_le1[OF department_stats_distinct])
  have d7: "distinct (map (\<lambda>j. (\<lambda>j. p_product_id (fst (fst (fst (fst (fst (fst j))))))) (fst j)) ?J7)"
    by (rule left_join_distinct) (use d6 in simp,
        rule match_eq_le1, simp add: product_peak_hours_def product_peaks_distinct)
  have d8: "distinct (map (\<lambda>j. (\<lambda>j. p_product_id (fst (fst (fst (fst (fst (fst (fst j)))))))) (fst j)) ?J8)"
    by (rule left_join_distinct) (use d7 in simp,
        rule match_eq_le1, simp add: product_peak_days_def product_peaks_distinct)
  from d8 show ?thesis unfolding e by simp
qed

lemma product_features_Inr:
  assumes "instacart__product_features eng v db = Inr t"
  obtains pm where "int_instacart__product_metrics v db = Inr pm"
    "t = map product_features_final (product_features_joins eng v db pm)"
  using assms unfolding instacart__product_features_def bind_rows_def
  by (auto split: sum.splits)

lemma product_features_distinct:
  assumes "distinct (map p_product_id (PRODUCTS db))"
    and "distinct (map a_aisle_id (AISLES db))"
    and "distinct (map d_department_id (DEPARTMENTS db))"
    and "instacart__product_features eng v db = Inr t"
  shows "distinct (map pf_product_id t)"
proof -
  from assms(4) obtain pm where pm: "int_instacart__product_metrics v db = Inr pm"
    and t: "t = map product_features_final (product_features_joins eng v db pm)"
    by (rule product_features_Inr)
  have "map pf_product_id t
      = map (\<lambda>j. p_product_id (fst (fst (fst (fst (fst (fst (fst (fst j)))))))))
          (product_features_joins eng v db pm)"
    unfolding t product_features_final_def by (simp add: case_prod_unfold comp_def)
  with product_features_joins_distinct[OF assms(1-3) product_metrics_distinct[OF assms(1) pm]]
  show ?thesis by simp
qed



lemma user_product_metrics_distinct:
  "distinct (map (\<lambda>r. (upm_user_id r, upm_product_id r)) (int_instacart__user_product_metrics v db))"
proof -
  have "map (\<lambda>r. (upm_user_id r, upm_product_id r)) (int_instacart__user_product_metrics v db)
      = map fst (group_by (\<lambda>(od, ol). (o_user_id od, op_product_id ol)) (user_orders v db))"
    unfolding int_instacart__user_product_metrics_def by (simp add: case_prod_unfold comp_def)
  then show ?thesis by (simp add: group_by_distinct)
qed

lemma time_patterns_distinct:
  "distinct (map (\<lambda>r. (uptp_user_id r, uptp_product_id r)) (user_product_time_patterns v db))"
proof -
  have "map (\<lambda>r. (uptp_user_id r, uptp_product_id r)) (user_product_time_patterns v db)
      = map fst (group_by (\<lambda>(od, ol). (o_user_id od, op_product_id ol))
          (inner_join (orders_in_eval_set v db) (stg_instacart__order_products db)
             (\<lambda>od ol. o_order_id od = op_order_id ol)))"
    unfolding user_product_time_patterns_def by (simp add: case_prod_unfold comp_def)
  then show ?thesis by (simp add: group_by_distinct)
qed

lemma dominant_day_parts_distinct:
  "distinct (map (\<lambda>r. (ddp_user_id r, ddp_product_id r)) (dominant_day_parts v db))"
  using time_patterns_distinct[of v db] by (simp add: dominant_day_parts_def comp_def)

lemma dominant_dows_distinct:
  "distinct (map (\<lambda>r. (dd_user_id r, dd_product_id r)) (dominant_dows v db))"
  using time_patterns_distinct[of v db] by (simp add: dominant_dows_def comp_def)

lemma last_purchase_distinct:
  "distinct (map (\<lambda>r. (lp_user_id r, lp_product_id r)) (last_purchase eng v db))"
proof -
  let ?xs = "arrange (eng Purchase_recency_window)
               (inner_join (orders_in_eval_set v db) (stg_instacart__order_products db)
                  (\<lambda>od ol. o_order_id od = op_order_id ol))"
  have "map (\<lambda>r. (lp_user_id r, lp_product_id r)) (last_purchase eng v db)
      = map (\<lambda>y. (\<lambda>(od, ol). (o_user_id od, op_product_id ol)) (fst y))
          (concat (map (\<lambda>l. filter (\<lambda>(x, n). n = 1) (row_number l))
             (sorted_partitions (\<lambda>(od, ol). (o_user_id od, op_product_id ol))
                (\<lambda>(od, ol). - o_order_number od) ?xs)))"
    unfolding last_purchase_def user_product_recency_def window_partitions_def
    by (simp add: filter_map filter_concat comp_def case_prod_unfold)
  also have "\<dots> = remdups (map (\<lambda>(od, ol). (o_user_id od, op_product_id ol)) ?xs)"
    by (rule first_rows_parts)
  finally show ?thesis by simp
qed

lemma user_product_normalized_distinct:
  assumes "distinct (map uf_user_id uf)" "distinct (map fst pf)"
  shows "distinct (map (\<lambda>r. (upn_user_id r, upn_product_id r))
           (user_product_normalized (int_instacart__user_product_metrics v db) uf pf))"
proof -
  let ?key = "\<lambda>r. (upm_user_id r, upm_product_id r)"
  let ?J1 = "inner_join (int_instacart__user_product_metrics v db) (user_avg_stats uf)
             (\<lambda>upm uas. upm_user_id upm = fst uas)"
  let ?J2 = "inner_join ?J1 pf (\<lambda>j pf. upm_product_id (fst j) = fst pf)"
  have uas: "distinct (map fst (user_avg_stats uf))"
    using assms(1) by (simp add: user_avg_stats_def comp_def)
  have d1: "distinct (map (\<lambda>j. ?key (fst j)) ?J1)"
    by (rule inner_join_distinct[OF user_product_metrics_distinct]) (rule match_eq_le1[OF uas])
  have d2: "distinct (map (\<lambda>j. (\<lambda>j. ?key (fst j)) (fst j)) ?J2)"
    by (rule inner_join_distinct[OF d1]) (rule match_eq_le1[OF assms(2)])
  have "map (\<lambda>r. (upn_user_id r, upn_product_id r))
           (user_product_normalized (int_instacart__user_product_metrics v db) uf pf)
      = map (\<lambda>j. ?key (fst (fst j))) ?J2"
    unfolding user_product_normalized_def by (simp add: case_prod_unfold comp_def)
  with d2 show ?thesis by simp
qed

lemma user_product_features_joins_distinct:
  assumes "distinct (map uf_user_id uf)" "distinct (map fst pf)"
  shows "distinct (map (\<lambda>j. (\<lambda>r. (upm_user_id r, upm_product_id r))
                          (fst (fst (fst (fst (fst (fst (fst j))))))))
                    (user_product_features_joins eng v db uf pf))"
proof -
  let ?key = "\<lambda>r. (upm_user_id r, upm_product_id r)"
  let ?upm = "int_instacart__user_product_metrics v db"
  let ?J1 = "inner_join ?upm uf (\<lambda>upm uf. upm_user_id upm = uf_user_id uf)"
  let ?J2 = "inner_join ?J1 pf (\<lambda>j pf. upm_product_id (fst j) = fst pf)"
  let ?J3 = "left_join ?J2 (last_purchase eng v db)
      (\<lambda>j lp. upm_user_id (fst (fst j)) = lp_user_id lp
            \<and> upm_product_id (fst (fst j)) = lp_product_id lp)"
  let ?J4 = "left_join ?J3 (user_product_time_patterns v db)
      (\<lambda>j uptp. upm_user_id (fst (fst (fst j))) = uptp_user_id uptp
            \<and> upm_product_id (fst (fst (fst j))) = uptp_product_id uptp)"
  let ?J5 = "left_join ?J4 (user_product_normalized ?upm uf pf)
      (\<lambda>j upn. upm_user_id (fst (fst (fst (fst j)))) = upn_user_id upn
            \<and> upm_product_id (fst (fst (fst (fst j)))) = upn_product_id upn)"
  let ?J6 = "left_join ?J5 (dominant_day_parts v db)
      (\<lambda>j ddp. upm_user_id (fst (fst (fst (fst (fst j))))) = ddp_user_id ddp
            \<and> upm_product_id (fst (fst (fst (fst (fst j))))) = ddp_product_id ddp)"
  let ?J7 = "left_join ?J6 (dominant_dows v db)
      (\<lambda>j dd. upm_user_id (fst (fst (fst (fst (fst (fst j)))))) = dd_user_id dd
            \<and> upm_product_id (fst (fst (fst (fst (fst (fst j)))))) = dd_product_id dd)"
  have e: "user_product_features_joins eng v db uf pf = ?J7"
    unfolding user_product_features_joins_def by (simp add: case_prod_unfold)
  have d1: "distinct (map (\<lambda>j. ?key (fst j)) ?J1)"
    by (rule inner_join_distinct[OF user_product_metrics_distinct]) (rule match_eq_le1[OF assms(1)])
  have d2: "distinct (map (\<lambda>j. (\<lambda>j. ?key (fst j)) (fst j)) ?J2)"
    by (rule inner_join_distinct[OF d1]) (rule match_eq_le1[OF assms(2)])
  have d3: "distinct (map (\<lambda>j. (\<lambda>j. ?key (fst (fst j))) (fst j)) ?J3)"
    by (rule left_join_distinct) (use d2 in simp, rule match_eq2_le1[OF last_purchase_distinct])
  have d4: "distinct (map (\<lambda>j. (\<lambda>j. ?key (fst (fst (fst j)))) (fst j)) ?J4)"
    by (rule left_join_distinct) (use d3 in simp, rule match_eq2_le1[OF time_patterns_distinct])
  have d5: "distinct (map (\<lambda>j. (\<lambda>j. ?key (fst (fst (fst (fst j))))) (fst j)) ?J5)"
    by (rule left_join_distinct) (use d4 in simp,
        rule match_eq2_le1[OF user_product_normalized_distinct[OF assms]])
  have d6: "distinct (map (\<lambda>j. (\<lambda>j. ?key (fst (fst (fst (fst (fst j)))))) (fst j)) ?J6)"
    by (rule left_join_distinct) (use d5 in simp, rule match_eq2_le1[OF dominant_day_parts_distinct])
  have d7: "distinct (map (\<lambda>j. (\<lambda>j. ?key (fst (fst (fst (fst (fst (fst j))))))) (fst j)) ?J7)"
    by (rule left_join_distinct) (use d6 in simp, rule match_eq2_le1[OF dominant_dows_distinct])
  from d7 show ?thesis unfolding e by simp
qed

lemma user_product_features_Inr:
  assumes "instacart__user_product_features eng v db = Inr t"
  obtains uf pf where "instacart__user_features eng v db = Inr uf"
    "instacart__product_features eng v db = Inr pf"
    "t = map user_product_features_final
           (user_product_features_joins eng v db uf (product_features_cte pf))"
  using assms unfolding instacart__user_product_features_def bind_rows_def
  by (auto split: sum.splits)

lemma user_product_features_keys:
  "upf_user_id (user_product_features_final j) = upm_user_id (fst (fst (fst (fst (fst (fst (fst j)))))))"
  "upf_product_id (user_product_features_final j) = upm_product_id (fst (fst (fst (fst (fst (fst (fst j)))))))"
  "upf_user_product_id (user_product_features_final j)
     = to_varchar (upf_user_id (user_product_features_final j)) @ ''_''
       @ to_varchar (upf_product_id (user_product_features_final j))"
  unfolding user_product_features_final_def by (simp_all add: case_prod_unfold)

lemma user_product_features_distinct:
  assumes "distinct (map p_product_id (PRODUCTS db))"
    and "distinct (map a_aisle_id (AISLES db))"
    and "distinct (map d_department_id (DEPARTMENTS db))"
    and "instacart__user_product_features eng v db = Inr t"
  shows "distinct (map (\<lambda>r. (upf_user_id r, upf_product_id r)) t)"
    and "distinct (map upf_user_product_id t)"
    and "\<forall>r \<in> set t. upf_user_product_id r
            = to_varchar (upf_user_id r) @ ''_'' @ to_varchar (upf_product_id r)"
proof -
  from assms(4) obtain uf pf where uf: "instacart__user_features eng v db = Inr uf"
    and pf: "instacart__product_features eng v db = Inr pf"
    and t: "t = map user_product_features_final
           (user_product_features_joins eng v db uf (product_features_cte pf))"
    by (rule user_product_features_Inr)
  have dpf: "distinct (map fst (product_features_cte pf))"
    using product_features_distinct[OF assms(1-3) pf]
    by (simp add: product_features_cte_def comp_def)
  have "map (\<lambda>r. (upf_user_id r, upf_product_id r)) t
      = map (\<lambda>j. (\<lambda>r. (upm_user_id r, upm_product_id r))
                          (fst (fst (fst (fst (fst (fst (fst j))))))))
          (user_product_features_joins eng v db uf (product_features_cte pf))"
    unfolding t by (simp add: user_product_features_keys comp_def)
  with user_product_features_joins_distinct[OF user_features_distinct[OF uf] dpf]
  show pairs: "distinct (map (\<lambda>r. (upf_user_id r, upf_product_id r)) t)" by simp
  show ids: "\<forall>r \<in> set t. upf_user_product_id r
            = to_varchar (upf_user_id r) @ ''_'' @ to_varchar (upf_product_id r)"
    unfolding t using user_product_features_keys(3) by auto
  have "inj_on (\<lambda>k. to_varchar (fst k) @ ''_'' @ to_varchar (snd k)) A" for A :: "(int \<times> int) set"
    by (rule inj_onI) (metis user_product_id_inj prod.collapse)
  with pairs have "distinct (map (\<lambda>k. to_varchar (fst k) @ ''_'' @ to_varchar (snd k))
      (map (\<lambda>r. (upf_user_id r, upf_product_id r)) t))"
    by (simp only: distinct_map)
  then have "distinct (map (\<lambda>r. to_varchar (upf_user_id r) @ ''_'' @ to_varchar (upf_product_id r)) t)"
    by (simp only: map_map comp_def fst_conv snd_conv)
  moreover have "map upf_user_product_id t
      = map (\<lambda>r. to_varchar (upf_user_id r) @ ''_'' @ to_varchar (upf_product_id r)) t"
    by (rule map_cong) (use ids in auto)
  ultimately show "distinct (map upf_user_product_id t)" by (simp only:)
qed


text \<open>
  Claim C3.  For raw tables with unique \<open>order_id\<close>, \<open>product_id\<close>, \<open>aisle_id\<close> and
  \<open>department_id\<close>, every feature table that is produced has a unique key: \<open>user_id\<close> in
  the user features, \<open>product_id\<close> in the product features, \<open>order_id\<close> in the order
  features, and the pair (\<open>user_id\<close>, \<open>product_id\<close>) as well as its text \<open>user_product_id\<close>
  in the user-product features; no join of a composer yields two rows for one key.  The
  key columns come from non-NULL source columns through GROUP BY and join equalities, and
  the text key is a concatenation of casts, so they are never NULL: in the model they have
  the types \<open>int\<close> and \<open>string\<close>.
\<close>

theorem feature_table_keys_unique:
  assumes "distinct (map o_order_id (ORDERS db))"
    and "distinct (map p_product_id (PRODUCTS db))"
    and "distinct (map a_aisle_id (AISLES db))"
    and "distinct (map d_department_id (DEPARTMENTS db))"
  shows "(\<forall>t. instacart__user_features eng v db = Inr t \<longrightarrow> distinct (map uf_user_id t))
     \<and> (\<forall>t. instacart__product_features eng v db = Inr t \<longrightarrow> distinct (map pf_product_id t))
     \<and> distinct (map of_order_id (instacart__order_features eng v db))
     \<and> (\<forall>t. instacart__user_product_features eng v db = Inr t \<longrightarrow>
          distinct (map (\<lambda>r. (upf_user_id r, upf_product_id r)) t)
          \<and> distinct (map upf_user_product_id t)
          \<and> (\<forall>r \<in> set t. upf_user_product_id r
                = to_varchar (upf_user_id r) @ ''_'' @ to_varchar (upf_product_id r)))"
  using user_features_distinct product_features_distinct[OF assms(2-4)]
    order_features_distinct[OF assms(1)] user_product_features_distinct[OF assms(2-4)]
  by blast

theorem feature_table_keys_unique_witness:
  "distinct (map o_order_id (ORDERS scenario_db))
   \<and> distinct (map p_product_id (PRODUCTS scenario_db))
   \<and> distinct (map a_aisle_id (AISLES scenario_db))
   \<and> distinct (map d_department_id (DEPARTMENTS scenario_db))
   \<and> (\<exists>t. instacart__user_features scan_order default_vars scenario_db = Inr t \<and> length t = 1
          \<and> distinct (map uf_user_id t))
   \<and> (\<exists>t. instacart__product_features scan_order default_vars scenario_db = Inr t \<and> length t = 3
          \<and> distinct (map pf_product_id t))
   \<and> length (instacart__order_features scan_order default_vars scenario_db) = 4
   \<and> distinct (map of_order_id (instacart__order_features scan_order default_vars scenario_db))
   \<and> (\<exists>t. instacart__user_product_features scan_order default_vars scenario_db = Inr t \<and> length t = 3
          \<and> distinct (map upf_user_product_id t))"
proof -
  have h: "distinct (map o_order_id (ORDERS scenario_db))"
    "distinct (map p_product_id (PRODUCTS scenario_db))"
    "distinct (map a_aisle_id (AISLES scenario_db))"
    "distinct (map d_department_id (DEPARTMENTS scenario_db))"
    by code_simp+
  have "map_sum id length (instacart__user_features scan_order default_vars scenario_db) = Inr 1"
    by code_simp
  then obtain t1 where t1: "instacart__user_features scan_order default_vars scenario_db = Inr t1"
    "length t1 = 1"
    by (cases "instacart__user_features scan_order default_vars scenario_db") auto
  have "map_sum id length (instacart__product_features scan_order default_vars scenario_db) = Inr 3"
    by code_simp
  then obtain t2 where t2: "instacart__product_features scan_order default_vars scenario_db = Inr t2"
    "length t2 = 3"
    by (cases "instacart__product_features scan_order default_vars scenario_db") auto
  have l3: "length (instacart__order_features scan_order default_vars scenario_db) = 4"
    by code_simp
  have "map_sum id length (instacart__user_product_features scan_order default_vars scenario_db) = Inr 3"
    by code_simp
  then obtain t4 where t4: "instacart__user_product_features scan_order default_vars scenario_db = Inr t4"
    "length t4 = 3"
    by (cases "instacart__user_product_features scan_order default_vars scenario_db") auto
  from feature_table_keys_unique [OF h, of scan_order default_vars] t1 t2 t4
  have "distinct (map uf_user_id t1)" "distinct (map pf_product_id t2)"
    "distinct (map of_order_id (instacart__order_features scan_order default_vars scenario_db))"
    "distinct (map upf_user_product_id t4)"
    by blast+
  with h t1 t2 l3 t4 show ?thesis by blast
qed

section \<open>Point-in-time correctness\<close>


lemma inner_join_restrict_right:
  assumes "\<And>a b. a \<in> set xs \<Longrightarrow> on a b \<Longrightarrow> P b"
  shows "inner_join xs (filter P ys) on = inner_join xs ys on"
proof -
  have "filter (on a) (filter P ys) = filter (on a) ys" if "a \<in> set xs" for a
    using assms[OF that] by (auto simp: filter_filter intro: filter_cong)
  then show ?thesis unfolding inner_join_def by (auto intro: arg_cong[of _ _ concat])
qed

lemma left_join_restrict_right:
  assumes "\<And>a b. a \<in> set xs \<Longrightarrow> on a b \<Longrightarrow> P b"
  shows "left_join xs (filter P ys) on = left_join xs ys on"
proof -
  have "filter (on a) (filter P ys) = filter (on a) ys" if "a \<in> set xs" for a
    using assms[OF that] by (auto simp: filter_filter intro: filter_cong)
  then show ?thesis unfolding left_join_def by (auto intro: arg_cong[of _ _ concat])
qed

lemma inner_join_restrict_left:
  "inner_join (filter (\<lambda>a. list_ex (on a) ys) xs) ys on = inner_join xs ys on"
proof (induction xs)
  case Nil
  show ?case by (simp add: inner_join_def)
next
  case (Cons a xs)
  have "\<not> list_ex (on a) ys \<Longrightarrow> filter (on a) ys = []"
    by (auto simp: list_ex_iff filter_empty_conv)
  with Cons show ?case by (auto simp: inner_join_def)
qed

lemma filter_inner_join_left:
  "filter (\<lambda>(a, b). P a) (inner_join xs ys on) = inner_join (filter P xs) ys on"
  by (induction xs) (auto simp: inner_join_def filter_map comp_def)

lemma filter_inner_join_right:
  "filter (\<lambda>(a, b). P b) (inner_join xs ys on) = inner_join xs (filter P ys) on"
proof -
  have "filter (\<lambda>(a, b). P b) (map (Pair a) (filter (on a) ys))
      = map (Pair a) (filter (on a) (filter P ys))" for a
    by (simp add: filter_map comp_def conj_commute)
  then show ?thesis by (induction xs) (auto simp: inner_join_def)
qed

lemma prior_joins:
  assumes "same_prior_data v db db'"
  shows "inner_join (orders_in_eval_set v db) (stg_instacart__order_products db)
             (\<lambda>od ol. o_order_id od = op_order_id ol)
       = inner_join (orders_in_eval_set v db') (stg_instacart__order_products db')
             (\<lambda>od ol. o_order_id od = op_order_id ol)" (is ?I1)
    and "left_join (orders_in_eval_set v db) (stg_instacart__order_products db)
             (\<lambda>od ol. o_order_id od = op_order_id ol)
       = left_join (orders_in_eval_set v db') (stg_instacart__order_products db')
             (\<lambda>od ol. o_order_id od = op_order_id ol)" (is ?L1)
    and "inner_join (stg_instacart__order_products db) (orders_in_eval_set v db)
             (\<lambda>ol od. op_order_id ol = o_order_id od)
       = inner_join (stg_instacart__order_products db') (orders_in_eval_set v db')
             (\<lambda>ol od. op_order_id ol = o_order_id od)" (is ?I2)
proof -
  from assms have o: "orders_in_eval_set v db = orders_in_eval_set v db'"
    and l: "lines_of_eval_set v db = lines_of_eval_set v db'"
    by (simp_all add: same_prior_data_def)
  have i1: "inner_join (orders_in_eval_set v d) (stg_instacart__order_products d)
             (\<lambda>od ol. o_order_id od = op_order_id ol)
       = inner_join (orders_in_eval_set v d) (lines_of_eval_set v d)
             (\<lambda>od ol. o_order_id od = op_order_id ol)" for d
    unfolding lines_of_eval_set_def
    by (rule inner_join_restrict_right[symmetric]) (auto simp: list_ex_iff)
  have l1: "left_join (orders_in_eval_set v d) (stg_instacart__order_products d)
             (\<lambda>od ol. o_order_id od = op_order_id ol)
       = left_join (orders_in_eval_set v d) (lines_of_eval_set v d)
             (\<lambda>od ol. o_order_id od = op_order_id ol)" for d
    unfolding lines_of_eval_set_def
    by (rule left_join_restrict_right[symmetric]) (auto simp: list_ex_iff)
  have i2: "inner_join (stg_instacart__order_products d) (orders_in_eval_set v d)
             (\<lambda>ol od. op_order_id ol = o_order_id od)
       = inner_join (lines_of_eval_set v d) (orders_in_eval_set v d)
             (\<lambda>ol od. op_order_id ol = o_order_id od)" for d
  proof -
    have "lines_of_eval_set v d
        = filter (\<lambda>ol. list_ex (\<lambda>od. op_order_id ol = o_order_id od) (orders_in_eval_set v d))
            (stg_instacart__order_products d)"
      unfolding lines_of_eval_set_def
      by (rule filter_cong) (auto simp: list_ex_iff intro: sym)
    then show ?thesis by (simp only: inner_join_restrict_left)
  qed
  show ?I1 unfolding i1[of db] i1[of db'] by (simp only: o l)
  show ?L1 unfolding l1[of db] l1[of db'] by (simp only: o l)
  show ?I2 unfolding i2[of db] i2[of db'] by (simp only: o l)
qed

lemma where_joins:
  "filter (\<lambda>(od, ol). o_eval_set od = var_eval_set v)
     (inner_join (stg_instacart__orders db) (stg_instacart__order_products db)
        (\<lambda>od ol. o_order_id od = op_order_id ol))
   = inner_join (orders_in_eval_set v db) (stg_instacart__order_products db)
        (\<lambda>od ol. o_order_id od = op_order_id ol)"
  "filter (\<lambda>(ol, od). o_eval_set od = var_eval_set v)
     (inner_join (stg_instacart__order_products db) (stg_instacart__orders db)
        (\<lambda>ol od. op_order_id ol = o_order_id od))
   = inner_join (stg_instacart__order_products db) (orders_in_eval_set v db)
        (\<lambda>ol od. op_order_id ol = o_order_id od)"
  unfolding orders_in_eval_set_def
  by (simp_all only: filter_inner_join_left filter_inner_join_right)

lemma prior_tables:
  assumes "same_prior_data v db db'"
  shows "stg_instacart__products db = stg_instacart__products db'"
    "stg_instacart__aisles db = stg_instacart__aisles db'"
    "stg_instacart__departments db = stg_instacart__departments db'"
    "filter (\<lambda>od. o_eval_set od = var_eval_set v) (stg_instacart__orders db)
       = filter (\<lambda>od. o_eval_set od = var_eval_set v) (stg_instacart__orders db')"
  using assms
  by (simp_all add: same_prior_data_def stg_instacart__products_def stg_instacart__aisles_def
      stg_instacart__departments_def orders_in_eval_set_def)

lemma prior_orders:
  "same_prior_data v db db' \<Longrightarrow> orders_in_eval_set v db = orders_in_eval_set v db'"
  by (simp add: same_prior_data_def)

lemma order_features_prior:
  assumes "same_prior_data v db db'"
  shows "instacart__order_features eng v db = instacart__order_features eng v db'"
proof -
  have om: "order_metrics v db = order_metrics v db'"
    unfolding order_metrics_def by (simp only: prior_joins[OF assms])
  have pom: "prev_order_metrics eng v db = prev_order_metrics eng v db'"
    unfolding prev_order_metrics_def by (simp only: om prior_orders[OF assms])
  have pd: "product_diversity v db = product_diversity v db'"
    unfolding product_diversity_def by (simp only: prior_joins[OF assms] prior_tables[OF assms])
  show ?thesis unfolding instacart__order_features_def by (simp only: om pom pd)
qed

lemma user_features_prior:
  assumes "same_prior_data v db db'"
  shows "instacart__user_features eng v db = instacart__user_features eng v db'"
proof -
  have oj: "orders_joined v db = orders_joined v db'"
    unfolding orders_joined_def by (simp only: prior_joins[OF assms])
  have um: "int_instacart__user_order_metrics eng v db = int_instacart__user_order_metrics eng v db'"
    unfolding int_instacart__user_order_metrics_def by (simp only: oj)
  have lo: "last_order_per_user eng v db = last_order_per_user eng v db'"
    unfolding last_order_per_user_def last_orders_def by (simp only: prior_tables[OF assms])
  have dp: "distinct_products v db = distinct_products v db'"
    unfolding distinct_products_def by (simp only: where_joins prior_joins[OF assms])
  have rs: "reorder_stats v db = reorder_stats v db'"
    unfolding reorder_stats_def by (simp only: where_joins prior_joins[OF assms])
  show ?thesis unfolding instacart__user_features_def by (simp only: um lo dp rs)
qed

lemma product_features_prior:
  assumes "same_prior_data v db db'"
  shows "instacart__product_features eng v db = instacart__product_features eng v db'"
proof -
  have pm: "int_instacart__product_metrics v db = int_instacart__product_metrics v db'"
    unfolding int_instacart__product_metrics_def
    by (simp only: prior_joins[OF assms] prior_tables[OF assms])
  have pc: "product_value_counts col v db = product_value_counts col v db'" for col
    unfolding product_value_counts_def by (simp only: where_joins prior_joins[OF assms])
  have pp: "product_peaks rank col v db = product_peaks rank col v db'" for rank col
    unfolding product_peaks_def by (simp only: pc)
  have j: "product_features_joins eng v db pm = product_features_joins eng v db' pm" for pm
    unfolding product_features_joins_def product_peak_hours_def product_peak_days_def
    by (simp only: pp prior_tables[OF assms])
  show ?thesis unfolding instacart__product_features_def by (simp only: pm j)
qed

lemma user_product_features_prior:
  assumes "same_prior_data v db db'"
  shows "instacart__user_product_features eng v db = instacart__user_product_features eng v db'"
proof -
  have uo: "user_orders v db = user_orders v db'"
    unfolding user_orders_def by (simp only: prior_joins[OF assms])
  have upm: "int_instacart__user_product_metrics v db = int_instacart__user_product_metrics v db'"
    unfolding int_instacart__user_product_metrics_def by (simp only: uo)
  have lp: "last_purchase eng v db = last_purchase eng v db'"
    unfolding last_purchase_def user_product_recency_def by (simp only: prior_joins[OF assms])
  have tp: "user_product_time_patterns v db = user_product_time_patterns v db'"
    unfolding user_product_time_patterns_def by (simp only: prior_joins[OF assms])
  have ddp: "dominant_day_parts v db = dominant_day_parts v db'"
    unfolding dominant_day_parts_def by (simp only: tp)
  have dd: "dominant_dows v db = dominant_dows v db'"
    unfolding dominant_dows_def by (simp only: tp)
  have j: "user_product_features_joins eng v db uf pf = user_product_features_joins eng v db' uf pf" for uf pf
    unfolding user_product_features_joins_def by (simp only: upm lp tp ddp dd)
  show ?thesis
    unfolding instacart__user_product_features_def
    by (simp only: j user_features_prior[OF assms] product_features_prior[OF assms])
qed

text \<open>
  Claim C1, as amended.  The feature pass reads the orders only through the filter
  \<open>eval_set = var("eval_set")\<close> and the order lines only through joins with the orders
  that pass it.  Hence every feature value joined onto a training row is derived from the
  orders of the partition \<open>prior\<close>, their order lines and the reference tables, never from
  the partition being labelled: two databases with the same prior data have the same four
  feature tables (or fail alike), and the training rows of the second carry the features
  computed from the first.  Changing an order outside the partition \<open>prior\<close>, whatever its
  sequence number, leaves every feature value unchanged.
\<close>

theorem features_from_prior_partition_only:
  assumes "same_prior_data v db db'"
  shows "feature_pass eng v db = feature_pass eng v db'
     \<and> instacart__training_features eng v target db'
       = bind_rows (feature_pass eng v db) (\<lambda>ft. Inr (join_features ft (training_labels target db')))"
proof -
  have "feature_pass eng v db = feature_pass eng v db'"
    unfolding feature_pass_def
    by (simp only: user_features_prior[OF assms] product_features_prior[OF assms]
        user_product_features_prior[OF assms] order_features_prior[OF assms])
  then show ?thesis by (simp add: instacart__training_features_def)
qed

theorem features_from_prior_partition_only_witness:
  "same_prior_data default_vars scenario_db scenario_db_modified
   \<and> ORDERS scenario_db \<noteq> ORDERS scenario_db_modified
   \<and> ORDER_PRODUCTS scenario_db \<noteq> ORDER_PRODUCTS scenario_db_modified
   \<and> feature_pass scan_order default_vars scenario_db = feature_pass scan_order default_vars scenario_db_modified
   \<and> instacart__training_features scan_order default_vars ''train'' scenario_db_modified
       = bind_rows (feature_pass scan_order default_vars scenario_db)
           (\<lambda>ft. Inr (join_features ft (training_labels ''train'' scenario_db_modified)))
   \<and> map_sum id length (instacart__training_features scan_order default_vars ''train'' scenario_db_modified)
       = Inr 1"
proof -
  have h: "same_prior_data default_vars scenario_db scenario_db_modified"
    by code_simp
  have d: "ORDERS scenario_db \<noteq> ORDERS scenario_db_modified"
    "ORDER_PRODUCTS scenario_db \<noteq> ORDER_PRODUCTS scenario_db_modified"
    by code_simp+
  have n: "map_sum id length
      (instacart__training_features scan_order default_vars ''train'' scenario_db_modified) = Inr 1"
    by code_simp
  from features_from_prior_partition_only [OF h, of scan_order "''train''"] h d n
  show ?thesis by blast
qed

text \<open>The claim as stated bounds the features by the sequence number of the labelled
  order, which the code does not do.  In \<open>leak_db\<close> the training row of order 504 has
  sequence number 4, and the user has the order 505 with sequence number 5 in the
  partition \<open>prior\<close>: the row's \<open>user_total_orders\<close> is 5 and its \<open>last_order_hour\<close> is the
  hour of order 505, so changing that order changes the row's feature values.\<close>

theorem features_sequence_counterexample:
  "map_sum id (map leak_columns) (instacart__training_features scan_order default_vars ''train'' leak_db)
     = Inr [(504, 4, Some 5, Some 9)]
   \<and> map_sum id (map leak_columns)
       (instacart__training_features scan_order default_vars ''train'' leak_db_modified)
     = Inr [(504, 4, Some 5, Some 20)]
   \<and> ORDERS leak_db_modified = (ORDERS leak_db)[4 := order_of 505 1 5 2 20 (Some 6) ''prior'']
   \<and> ORDER_PRODUCTS leak_db_modified = ORDER_PRODUCTS leak_db
   \<and> PRODUCTS leak_db_modified = PRODUCTS leak_db
   \<and> AISLES leak_db_modified = AISLES leak_db
   \<and> DEPARTMENTS leak_db_modified = DEPARTMENTS leak_db"
proof -
  have "map_sum id (map leak_columns)
      (instacart__training_features scan_order default_vars ''train'' leak_db)
     = Inr [(504, 4, Some 5, Some 9)]"
    by code_simp
  moreover have "map_sum id (map leak_columns)
       (instacart__training_features scan_order default_vars ''train'' leak_db_modified)
     = Inr [(504, 4, Some 5, Some 20)]"
    by code_simp
  ultimately show ?thesis by (simp add: leak_db_def leak_db_modified_def)
qed

section \<open>Deltas from the previous order\<close>

text \<open>
  \<open>prev_order_metrics\<close> reads the previous basket size with
  \<open>lag(...) over (partition by user_id order by order_number)\<close>: the lagged row is another
  row of the same user, placed before the current one.  The lemmas below carry this through
  the joins of \<open>instacart__order_features\<close>.
\<close>

lemma lag_pairs:
  assumes "(cur, Some pr) \<in> set (lag l)"
  shows "\<exists>i. Suc i < length l \<and> pr = l ! i \<and> cur = l ! Suc i"
proof -
  from assms obtain n where n: "n < length (lag l)" "lag l ! n = (cur, Some pr)"
    by (auto simp: in_set_conv_nth)
  then have nl: "n < length l" by (simp add: lag_def)
  have "lag l ! n = (l ! n, (None # map Some l) ! n)"
    unfolding lag_def using nl by (intro nth_zip) auto
  with n have c: "cur = l ! n" and p: "(None # map Some l) ! n = Some pr"
    by simp_all
  from p obtain i where i: "n = Suc i" by (cases n) auto
  with p nl have "pr = l ! i" by simp
  with i nl c show ?thesis by auto
qed

lemma window_partition_props:
  assumes "l \<in> set (sorted_partitions part key xs)"
  shows "sorted (map key l)" "set l \<subseteq> set xs" "\<exists>p. \<forall>a \<in> set l. part a = p"
    "\<exists>p. mset l = filter_mset (\<lambda>r. part r = p) (mset xs)"
  using assms by (auto simp: sorted_partitions_def)

lemma left_join_rows:
  assumes "(a, m) \<in> set (left_join xs ys on)"
  shows "a \<in> set xs" "\<And>b. m = Some b \<Longrightarrow> b \<in> set ys \<and> on a b"
proof -
  from assms obtain a' where a': "a' \<in> set xs"
    "(a, m) \<in> set (case filter (on a') ys of [] \<Rightarrow> [(a', None)]
                              | b # bs \<Rightarrow> map (\<lambda>m. (a', Some m)) (b # bs))"
    by (auto simp: left_join_def)
  then have e: "a = a'" by (cases "filter (on a') ys") auto
  with a' show "a \<in> set xs" by simp
  show "b \<in> set ys \<and> on a b" if "m = Some b" for b
  proof -
    from a' e that have "b \<in> set (filter (on a) ys)"
      by (cases "filter (on a) ys") auto
    then show ?thesis by simp
  qed
qed

lemma left_join_covers: "a \<in> set xs \<Longrightarrow> \<exists>m. (a, m) \<in> set (left_join xs ys on)"
proof -
  assume a: "a \<in> set xs"
  have "\<exists>m. (a, m) \<in> set (case filter (on a) ys of [] \<Rightarrow> [(a, None)]
                              | b # bs \<Rightarrow> map (\<lambda>m. (a, Some m)) (b # bs))"
    by (cases "filter (on a) ys") auto
  with a show ?thesis unfolding left_join_def by auto
qed

lemma inner_join_mem:
  "j \<in> set (inner_join xs ys on) \<Longrightarrow> fst j \<in> set xs \<and> snd j \<in> set ys \<and> on (fst j) (snd j)"
  by (auto simp: inner_join_def)

lemma order_metrics_source:
  assumes "om \<in> set (order_metrics v db)"
  shows "\<exists>od \<in> set (orders_in_eval_set v db). om_order_id om = o_order_id od
           \<and> om_user_id om = o_user_id od \<and> om_order_number om = o_order_number od"
proof -
  let ?J = "left_join (orders_in_eval_set v db) (stg_instacart__order_products db)
             (\<lambda>od ol. o_order_id od = op_order_id ol)"
  let ?K = "\<lambda>(od, ol). (o_order_id od, o_user_id od, o_order_number od, o_order_dow od,
                               o_order_hour_of_day od, o_days_since_prior_order od)"
  from assms obtain k g where kg: "(k, g) \<in> set (group_by ?K ?J)"
    and om: "om_order_id om = fst k" "om_user_id om = fst (snd k)"
      "om_order_number om = fst (snd (snd k))"
    unfolding order_metrics_def by (auto split: prod.splits)
  from kg have "k \<in> set (map ?K ?J)" by (simp add: group_by_mem)
  then obtain j where j: "j \<in> set ?J" "k = ?K j" by auto
  then have "fst j \<in> set (orders_in_eval_set v db)"
    using left_join_rows(1)[of "fst j" "snd j"] by simp
  with j om show ?thesis by (auto simp: case_prod_unfold)
qed

lemma order_features_rows:
  "set (instacart__order_features eng v db)
     = order_features_final ` set (left_join
          (left_join (order_metrics v db) (prev_order_metrics eng v db)
             (\<lambda>om pom. om_order_id om = pom_order_id pom))
          (product_diversity v db)
          (\<lambda>j pd. om_order_id (fst j) = pd_order_id pd))"
  by (simp add: instacart__order_features_def)

lemma order_features_of_metrics:
  assumes "om \<in> set (order_metrics v db)"
  shows "\<exists>r \<in> set (instacart__order_features eng v db). of_order_id r = om_order_id om
           \<and> of_user_id r = om_user_id om \<and> of_order_number r = om_order_number om
           \<and> of_basket_size r = om_basket_size om"
proof -
  from left_join_covers[OF assms] obtain m where
    m: "(om, m) \<in> set (left_join (order_metrics v db) (prev_order_metrics eng v db)
             (\<lambda>om pom. om_order_id om = pom_order_id pom))"
    by blast
  from left_join_covers[OF m] obtain pd where
    "((om, m), pd) \<in> set (left_join
          (left_join (order_metrics v db) (prev_order_metrics eng v db)
             (\<lambda>om pom. om_order_id om = pom_order_id pom))
          (product_diversity v db)
          (\<lambda>j pd. om_order_id (fst j) = pd_order_id pd))"
    by blast
  then have "order_features_final ((om, m), pd) \<in> set (instacart__order_features eng v db)"
    unfolding order_features_rows by (rule imageI)
  then show ?thesis
    by (rule rev_bexI) (simp add: order_features_final_def)
qed

lemma basket_size_delta_previous_order:
  assumes ids: "distinct (map o_order_id (ORDERS db))"
    and r: "r \<in> set (instacart__order_features eng v db)"
    and d: "of_basket_size_delta r = Some d"
  shows "\<exists>r' \<in> set (instacart__order_features eng v db).
           of_user_id r' = of_user_id r \<and> of_order_id r' \<noteq> of_order_id r
           \<and> of_order_number r' \<le> of_order_number r
           \<and> d = of_basket_size r - of_basket_size r'"
proof -
  let ?om = "order_metrics v db"
  let ?J = "inner_join (orders_in_eval_set v db) ?om (\<lambda>od om. o_order_id od = om_order_id om)"
  let ?part = "\<lambda>(od, om). o_user_id od" and ?key = "\<lambda>(od, om). o_order_number od"
  let ?A = "arrange (eng Prev_order_window) ?J"
  from r obtain om pomo pdo where j: "((om, pomo), pdo) \<in> set (left_join
          (left_join ?om (prev_order_metrics eng v db) (\<lambda>om pom. om_order_id om = pom_order_id pom))
          (product_diversity v db) (\<lambda>j pd. om_order_id (fst j) = pd_order_id pd))"
    and rr: "r = order_features_final ((om, pomo), pdo)"
    unfolding order_features_rows by auto
  from left_join_rows(1)[OF j]
  have j1: "(om, pomo) \<in> set (left_join ?om (prev_order_metrics eng v db)
      (\<lambda>om pom. om_order_id om = pom_order_id pom))" .
  from d rr obtain pom b where pomo: "pomo = Some pom" and b: "pom_prev_basket_size pom = Some b"
    and dd: "d = om_basket_size om - b"
    by (auto simp: order_features_final_def sql_minus_def split: option.splits
        simp: Option.bind_eq_Some_conv)
  from left_join_rows(2)[OF j1 pomo]
  have pom: "pom \<in> set (prev_order_metrics eng v db)" and on: "om_order_id om = pom_order_id pom"
    by simp_all
  from left_join_rows(1)[OF j1] have om: "om \<in> set ?om" .
  from pom obtain cur prev l where l: "l \<in> set (sorted_partitions ?part ?key ?A)"
    and cp: "(cur, prev) \<in> set (lag l)"
    and pf: "pom_order_id pom = o_order_id (fst cur)"
      "pom_prev_basket_size pom = map_option (\<lambda>r. om_basket_size (snd r)) prev"
    unfolding prev_order_metrics_def window_partitions_def by auto
  from b pf obtain pr where prev: "prev = Some pr" and bb: "b = om_basket_size (snd pr)"
    by auto
  from lag_pairs[OF cp[unfolded prev]] obtain i where
    i: "Suc i < length l" "pr = l ! i" "cur = l ! Suc i"
    by blast
  have srt: "sorted (map ?key l)" and sub: "set l \<subseteq> set ?J"
    using window_partition_props(1,2)[OF l] by (simp_all only: set_arrange)
  obtain p where p: "\<forall>a \<in> set l. ?part a = p"
    using window_partition_props(3)[OF l] by blast
  have dJ: "distinct (map (\<lambda>j. o_order_id (fst j)) ?J)"
    by (rule inner_join_distinct[OF distinct_orders_in_eval_set[OF ids]])
       (rule match_eq_le1[OF order_metrics_distinct[OF ids]])
  obtain p' where "mset l = filter_mset (\<lambda>r. ?part r = p') (mset ?J)"
    using window_partition_props(4)[OF l] unfolding mset_arrange by blast
  then have "mset (map (\<lambda>j. o_order_id (fst j)) l)
      = image_mset (\<lambda>j. o_order_id (fst j)) (mset (filter (\<lambda>r. ?part r = p') ?J))"
    by simp
  then have "mset (map (\<lambda>j. o_order_id (fst j)) l)
      = mset (map (\<lambda>j. o_order_id (fst j)) (filter (\<lambda>r. ?part r = p') ?J))"
    by simp
  moreover have "distinct (map (\<lambda>j. o_order_id (fst j)) (filter (\<lambda>r. ?part r = p') ?J))"
    using dJ by (rule distinct_map_filter)
  ultimately have dl: "distinct (map (\<lambda>j. o_order_id (fst j)) l)"
    by (metis mset_eq_imp_distinct_iff)
  have prl: "pr \<in> set l" and curl: "cur \<in> set l" using i by auto
  have ne: "o_order_id (fst pr) \<noteq> o_order_id (fst cur)"
  proof
    assume "o_order_id (fst pr) = o_order_id (fst cur)"
    then have "map (\<lambda>j. o_order_id (fst j)) l ! i = map (\<lambda>j. o_order_id (fst j)) l ! Suc i"
      using i by simp
    moreover have "i < length (map (\<lambda>j. o_order_id (fst j)) l)"
      "Suc i < length (map (\<lambda>j. o_order_id (fst j)) l)" "i \<noteq> Suc i"
      using i by simp_all
    ultimately show False using dl unfolding distinct_conv_nth by blast
  qed
  have le: "?key pr \<le> ?key cur"
  proof -
    have "map ?key l ! i \<le> map ?key l ! Suc i"
      using srt i(1) by (intro sorted_nth_mono) auto
    with i show ?thesis by simp
  qed
  have us: "?part pr = ?part cur" using p prl curl by auto
  from sub prl curl have prJ: "pr \<in> set ?J" and curJ: "cur \<in> set ?J" by auto
  have pron: "o_order_id (fst pr) = om_order_id (snd pr)" "snd pr \<in> set ?om"
    and prfst: "fst pr \<in> set (orders_in_eval_set v db)"
    using inner_join_mem[OF prJ] by simp_all
  have curon: "o_order_id (fst cur) = om_order_id (snd cur)" "snd cur \<in> set ?om"
    "fst cur \<in> set (orders_in_eval_set v db)"
    using inner_join_mem[OF curJ] by simp_all
  have dO: "distinct (map o_order_id (orders_in_eval_set v db))"
    using ids by (rule distinct_orders_in_eval_set)
  have src: "om_user_id x = o_user_id od \<and> om_order_number x = o_order_number od"
    if "x \<in> set ?om" "od \<in> set (orders_in_eval_set v db)" "om_order_id x = o_order_id od" for x od
  proof -
    from order_metrics_source[OF that(1)] obtain od' where
      od': "od' \<in> set (orders_in_eval_set v db)" "om_order_id x = o_order_id od'"
      "om_user_id x = o_user_id od'" "om_order_number x = o_order_number od'"
      by blast
    with that have "od' = od" using dO by (metis distinct_map inj_onD)
    with od' show ?thesis by simp
  qed
  have omcur: "om = snd cur"
  proof -
    have "om_order_id om = om_order_id (snd cur)" using on pf(1) curon(1) by simp
    with om curon(2) order_metrics_distinct[OF ids, of v] show ?thesis
      by (metis distinct_map inj_onD)
  qed
  from order_features_of_metrics[OF pron(2)] obtain r' where
    r': "r' \<in> set (instacart__order_features eng v db)" "of_order_id r' = om_order_id (snd pr)"
      "of_user_id r' = om_user_id (snd pr)" "of_order_number r' = om_order_number (snd pr)"
      "of_basket_size r' = om_basket_size (snd pr)"
    by blast
  have rf: "of_order_id r = om_order_id om" "of_user_id r = om_user_id om"
    "of_order_number r = om_order_number om" "of_basket_size r = om_basket_size om"
    unfolding rr by (simp_all add: order_features_final_def)
  have s1: "om_user_id (snd pr) = o_user_id (fst pr)" "om_order_number (snd pr) = o_order_number (fst pr)"
    using src[OF pron(2) prfst] pron(1) by simp_all
  have s2: "om_user_id (snd cur) = o_user_id (fst cur)" "om_order_number (snd cur) = o_order_number (fst cur)"
    using src[OF curon(2) curon(3)] curon(1) by simp_all
  have "of_user_id r' = of_user_id r"
    using r'(3) rf(2) omcur s1(1) s2(1) us by (simp add: case_prod_unfold)
  moreover have "of_order_id r' \<noteq> of_order_id r"
    using r'(2) rf(1) omcur pron(1) curon(1) ne by simp
  moreover have "of_order_number r' \<le> of_order_number r"
    using r'(4) rf(3) omcur s1(2) s2(2) le by (simp add: case_prod_unfold)
  moreover have "d = of_basket_size r - of_basket_size r'"
    using dd bb r'(5) rf(4) by simp
  ultimately show ?thesis using r'(1) by blast
qed

section \<open>The last order of the evaluation partition\<close>

text \<open>
  \<open>user_total_orders\<close> is \<open>max(order_number)\<close> over the orders of the user that are in the
  evaluation partition and pass \<open>order_number >= min_orders\<close>.  Whenever the user features
  are produced, the user has a row and the column holds the number of the last such order.
\<close>

lemma sql_max_Some:
  assumes "g \<noteq> []"
  shows "sql_max (map (\<lambda>r. Some (f r)) g) = Some (Max (f ` set g))"
proof -
  have nn: "non_null (map (\<lambda>r. Some (f r)) ys) = map f ys" for ys
    by (induction ys) auto
  from assms obtain x xs where g: "g = x # xs" by (cases g) auto
  have "fold max (map f xs) (f x) = Max (set (f x # map f xs))"
    by (rule Max.set_eq_fold[symmetric])
  then show ?thesis by (simp add: sql_max_def nn g)
qed

lemma non_null_nonempty: "non_null (map h g) \<noteq> [] \<Longrightarrow> \<exists>x \<in> set g. h x \<noteq> None"
proof (induction g)
  case Nil
  then show ?case by simp
next
  case (Cons a g)
  then show ?case by (cases "h a") auto
qed

lemma inner_join_intro:
  "a \<in> set xs \<Longrightarrow> b \<in> set ys \<Longrightarrow> on a b \<Longrightarrow> (a, b) \<in> set (inner_join xs ys on)"
  by (auto simp: inner_join_def)

lemma sequence_rows_mem:
  assumes "sequence_rows (map F gs) = Inr t" "r \<in> set t"
  shows "\<exists>g \<in> set gs. F g = Inr r"
proof -
  from assms(1) have "map F gs = map Inr t" by (rule sequence_rows_Inr)
  then have "Inr r \<in> set (map F gs)" using assms(2) by simp
  then show ?thesis by auto
qed

lemma sequence_rows_all:
  assumes "sequence_rows (map F gs) = Inr t" "g \<in> set gs"
  shows "\<exists>r \<in> set t. F g = Inr r"
proof -
  from assms(1) have "map F gs = map Inr t" by (rule sequence_rows_Inr)
  then have "F g \<in> set (map Inr t)" using assms(2) by (metis image_eqI set_map)
  then show ?thesis by auto
qed

lemma left_join_mem:
  "j \<in> set (left_join xs ys on)
     \<Longrightarrow> fst j \<in> set xs \<and> (\<forall>b. snd j = Some b \<longrightarrow> b \<in> set ys \<and> on (fst j) b)"
proof (cases j)
  case (Pair a m)
  assume "j \<in> set (left_join xs ys on)"
  with Pair have "(a, m) \<in> set (left_join xs ys on)" by simp
  from left_join_rows[OF this] Pair show ?thesis by simp
qed

lemma orders_joined_source:
  assumes "oj \<in> set (orders_joined v db)"
  shows "\<exists>od \<in> set (orders_in_eval_set v db). oj_user_id oj = o_user_id od
           \<and> oj_order_number oj = o_order_number od
           \<and> (oj_basket_size oj \<noteq> 0 \<longrightarrow>
                (\<exists>ol \<in> set (stg_instacart__order_products db). o_order_id od = op_order_id ol))"
proof -
  let ?J = "left_join (orders_in_eval_set v db) (stg_instacart__order_products db)
             (\<lambda>od ol. o_order_id od = op_order_id ol)"
  let ?K = "\<lambda>(od, ol). (o_order_id od, o_user_id od, o_order_number od, o_order_dow od,
                               o_order_hour_of_day od, o_days_since_prior_order od)"
  from assms obtain k g where kg: "(k, g) \<in> set (group_by ?K ?J)"
    and oj: "oj_user_id oj = fst (snd k)" "oj_order_number oj = fst (snd (snd k))"
      "oj_basket_size oj = sql_count (map (\<lambda>(od, ol). map_option op_product_id ol) g)"
    unfolding orders_joined_def by (auto split: prod.splits)
  from kg have kin: "k \<in> set (map ?K ?J)" and g: "g = filter (\<lambda>r. ?K r = k) ?J"
    by (simp_all add: group_by_mem)
  from kin obtain j where j: "j \<in> set ?J" "k = ?K j" by auto
  have od: "fst j \<in> set (orders_in_eval_set v db)"
    using left_join_mem[OF j(1)] by blast
  have "\<exists>ol \<in> set (stg_instacart__order_products db). o_order_id (fst j) = op_order_id ol"
    if "oj_basket_size oj \<noteq> 0"
  proof -
    from that oj(3) have "non_null (map (\<lambda>(od, ol). map_option op_product_id ol) g) \<noteq> []"
      by (auto simp: sql_count_def)
    then have "\<exists>x \<in> set g. (\<lambda>(od, ol). map_option op_product_id ol) x \<noteq> None"
      by (rule non_null_nonempty)
    then obtain x where x: "x \<in> set g" "snd x \<noteq> None"
      by (auto simp: case_prod_unfold)
    then obtain ol where ol: "snd x = Some ol" by auto
    from x g have xJ: "x \<in> set ?J" and xk: "?K x = k" by auto
    from left_join_mem[OF xJ] ol
    have "ol \<in> set (stg_instacart__order_products db)" "o_order_id (fst x) = op_order_id ol"
      by blast+
    moreover from xk j(2) have "o_order_id (fst x) = o_order_id (fst j)"
      by (simp add: case_prod_unfold)
    ultimately show ?thesis by auto
  qed
  with od oj j(2) show ?thesis by (auto simp: case_prod_unfold)
qed

lemma orders_joined_covers:
  assumes "od \<in> set (orders_in_eval_set v db)"
  shows "\<exists>oj \<in> set (orders_joined v db). oj_user_id oj = o_user_id od
           \<and> oj_order_number oj = o_order_number od"
proof -
  define J where "J = left_join (orders_in_eval_set v db) (stg_instacart__order_products db)
             (\<lambda>od ol. o_order_id od = op_order_id ol)"
  define K where "K = (\<lambda>(od :: order_row, ol :: order_product_row option).
     (o_order_id od, o_user_id od, o_order_number od, o_order_dow od,
      o_order_hour_of_day od, o_days_since_prior_order od))"
  define R where "R = (\<lambda>(k, g :: (order_row \<times> order_product_row option) list).
     case k of (oid, uid, num, dow, hour, dsp) \<Rightarrow>
            \<lparr> oj_order_id = oid, oj_user_id = uid, oj_order_number = num, oj_order_dow = dow,
              oj_order_hour_of_day = hour, oj_days_since_prior_order = dsp,
              oj_basket_size = sql_count (map (\<lambda>(od, ol). map_option op_product_id ol) g),
              oj_reordered_items =
                sum_case (\<lambda>(od, ol). map_option op_is_reordered ol = Some 1) g \<rparr>)"
  have oj: "orders_joined v db = map R (group_by K J)"
    unfolding orders_joined_def R_def K_def J_def ..
  from left_join_covers[OF assms] obtain m where m: "(od, m) \<in> set J"
    unfolding J_def by blast
  then have "K (od, m) \<in> set (map K J)" by (metis image_eqI set_map)
  then have "(K (od, m), filter (\<lambda>r. K r = K (od, m)) J) \<in> set (group_by K J)"
    by (simp only: group_by_mem)
  then have "R (K (od, m), filter (\<lambda>r. K r = K (od, m)) J) \<in> set (orders_joined v db)"
    unfolding oj set_map by (rule imageI)
  moreover have "oj_user_id (R (K (od, m), g)) = o_user_id od"
    "oj_order_number (R (K (od, m), g)) = o_order_number od" for g
    by (simp_all add: R_def K_def)
  ultimately show ?thesis by blast
qed


lemma user_ids_of_joined_lines:
  "set (map dp_user_id (distinct_products v db))
     = (\<lambda>(od, ol). o_user_id od) ` set (inner_join (orders_in_eval_set v db)
          (stg_instacart__order_products db) (\<lambda>od ol. o_order_id od = op_order_id ol))"
  "set (map rs_user_id (reorder_stats v db))
     = (\<lambda>(od, ol). o_user_id od) ` set (inner_join (orders_in_eval_set v db)
          (stg_instacart__order_products db) (\<lambda>od ol. o_order_id od = op_order_id ol))"
proof -
  have "map dp_user_id (distinct_products v db)
      = map fst (group_by (\<lambda>(od, ol). o_user_id od)
          (inner_join (orders_in_eval_set v db) (stg_instacart__order_products db)
                (\<lambda>od ol. o_order_id od = op_order_id ol)))"
    unfolding distinct_products_def where_joins by (simp add: case_prod_unfold comp_def)
  then show "set (map dp_user_id (distinct_products v db))
     = (\<lambda>(od, ol). o_user_id od) ` set (inner_join (orders_in_eval_set v db)
          (stg_instacart__order_products db) (\<lambda>od ol. o_order_id od = op_order_id ol))"
    by (simp add: group_by_keys)
  have "map rs_user_id (reorder_stats v db)
      = map fst (group_by (\<lambda>(od, ol). o_user_id od)
          (inner_join (orders_in_eval_set v db) (stg_instacart__order_products db)
                (\<lambda>od ol. o_order_id od = op_order_id ol)))"
    unfolding reorder_stats_def where_joins by (simp add: case_prod_unfold comp_def)
  then show "set (map rs_user_id (reorder_stats v db))
     = (\<lambda>(od, ol). o_user_id od) ` set (inner_join (orders_in_eval_set v db)
          (stg_instacart__order_products db) (\<lambda>od ol. o_order_id od = op_order_id ol))"
    by (simp add: group_by_keys)
qed

lemma user_ids_of_last_orders:
  "set (map lo_user_id (last_order_per_user eng v db)) = o_user_id ` set (orders_in_eval_set v db)"
proof -
  let ?xs = "arrange (eng Last_order_window)
               (filter (\<lambda>od. o_eval_set od = var_eval_set v) (stg_instacart__orders db))"
  have "map lo_user_id (last_order_per_user eng v db)
      = map (\<lambda>y. o_user_id (fst y))
          (concat (map (\<lambda>l. filter (\<lambda>(x, n). n = 1) (row_number l))
             (sorted_partitions o_user_id (\<lambda>od. - o_order_number od) ?xs)))"
    unfolding last_order_per_user_def last_orders_def window_partitions_def
    by (simp add: filter_map filter_concat comp_def case_prod_unfold)
  also have "\<dots> = remdups (map o_user_id ?xs)"
    by (rule first_rows_parts)
  finally show ?thesis by (simp add: orders_in_eval_set_def set_arrange)
qed

lemma sum_list_nonzero: "sum_list (map f g) \<noteq> (0::rat) \<Longrightarrow> \<exists>x \<in> set g. f x \<noteq> 0"
  by (induction g) auto

lemma user_metrics_group_Inr:
  assumes "user_metrics_group (u, g) = Inr um" "g \<noteq> []"
  shows "um_user_id um = u"
    and "um_user_total_orders um = Some (Max (oj_order_number ` set g))"
    and "\<exists>oj \<in> set g. oj_basket_size oj \<noteq> 0"
proof -
  have nn: "non_null (map (\<lambda>r. Some (h r)) ys) = map h ys" for h :: "orders_joined_row \<Rightarrow> rat" and ys
    by (induction ys) auto
  from assms(2) obtain x xs where g: "g = x # xs" by (cases g) auto
  have s: "sql_sum (map (\<lambda>r. Some (h r)) g) = Some (sum_list (map h g))" for h :: "orders_joined_row \<Rightarrow> rat"
    by (simp add: sql_sum_def nn g)
  from assms(1) have
    d0: "sql_div (sql_sum (map (\<lambda>r. Some (of_int (oj_reordered_items r))) g))
                (sql_sum (map (\<lambda>r. Some (of_int (oj_basket_size r))) g)) \<noteq> Inl DivisionByZero"
    and f: "um_user_id um = u"
      "um_user_total_orders um = sql_max (map (\<lambda>r. Some (oj_order_number r)) g)"
    unfolding user_metrics_group_def by (auto split: sum.splits)
  from d0[unfolded s] have
    d: "sql_div (Some (sum_list (map (\<lambda>r. of_int (oj_reordered_items r)) g)))
                (Some (sum_list (map (\<lambda>r. of_int (oj_basket_size r)) g))) \<noteq> Inl DivisionByZero" .
  show "um_user_id um = u" by (rule f(1))
  show "um_user_total_orders um = Some (Max (oj_order_number ` set g))"
    unfolding f(2) by (rule sql_max_Some[OF assms(2)])
  from d have "sum_list (map (\<lambda>r. of_int (oj_basket_size r)) g) \<noteq> (0::rat)"
    by (auto simp: sql_div_def split: if_splits)
  from sum_list_nonzero[OF this] show "\<exists>oj \<in> set g. oj_basket_size oj \<noteq> 0"
    by auto
qed

lemma user_total_orders_is_last_prior_order:
  assumes run: "instacart__user_features eng v db = Inr t"
    and last: "od \<in> set (orders_in_eval_set v db)" "o_user_id od = u" "o_order_number od = n"
    and all: "\<forall>od' \<in> set (orders_in_eval_set v db). o_user_id od' = u \<longrightarrow> o_order_number od' \<le> n"
    and min: "var_min_orders v \<le> n"
  shows "(\<exists>r \<in> set t. uf_user_id r = u)
     \<and> (\<forall>r \<in> set t. uf_user_id r = u \<longrightarrow> uf_user_total_orders r = Some n)"
proof -
  let ?I = "inner_join (orders_in_eval_set v db) (stg_instacart__order_products db)
              (\<lambda>od ol. o_order_id od = op_order_id ol)"
  from run obtain um_t where um: "int_instacart__user_order_metrics eng v db = Inr um_t"
    and t: "t = map user_features_final
         (inner_join
            (inner_join
               (inner_join um_t (distinct_products v db)
                  (\<lambda>um dp. um_user_id um = dp_user_id dp))
               (reorder_stats v db)
               (\<lambda>j rs. um_user_id (fst j) = rs_user_id rs))
            (last_order_per_user eng v db)
            (\<lambda>j lo. um_user_id (fst (fst j)) = lo_user_id lo))"
    by (rule user_features_Inr)
  define F where "F = arrange (eng Preferred_day_mode)
    (filter (\<lambda>r. oj_order_number r \<ge> var_min_orders v) (orders_joined v db))"
  define g where "g = filter (\<lambda>r. oj_user_id r = u) F"
  have setF: "set F = {r \<in> set (orders_joined v db). oj_order_number r \<ge> var_min_orders v}"
    unfolding F_def set_arrange by auto
  from orders_joined_covers[OF last(1)] last min obtain oj0 where
    oj0: "oj0 \<in> set F" "oj_user_id oj0 = u" "oj_order_number oj0 = n"
    unfolding setF by auto
  then have g0: "oj0 \<in> set g" unfolding g_def by simp
  then have gne: "g \<noteq> []" by auto
  have grp: "(u, g) \<in> set (group_by oj_user_id F)"
    unfolding group_by_mem g_def using oj0 by force
  from um have seq: "sequence_rows (map user_metrics_group (group_by oj_user_id F)) = Inr um_t"
    unfolding int_instacart__user_order_metrics_def F_def .
  from sequence_rows_all[OF seq grp] obtain um0 where
    um0: "um0 \<in> set um_t" "user_metrics_group (u, g) = Inr um0"
    by blast
  note props = user_metrics_group_Inr[OF um0(2) gne]
  have le: "oj_order_number oj \<le> n" if "oj \<in> set g" for oj
  proof -
    from that have "oj \<in> set (orders_joined v db)" "oj_user_id oj = u"
      unfolding g_def using setF by auto
    with orders_joined_source[of oj v db] all show ?thesis by auto
  qed
  have "Max (oj_order_number ` set g) = n"
    by (rule Max_eqI) (use le g0 oj0(3) in auto)
  with props(2) have tot: "um_user_total_orders um0 = Some n" by simp
  from props(3) obtain oj1 where oj1: "oj1 \<in> set g" "oj_basket_size oj1 \<noteq> 0" by blast
  then have "oj1 \<in> set (orders_joined v db)" "oj_user_id oj1 = u"
    unfolding g_def using setF by auto
  with orders_joined_source[of oj1 v db] oj1(2) obtain od1 ol1 where
    od1: "od1 \<in> set (orders_in_eval_set v db)" "o_user_id od1 = u"
      "ol1 \<in> set (stg_instacart__order_products db)" "o_order_id od1 = op_order_id ol1"
    by auto
  then have "(od1, ol1) \<in> set ?I" by (intro inner_join_intro)
  then have "u \<in> (\<lambda>(od, ol). o_user_id od) ` set ?I"
    using od1(2) by (metis (mono_tags, lifting) case_prod_conv image_eqI)
  then have "u \<in> set (map dp_user_id (distinct_products v db))"
    and "u \<in> set (map rs_user_id (reorder_stats v db))"
    unfolding user_ids_of_joined_lines by blast+
  then obtain dp0 rs0 where dp0: "dp0 \<in> set (distinct_products v db)" "dp_user_id dp0 = u"
    and rs0: "rs0 \<in> set (reorder_stats v db)" "rs_user_id rs0 = u"
    by auto
  have "u \<in> o_user_id ` set (orders_in_eval_set v db)" using last by auto
  then have "u \<in> set (map lo_user_id (last_order_per_user eng v db))"
    by (simp only: user_ids_of_last_orders)
  then obtain lo0 where lo0: "lo0 \<in> set (last_order_per_user eng v db)" "lo_user_id lo0 = u"
    by auto
  have "(((um0, dp0), rs0), lo0) \<in> set (inner_join
            (inner_join
               (inner_join um_t (distinct_products v db)
                  (\<lambda>um dp. um_user_id um = dp_user_id dp))
               (reorder_stats v db)
               (\<lambda>j rs. um_user_id (fst j) = rs_user_id rs))
            (last_order_per_user eng v db)
            (\<lambda>j lo. um_user_id (fst (fst j)) = lo_user_id lo))"
    by (intro inner_join_intro) (use um0(1) dp0 rs0 lo0 props(1) in auto)
  then have "user_features_final (((um0, dp0), rs0), lo0) \<in> set t"
    unfolding t set_map by (rule imageI)
  moreover have "uf_user_id (user_features_final (((um0, dp0), rs0), lo0)) = u"
    by (simp add: user_features_final_def props(1))
  ultimately have ex: "\<exists>r \<in> set t. uf_user_id r = u" by blast
  have "uf_user_total_orders r = Some n" if "r \<in> set t" "uf_user_id r = u" for r
  proof -
    from that(1) obtain j where j: "j \<in> set (inner_join
            (inner_join
               (inner_join um_t (distinct_products v db)
                  (\<lambda>um dp. um_user_id um = dp_user_id dp))
               (reorder_stats v db)
               (\<lambda>j rs. um_user_id (fst j) = rs_user_id rs))
            (last_order_per_user eng v db)
            (\<lambda>j lo. um_user_id (fst (fst j)) = lo_user_id lo))"
      and r: "r = user_features_final j"
      unfolding t by auto
    have "fst (fst (fst j)) \<in> set um_t"
      using inner_join_mem[OF j] inner_join_mem[of "fst j"] inner_join_mem[of "fst (fst j)"]
      by blast
    moreover have f: "uf_user_id r = um_user_id (fst (fst (fst j)))"
      "uf_user_total_orders r = um_user_total_orders (fst (fst (fst j)))"
      unfolding r user_features_final_def by (simp_all add: case_prod_unfold)
    ultimately have "fst (fst (fst j)) = um0"
      using that(2) um0(1) props(1) user_metrics_distinct[OF um]
      by (metis distinct_map inj_onD)
    with f tot show ?thesis by simp
  qed
  with ex show ?thesis by blast
qed

section \<open>The end-to-end scenario\<close>

text \<open>
  Claim C9.  On the scenario (user 1 with orders 1 to 5, orders 1 to 4 in \<open>prior\<close>, order 5
  in \<open>train\<close>) the feature pass gives \<open>user_total_orders = 4\<close>, and the order features
  hold the orders 1 to 4 only, each \<open>basket_size_delta\<close> being the basket size minus that
  of the user's previous order (NULL for the first order).  But when order 4 of the same
  user has no order line, \<open>int_instacart__user_order_metrics\<close> divides 0 by 0 in
  \<open>overall_reorder_rate\<close> and the feature pass fails, whatever the engine: no user
  features are produced.
  For every database on which the user features are produced, the two halves of the claim
  are the lemmas \<open>user_total_orders_is_last_prior_order\<close> and
  \<open>basket_size_delta_previous_order\<close> above.
\<close>

theorem scenario_feature_pass:
  "map_sum id (map total_orders_columns) (instacart__user_features scan_order default_vars scenario_db)
     = Inr [(1, Some 4)]
   \<and> map basket_delta_columns (instacart__order_features scan_order default_vars scenario_db)
     = [(101, 1, 2, None), (102, 2, 1, Some (- 1)), (103, 3, 3, Some 2), (104, 4, 1, Some (- 2))]
   \<and> feature_pass eng default_vars empty_basket_db = Inl DivisionByZero
   \<and> map basket_delta_columns (instacart__order_features scan_order default_vars empty_basket_db)
     = [(101, 1, 2, None), (102, 2, 1, Some (- 1)), (103, 3, 3, Some 2), (104, 4, 0, Some (- 3))]"
proof -
  have "map_sum id (map total_orders_columns)
        (instacart__user_features scan_order default_vars scenario_db) = Inr [(1, Some 4)]"
    by code_simp
  moreover have "map basket_delta_columns (instacart__order_features scan_order default_vars scenario_db)
     = [(101, 1, 2, None), (102, 2, 1, Some (- 1)), (103, 3, 3, Some 2), (104, 4, 1, Some (- 2))]"
    by code_simp
  moreover have "feature_pass eng default_vars empty_basket_db = Inl DivisionByZero"
    using empty_basket_metrics_fail[of eng]
    by (simp add: feature_pass_def instacart__user_features_def bind_rows_def)
  moreover have "map basket_delta_columns
        (instacart__order_features scan_order default_vars empty_basket_db)
     = [(101, 1, 2, None), (102, 2, 1, Some (- 1)), (103, 3, 3, Some 2), (104, 4, 0, Some (- 3))]"
    by code_simp
  ultimately show ?thesis by (intro conjI)
qed

end
